(* ===== verification/Prelude.thy ===== *)
theory Prelude
  imports Main "HOL-Library.State_Monad" "HOL-Library.Sublist"
    "HOL-Library.Char_ord" "HOL-Library.List_Lexorder" "HOL-Library.AList"
begin

text \<open>
  Shared vocabulary of the development.

  \<^item> Go values: byte strings with the operations of package \<^verbatim>\<open>strings\<close> that the operator
    uses (letters and white space are those of ASCII), slices that panic out of range, integer division, \<^verbatim>\<open>map[string]string\<close> as an
    association list, errors as values, decimal and hexadecimal printing.
  \<^item> The interface \<open>layered_merge\<close>: merging two layers of configuration where the second
    takes precedence, instantiated here for Go maps and later for environment variables,
    resource lists and nested engine configuration.
\<close>

section \<open>Go strings\<close>

text \<open>A Go string is a sequence of bytes; \<open>length\<close> is Go's \<open>len\<close>.\<close>

definition HasPrefix :: "string \<Rightarrow> string \<Rightarrow> bool" where
  "HasPrefix s p = prefix p s"

definition HasSuffix :: "string \<Rightarrow> string \<Rightarrow> bool" where
  "HasSuffix s p = suffix p s"

definition TrimPrefix :: "string \<Rightarrow> string \<Rightarrow> string" where
  "TrimPrefix s p = (if HasPrefix s p then drop (length p) s else s)"

fun Contains :: "string \<Rightarrow> string \<Rightarrow> bool" where
  "Contains [] sub = (sub = [])"
| "Contains (c # s) sub = (prefix sub (c # s) \<or> Contains s sub)"

definition lower_char :: "char \<Rightarrow> char" where
  "lower_char c = (let n = (of_char c :: nat) in if 65 \<le> n \<and> n \<le> 90 then char_of (n + 32) else c)"

definition ToLower :: "string \<Rightarrow> string" where
  "ToLower s = map lower_char s"

definition replace_char :: "char \<Rightarrow> char \<Rightarrow> string \<Rightarrow> string" where
  "replace_char a b s = map (\<lambda>c. if c = a then b else c) s"

text \<open>\<^verbatim>\<open>strings.Split(s, sep)\<close> for a separator of one byte: never empty.\<close>

fun Split :: "char \<Rightarrow> string \<Rightarrow> string list" where
  "Split d [] = [[]]"
| "Split d (c # s) =
     (if c = d then [] # Split d s
      else case Split d s of [] \<Rightarrow> [[c]] | p # ps \<Rightarrow> (c # p) # ps)"

text \<open>\<^verbatim>\<open>strings.SplitN(s, sep, 2)\<close> where the separator occurs in \<open>s\<close>.\<close>

fun SplitN2 :: "char \<Rightarrow> string \<Rightarrow> string \<times> string" where
  "SplitN2 d [] = ([], [])"
| "SplitN2 d (c # s) = (if c = d then ([], s) else (case SplitN2 d s of (a, b) \<Rightarrow> (c # a, b)))"

fun Join :: "'a list list \<Rightarrow> 'a list \<Rightarrow> 'a list" where
  "Join [] sep = []"
| "Join [x] sep = x"
| "Join (x # y # xs) sep = x @ sep @ Join (y # xs) sep"

definition is_space :: "char \<Rightarrow> bool" where
  "is_space c = ((of_char c :: nat) \<in> {9, 10, 11, 12, 13, 32})"

definition TrimSpace :: "string \<Rightarrow> string" where
  "TrimSpace s = rev (dropWhile is_space (rev (dropWhile is_space s)))"

text \<open>The slice expression \<open>s[:n]\<close>: \<open>None\<close> is the run-time panic.\<close>

definition slice_to :: "string \<Rightarrow> int \<Rightarrow> string option" where
  "slice_to s n = (if 0 \<le> n \<and> n \<le> int (length s) then Some (take (nat n) s) else None)"

text \<open>Go's integer division truncates towards zero.\<close>

definition go_div :: "int \<Rightarrow> int \<Rightarrow> int" where
  "go_div a b = sgn a * sgn b * (\<bar>a\<bar> div \<bar>b\<bar>)"

definition go_len :: "'a list \<Rightarrow> int" where
  "go_len xs = int (length xs)"

text \<open>Printing: \<^verbatim>\<open>%d\<close> and \<^verbatim>\<open>%x\<close>.\<close>

definition digit_char :: "nat \<Rightarrow> char" where
  "digit_char n = ''0123456789abcdef'' ! n"

fun show_nat :: "nat \<Rightarrow> string" where
  "show_nat n = (if n < 10 then [digit_char n] else show_nat (n div 10) @ [digit_char (n mod 10)])"

fun show_hex :: "nat \<Rightarrow> string" where
  "show_hex n = (if n < 16 then [digit_char n] else show_hex (n div 16) @ [digit_char (n mod 16)])"

declare show_nat.simps [simp del] show_hex.simps [simp del]

definition show_int :: "int \<Rightarrow> string" where
  "show_int i = (if i < 0 then ''-'' @ show_nat (nat (- i)) else show_nat (nat i))"

text \<open>\<^verbatim>\<open>%v\<close> of a string slice.\<close>

definition show_strings :: "string list \<Rightarrow> string" where
  "show_strings xs = ''['' @ Join xs '' '' @ '']''"

lemma Contains_iff_sublist: "Contains s sub \<longleftrightarrow> sublist sub s"
  by (induction s) (auto simp: sublist_Cons_right)

lemma slice_to_Some_iff:
  "slice_to s n = Some t \<longleftrightarrow> 0 \<le> n \<and> n \<le> int (length s) \<and> t = take (nat n) s"
  by (auto simp: slice_to_def)

lemma slice_to_None_iff: "slice_to s n = None \<longleftrightarrow> n < 0 \<or> int (length s) < n"
  by (auto simp: slice_to_def)

lemma go_div_nonneg: "0 \<le> a \<Longrightarrow> 0 < b \<Longrightarrow> go_div a b = a div b"
  by (cases "a = 0") (auto simp: go_div_def)

lemma TrimPrefix_append [simp]: "TrimPrefix (p @ s) p = s"
  by (simp add: TrimPrefix_def HasPrefix_def)

lemma HasPrefix_append [simp]: "HasPrefix (p @ s) p"
  by (simp add: HasPrefix_def)

lemma length_replace_char [simp]: "length (replace_char a b s) = length s"
  by (simp add: replace_char_def)

lemma replace_char_notin: "a \<noteq> b \<Longrightarrow> a \<notin> set (replace_char a b s)"
  by (auto simp: replace_char_def)

lemma Split_not_Nil [simp]: "Split d s \<noteq> []"
  by (induction s) (auto split: list.splits)

lemma Split_single: "d \<notin> set s \<Longrightarrow> Split d s = [s]"
  by (induction s) auto

lemma Split_append: "d \<notin> set a \<Longrightarrow> Split d (a @ d # b) = a # Split d b"
  by (induction a) auto

lemma SplitN2_append: "d \<notin> set a \<Longrightarrow> SplitN2 d (a @ d # b) = (a, b)"
  by (induction a) auto

text \<open>Joining what \<open>Split\<close> made gives the string back.\<close>

lemma Join_Split: "Join (Split d s) [d] = s"
proof (induction s)
  case (Cons c s)
  then show ?case
    by (cases "Split d s"; cases "tl (Split d s)") auto
qed simp

lemma length_show_hex: "n < 16 ^ Suc k \<Longrightarrow> length (show_hex n) \<le> Suc k"
proof (induction k arbitrary: n)
  case 0
  then show ?case by (subst show_hex.simps) simp
next
  case (Suc k)
  then have "n div 16 < 16 ^ Suc k"
    by (simp add: less_mult_imp_div_less)
  with Suc.IH have "length (show_hex (n div 16)) \<le> Suc k" by blast
  then show ?case by (subst show_hex.simps) simp
qed

lemma length_show_hex_ge: "16 ^ k \<le> n \<Longrightarrow> Suc k \<le> length (show_hex n)"
proof (induction k arbitrary: n)
  case 0
  then show ?case by (subst show_hex.simps) auto
next
  case (Suc k)
  have "(16::nat) \<le> 16 ^ Suc k" by simp
  with Suc.prems have big: "\<not> n < 16" by linarith
  from Suc.prems have "16 ^ k \<le> n div 16"
    by (simp add: less_eq_div_iff_mult_less_eq mult.commute)
  with Suc.IH have "Suc k \<le> length (show_hex (n div 16))" by blast
  with big show ?case by (subst show_hex.simps) simp
qed

section \<open>Errors\<close>

text \<open>
  A Go error carries the API machinery's status reason, which survives wrapping with
  \<^verbatim>\<open>%w\<close>, and its text. \<open>go_error option\<close> is a Go \<^verbatim>\<open>error\<close> result, \<open>None\<close> being \<^verbatim>\<open>nil\<close>.
\<close>

datatype err_reason = NotFound | AlreadyExists | Conflict | OtherReason

datatype go_error = GoError (err_reason: err_reason) (err_text: string)

definition new_error :: "string \<Rightarrow> go_error" where
  "new_error t = GoError OtherReason t"

definition wrap_error :: "string \<Rightarrow> go_error \<Rightarrow> go_error" where
  "wrap_error pre e = GoError (err_reason e) (pre @ err_text e)"

definition IsNotFound :: "go_error \<Rightarrow> bool" where
  "IsNotFound e = (err_reason e = NotFound)"

definition IsAlreadyExists :: "go_error \<Rightarrow> bool" where
  "IsAlreadyExists e = (err_reason e = AlreadyExists)"

definition IsConflict :: "go_error \<Rightarrow> bool" where
  "IsConflict e = (err_reason e = Conflict)"

definition IgnoreNotFound :: "go_error \<Rightarrow> go_error option" where
  "IgnoreNotFound e = (if IsNotFound e then None else Some e)"

lemma wrap_error_reason [simp]: "err_reason (wrap_error pre e) = err_reason e"
  by (simp add: wrap_error_def)

section \<open>Go maps\<close>

text \<open>
  \<^verbatim>\<open>map[string]T\<close> is an association list read with \<open>map_of\<close>; a \<^verbatim>\<open>nil\<close> map is the empty
  one. Go iterates in an unspecified order: what a definition makes of a map is stated
  through \<open>map_of\<close>, where the order of distinct keys does not show.
\<close>

type_synonym 'v gomap = "(string \<times> 'v) list"

type_synonym smap = "string gomap"

definition map_set :: "'v gomap \<Rightarrow> string \<Rightarrow> 'v \<Rightarrow> 'v gomap" where
  "map_set m k v = AList.update k v m"

text \<open>Reading a missing key of \<^verbatim>\<open>map[string]string\<close> gives the empty string.\<close>

definition smap_get :: "smap \<Rightarrow> string \<Rightarrow> string" where
  "smap_get m k = (case map_of m k of None \<Rightarrow> [] | Some v \<Rightarrow> v)"

text \<open>\<^verbatim>\<open>for k, v := range src { dst[k] = v }\<close>\<close>

definition map_put_all :: "'v gomap \<Rightarrow> 'v gomap \<Rightarrow> 'v gomap" where
  "map_put_all dst src = foldl (\<lambda>m (k, v). map_set m k v) dst src"

text \<open>\<^verbatim>\<open>for k, v := range src { if _, exists := dst[k]; !exists { dst[k] = v } }\<close>\<close>

definition map_put_absent :: "'v gomap \<Rightarrow> 'v gomap \<Rightarrow> 'v gomap" where
  "map_put_absent dst src =
     foldl (\<lambda>m (k, v). if map_of m k = None then map_set m k v else m) dst src"

text \<open>A Go map has each key once.\<close>

definition wf_map :: "'v gomap \<Rightarrow> bool" where
  "wf_map m = distinct (map fst m)"

lemma map_of_map_set [simp]: "map_of (map_set m k v) = (map_of m)(k \<mapsto> v)"
  by (simp add: map_set_def update_conv')

lemma wf_map_map_set [simp]: "wf_map m \<Longrightarrow> wf_map (map_set m k v)"
  by (simp add: wf_map_def map_set_def distinct_update)

lemma wf_map_Nil [simp]: "wf_map []"
  by (simp add: wf_map_def)

lemma map_set_fresh: "map_of m k = None \<Longrightarrow> map_set m k v = m @ [(k, v)]"
  unfolding map_set_def by (induction m) (auto split: if_splits)

lemma map_set_not_Nil [simp]: "map_set m k v \<noteq> []"
  by (cases m) (auto simp: map_set_def)

lemma map_put_all_simps [simp]:
  "map_put_all dst [] = dst"
  "map_put_all dst ((k, v) # src) = map_put_all (map_set dst k v) src"
  by (simp_all add: map_put_all_def)

lemma map_put_absent_simps [simp]:
  "map_put_absent dst [] = dst"
  "map_put_absent dst ((k, v) # src) =
     map_put_absent (if map_of dst k = None then map_set dst k v else dst) src"
  by (simp_all add: map_put_absent_def)

lemma map_of_map_put_all: "wf_map src \<Longrightarrow> map_of (map_put_all dst src) = map_of dst ++ map_of src"
proof (induction src arbitrary: dst)
  case (Cons kv src)
  obtain k v where kv: "kv = (k, v)" by (cases kv)
  with Cons.prems have "wf_map src" and "map_of src k = None"
    by (auto simp: wf_map_def map_of_eq_None_iff)
  with Cons.IH kv show ?case by (auto simp: fun_eq_iff map_add_def split: option.splits)
qed simp

lemma map_of_map_put_absent: "map_of (map_put_absent dst src) = map_of src ++ map_of dst"
proof (induction src arbitrary: dst)
  case (Cons kv src)
  obtain k v where kv: "kv = (k, v)" by (cases kv)
  show ?case
    unfolding kv by (auto simp: Cons.IH fun_eq_iff map_add_def split: option.splits)
qed simp

lemma wf_map_map_put_all [simp]: "wf_map dst \<Longrightarrow> wf_map (map_put_all dst src)"
  by (induction src arbitrary: dst) auto

lemma wf_map_map_put_absent [simp]: "wf_map dst \<Longrightarrow> wf_map (map_put_absent dst src)"
  by (induction src arbitrary: dst) auto

section \<open>Merging with precedence\<close>

text \<open>
  The operator merges many layers of configuration (labels, node selectors, resource
  lists, environment variables, engine arguments): one interface, whose law is that the
  second layer wins and what it does not mention is kept.
\<close>

locale layered_merge =
  fixes lookup :: "'m \<Rightarrow> 'k \<Rightarrow> 'v option"
    and valid :: "'m \<Rightarrow> bool"
    and merge :: "'m \<Rightarrow> 'm \<Rightarrow> 'm"
  assumes lookup_merge: "valid a \<Longrightarrow> valid b \<Longrightarrow> lookup (merge a b) = lookup a ++ lookup b"
    and valid_merge: "valid a \<Longrightarrow> valid b \<Longrightarrow> valid (merge a b)"
begin

lemma merge_wins: "valid a \<Longrightarrow> valid b \<Longrightarrow> lookup b k = Some v \<Longrightarrow> lookup (merge a b) k = Some v"
  by (simp add: lookup_merge)

lemma merge_keeps: "valid a \<Longrightarrow> valid b \<Longrightarrow> lookup b k = None \<Longrightarrow> lookup (merge a b) k = lookup a k"
  by (simp add: lookup_merge map_add_def)

lemma merge_assoc:
  "valid a \<Longrightarrow> valid b \<Longrightarrow> valid c \<Longrightarrow> lookup (merge (merge a b) c) = lookup (merge a (merge b c))"
  by (simp add: lookup_merge valid_merge)

lemma merge_idem: "valid a \<Longrightarrow> valid b \<Longrightarrow> lookup (merge (merge a b) b) = lookup (merge a b)"
  by (auto simp: lookup_merge valid_merge map_add_def fun_eq_iff split: option.splits)

lemma merge_keys: "valid a \<Longrightarrow> valid b \<Longrightarrow> dom (lookup (merge a b)) = dom (lookup a) \<union> dom (lookup b)"
  by (auto simp: lookup_merge)

end

interpretation put_all: layered_merge map_of wf_map map_put_all
  by unfold_locales (simp_all add: map_of_map_put_all)

end
