(* ===== verification/Effects.thy ===== *)
theory Effects
  imports Prelude
begin

text \<open>
  Computations of the operator. A computation is a state monad over an abstract cluster
  (\<open>'w\<close>: whatever the API server and everybody else in the cluster keep) and the log of
  the API calls made so far, each with its answer (\<open>'e\<close>). Every API call is one
  \<open>perform\<close>: it runs the operation of the client, which is a parameter, on the cluster and
  records the call. A computation that may panic returns an option, \<open>None\<close> being the panic.

  Reasoning is about the log, whatever the cluster answers:
  \<^item> \<open>spec m R\<close>: \<open>m\<close> extends the log by a list of events that \<open>R\<close> relates to its result;
  \<^item> \<open>all_events P m\<close>: every event that \<open>m\<close> adds satisfies \<open>P\<close>.
  The introduction rules are collected in \<open>spec_intros\<close> and \<open>event_intros\<close>.
\<close>

named_theorems spec_intros
named_theorems event_intros

record ('w, 'e) sys =
  world :: 'w
  trace :: "'e list"

type_synonym ('w, 'e, 'a) io = "(('w, 'e) sys, 'a) state"

abbreviation ret :: "'a \<Rightarrow> ('s, 'a) state" where
  "ret \<equiv> State_Monad.return"

definition perform :: "('a \<Rightarrow> 'e) \<Rightarrow> ('w, 'a) state \<Rightarrow> ('w, 'e, 'a) io" where
  "perform ev act = State (\<lambda>s. case run_state act (world s) of
     (x, w) \<Rightarrow> (x, s\<lparr>world := w, trace := trace s @ [ev x]\<rparr>))"

text \<open>Continue with a value, or panic.\<close>

definition or_panic :: "'a option \<Rightarrow> ('a \<Rightarrow> ('s, 'b option) state) \<Rightarrow> ('s, 'b option) state" where
  "or_panic x k = (case x of None \<Rightarrow> ret None | Some v \<Rightarrow> k v)"

text \<open>
  \<^verbatim>\<open>retry.RetryOnConflict\<close> belongs to client-go and is a parameter. What it documents: it
  runs the function, again as long as it answers a conflict and the back-off has steps left,
  and returns what the last run returned.
\<close>

fun attempts :: "nat \<Rightarrow> ('s, go_error option) state \<Rightarrow> ('s, go_error option) state" where
  "attempts 0 m = m"
| "attempts (Suc n) m = do {
     e \<leftarrow> m;
     case e of
       None \<Rightarrow> ret None
     | Some err \<Rightarrow> if IsConflict err then attempts n m else ret e }"

definition retries_conflicts :: "(('s, go_error option) state \<Rightarrow> ('s, go_error option) state) \<Rightarrow> bool" where
  "retries_conflicts retry = (\<forall>m s. \<exists>n. run_state (retry m) s = run_state (attempts n m) s)"

section \<open>Running\<close>

lemma run_state_return [simp]: "run_state (ret x) s = (x, s)"
  by (simp add: State_Monad.return_def)

lemma run_state_bind [simp]:
  "run_state (State_Monad.bind m f) s = (case run_state m s of (x, s') \<Rightarrow> run_state (f x) s')"
  by (simp add: State_Monad.bind_def)

lemma run_state_perform:
  "run_state (perform ev act) s =
     (case run_state act (world s) of (x, w) \<Rightarrow> (x, s\<lparr>world := w, trace := trace s @ [ev x]\<rparr>))"
  by (simp add: perform_def)

lemma or_panic_simps [simp]: "or_panic None k = ret None" "or_panic (Some v) k = k v"
  by (simp_all add: or_panic_def)

section \<open>Specifications over the log\<close>

definition spec :: "('w, 'e, 'a) io \<Rightarrow> ('a \<Rightarrow> 'e list \<Rightarrow> bool) \<Rightarrow> bool" where
  "spec m R = (\<forall>s. \<exists>evs. trace (snd (run_state m s)) = trace s @ evs \<and> R (fst (run_state m s)) evs)"

definition all_events :: "('e \<Rightarrow> bool) \<Rightarrow> ('w, 'e, 'a) io \<Rightarrow> bool" where
  "all_events P m = spec m (\<lambda>_ evs. list_all P evs)"

lemma specI:
  "(\<And>s. \<exists>evs. trace (snd (run_state m s)) = trace s @ evs \<and> R (fst (run_state m s)) evs) \<Longrightarrow> spec m R"
  by (simp add: spec_def)

lemma specE:
  assumes "spec m R" and "run_state m s = (x, s')"
  obtains evs where "trace s' = trace s @ evs" and "R x evs"
  using assms by (fastforce simp: spec_def dest: spec [of _ s])

lemma spec_run:
  "spec m R \<Longrightarrow> run_state m s = (x, s') \<Longrightarrow> trace s = [] \<Longrightarrow> R x (trace s')"
  by (erule (1) specE) simp

lemma spec_conseq: "spec m R \<Longrightarrow> (\<And>x evs. R x evs \<Longrightarrow> S x evs) \<Longrightarrow> spec m S"
  unfolding spec_def by blast

lemma spec_conj: "spec m R \<Longrightarrow> spec m S \<Longrightarrow> spec m (\<lambda>x evs. R x evs \<and> S x evs)"
  unfolding spec_def by (metis same_append_eq)

lemma spec_return [spec_intros]: "R x [] \<Longrightarrow> spec (ret x) R"
  by (simp add: spec_def)

lemma spec_bind:
  assumes m: "spec m S" and f: "\<And>x e1. S x e1 \<Longrightarrow> spec (f x) (\<lambda>y e2. R y (e1 @ e2))"
  shows "spec (State_Monad.bind m f) R"
proof (rule specI)
  fix s
  obtain x s' where run: "run_state m s = (x, s')" by fastforce
  from m run obtain e1 where e1: "trace s' = trace s @ e1" "S x e1" by (rule specE)
  obtain y s'' where run': "run_state (f x) s' = (y, s'')" by fastforce
  from f [OF e1(2)] run' obtain e2 where "trace s'' = trace s' @ e2" "R y (e1 @ e2)" by (rule specE)
  with run run' e1 show "\<exists>evs. trace (snd (run_state (State_Monad.bind m f) s)) = trace s @ evs \<and>
      R (fst (run_state (State_Monad.bind m f) s)) evs"
    by simp
qed

lemma spec_perform: "(\<And>x. R x [ev x]) \<Longrightarrow> spec (perform ev act) R"
  by (rule specI) (simp add: run_state_perform split: prod.splits)

text \<open>One call and what follows: the shape of almost every step of the controllers.\<close>

lemma spec_bind_perform [spec_intros]:
  "(\<And>x. spec (f x) (\<lambda>y evs. R y (ev x # evs))) \<Longrightarrow> spec (State_Monad.bind (perform ev act) f) R"
  by (rule spec_bind [where S = "\<lambda>x evs. evs = [ev x]"]) (auto intro: spec_perform)

lemma spec_return_bind [spec_intros]: "spec (f x) R \<Longrightarrow> spec (State_Monad.bind (ret x) f) R"
  by (rule spec_bind [where S = "\<lambda>y evs. y = x \<and> evs = []"]) (auto intro: spec_return)

lemma spec_if [spec_intros]:
  "(b \<Longrightarrow> spec m R) \<Longrightarrow> (\<not> b \<Longrightarrow> spec n R) \<Longrightarrow> spec (if b then m else n) R"
  by simp

lemma spec_sum [spec_intros]:
  "(\<And>a. x = Inl a \<Longrightarrow> spec (f a) R) \<Longrightarrow> (\<And>b. x = Inr b \<Longrightarrow> spec (g b) R) \<Longrightarrow>
     spec (case x of Inl a \<Rightarrow> f a | Inr b \<Rightarrow> g b) R"
  by (cases x) auto

lemma spec_option [spec_intros]:
  "(x = None \<Longrightarrow> spec m R) \<Longrightarrow> (\<And>y. x = Some y \<Longrightarrow> spec (f y) R) \<Longrightarrow>
     spec (case x of None \<Rightarrow> m | Some y \<Rightarrow> f y) R"
  by (cases x) auto

lemma spec_prod [spec_intros]:
  "(\<And>a b. x = (a, b) \<Longrightarrow> spec (f a b) R) \<Longrightarrow> spec (case x of (a, b) \<Rightarrow> f a b) R"
  by (cases x) auto

lemma spec_or_panic [spec_intros]:
  "(x = None \<Longrightarrow> R None []) \<Longrightarrow> (\<And>v. x = Some v \<Longrightarrow> spec (k v) R) \<Longrightarrow> spec (or_panic x k) R"
  by (cases x) (auto intro: spec_return)

text \<open>A bound computation that starts with a bind or a branch is normalised to one that starts with a call.\<close>

lemma spec_bind_assoc [spec_intros]:
  "spec (State_Monad.bind m (\<lambda>x. State_Monad.bind (f x) g)) R \<Longrightarrow>
     spec (State_Monad.bind (State_Monad.bind m f) g) R"
  by (simp add: spec_def split_beta)

lemma spec_bind_branch [spec_intros]:
  "(b \<Longrightarrow> spec (State_Monad.bind m f) R) \<Longrightarrow> (\<not> b \<Longrightarrow> spec (State_Monad.bind n f) R) \<Longrightarrow>
     spec (State_Monad.bind (if b then m else n) f) R"
  "(\<And>a. x = Inl a \<Longrightarrow> spec (State_Monad.bind (g a) f) R) \<Longrightarrow> (\<And>c. x = Inr c \<Longrightarrow> spec (State_Monad.bind (h c) f) R) \<Longrightarrow>
     spec (State_Monad.bind (case x of Inl a \<Rightarrow> g a | Inr c \<Rightarrow> h c) f) R"
  "(y = None \<Longrightarrow> spec (State_Monad.bind m' f) R) \<Longrightarrow> (\<And>z. y = Some z \<Longrightarrow> spec (State_Monad.bind (k z) f) R) \<Longrightarrow>
     spec (State_Monad.bind (case y of None \<Rightarrow> m' | Some z \<Rightarrow> k z) f) R"
  "(\<And>u v. p = (u, v) \<Longrightarrow> spec (State_Monad.bind (l u v) f) R) \<Longrightarrow>
     spec (State_Monad.bind (case p of (u, v) \<Rightarrow> l u v) f) R"
  by (auto split: sum.splits option.splits prod.splits)

lemma spec_bind_or_panic [spec_intros]:
  "(x = None \<Longrightarrow> spec (f None) R) \<Longrightarrow> (\<And>v. x = Some v \<Longrightarrow> spec (State_Monad.bind (k v) f) R) \<Longrightarrow>
     spec (State_Monad.bind (or_panic x k) f) R"
  by (cases x) (auto intro: spec_return_bind)

section \<open>Event predicates\<close>

lemma all_events_spec: "all_events P m \<Longrightarrow> spec m (\<lambda>_ evs. list_all P evs)"
  by (simp add: all_events_def)

lemma all_events_mono: "all_events P m \<Longrightarrow> (\<And>e. P e \<Longrightarrow> Q e) \<Longrightarrow> all_events Q m"
  unfolding all_events_def by (erule spec_conseq) (auto elim: list.pred_mono_strong)

lemma all_events_run:
  "all_events P m \<Longrightarrow> run_state m s = (x, s') \<Longrightarrow> list_all P (trace s) \<Longrightarrow> list_all P (trace s')"
  unfolding all_events_def by (erule (1) specE) simp

lemma all_events_return [event_intros]: "all_events P (ret x)"
  by (simp add: all_events_def spec_return)

lemma all_events_bind [event_intros]:
  "all_events P m \<Longrightarrow> (\<And>x. all_events P (f x)) \<Longrightarrow> all_events P (State_Monad.bind m f)"
  unfolding all_events_def
  by (rule spec_bind, assumption) (auto elim: spec_conseq)

lemma all_events_perform [event_intros]: "(\<And>x. P (ev x)) \<Longrightarrow> all_events P (perform ev act)"
  by (simp add: all_events_def spec_perform)

lemma all_events_if [event_intros]:
  "(b \<Longrightarrow> all_events P m) \<Longrightarrow> (\<not> b \<Longrightarrow> all_events P n) \<Longrightarrow> all_events P (if b then m else n)"
  by simp

lemma all_events_sum [event_intros]:
  "(\<And>a. x = Inl a \<Longrightarrow> all_events P (f a)) \<Longrightarrow> (\<And>b. x = Inr b \<Longrightarrow> all_events P (g b)) \<Longrightarrow>
     all_events P (case x of Inl a \<Rightarrow> f a | Inr b \<Rightarrow> g b)"
  by (cases x) auto

lemma all_events_option [event_intros]:
  "(x = None \<Longrightarrow> all_events P m) \<Longrightarrow> (\<And>y. x = Some y \<Longrightarrow> all_events P (f y)) \<Longrightarrow>
     all_events P (case x of None \<Rightarrow> m | Some y \<Rightarrow> f y)"
  by (cases x) auto

lemma all_events_prod [event_intros]:
  "(\<And>a b. x = (a, b) \<Longrightarrow> all_events P (f a b)) \<Longrightarrow> all_events P (case x of (a, b) \<Rightarrow> f a b)"
  by (cases x) auto

lemma all_events_or_panic [event_intros]:
  "(\<And>v. x = Some v \<Longrightarrow> all_events P (k v)) \<Longrightarrow> all_events P (or_panic x k)"
  by (cases x) (auto intro: all_events_return)

section \<open>Guarded computations\<close>

text \<open>
  \<open>guarded P Q m\<close>: every event of a run satisfies \<open>Q\<close> (what is written is well-formed) as long
  as all events before it satisfied \<open>P\<close> (what the API server answered was well-formed).
\<close>

named_theorems guarded_intros

fun guarded_log :: "('e \<Rightarrow> bool) \<Rightarrow> ('e \<Rightarrow> bool) \<Rightarrow> 'e list \<Rightarrow> bool" where
  "guarded_log P Q [] = True"
| "guarded_log P Q (e # evs) = (Q e \<and> (P e \<longrightarrow> guarded_log P Q evs))"

definition guarded :: "('e \<Rightarrow> bool) \<Rightarrow> ('e \<Rightarrow> bool) \<Rightarrow> ('w, 'e, 'a) io \<Rightarrow> bool" where
  "guarded P Q m = spec m (\<lambda>_ evs. guarded_log P Q evs)"

lemma guarded_log_append:
  "guarded_log P Q (a @ b) = (guarded_log P Q a \<and> (list_all P a \<longrightarrow> guarded_log P Q b))"
  by (induction a) auto

lemma guarded_log_all: "list_all Q evs \<Longrightarrow> guarded_log P Q evs"
  by (induction evs) auto

lemma guarded_logD: "guarded_log P Q evs \<Longrightarrow> list_all P evs \<Longrightarrow> list_all Q evs"
  by (induction evs) auto

lemma guarded_all_events: "all_events Q m \<Longrightarrow> guarded P Q m"
  unfolding all_events_def guarded_def by (erule spec_conseq) (rule guarded_log_all)

lemma guarded_return [guarded_intros]: "guarded P Q (ret x)"
  by (simp add: guarded_def spec_return)

lemma guarded_bind [guarded_intros]:
  assumes "guarded P Q m" and "\<And>x. guarded P Q (f x)"
  shows "guarded P Q (State_Monad.bind m f)"
  unfolding guarded_def
proof (rule spec_bind [OF assms(1) [unfolded guarded_def]])
  fix x e1
  assume "guarded_log P Q e1"
  then show "spec (f x) (\<lambda>y e2. guarded_log P Q (e1 @ e2))"
    by (intro spec_conseq [OF assms(2) [unfolded guarded_def]]) (simp add: guarded_log_append)
qed

lemma guarded_branch [guarded_intros]:
  "(b \<Longrightarrow> guarded P Q m) \<Longrightarrow> (\<not> b \<Longrightarrow> guarded P Q n) \<Longrightarrow> guarded P Q (if b then m else n)"
  "(\<And>u. x = Inl u \<Longrightarrow> guarded P Q (f u)) \<Longrightarrow> (\<And>v. x = Inr v \<Longrightarrow> guarded P Q (g v)) \<Longrightarrow>
     guarded P Q (case x of Inl u \<Rightarrow> f u | Inr v \<Rightarrow> g v)"
  "(y = None \<Longrightarrow> guarded P Q m') \<Longrightarrow> (\<And>z. y = Some z \<Longrightarrow> guarded P Q (h z)) \<Longrightarrow>
     guarded P Q (case y of None \<Rightarrow> m' | Some z \<Rightarrow> h z)"
  "(\<And>a c. p = (a, c) \<Longrightarrow> guarded P Q (l a c)) \<Longrightarrow> guarded P Q (case p of (a, c) \<Rightarrow> l a c)"
  "(\<And>v. y' = Some v \<Longrightarrow> guarded P Q (k v)) \<Longrightarrow> guarded P Q (or_panic y' k)"
  by (auto simp: or_panic_def intro: guarded_return split: sum.splits option.splits prod.splits)

lemma spec_of_guarded: "guarded P Q m \<Longrightarrow> spec m (\<lambda>_ _. True)"
  unfolding guarded_def by (erule spec_conseq) simp

lemma guarded_run:
  "guarded P Q m \<Longrightarrow> run_state m s = (x, s') \<Longrightarrow> trace s = [] \<Longrightarrow> list_all P (trace s') \<Longrightarrow> list_all Q (trace s')"
  unfolding guarded_def by (drule (2) spec_run) (rule guarded_logD)

section \<open>Retrying\<close>

lemma all_events_attempts: "all_events P m \<Longrightarrow> all_events P (attempts n m)"
proof (induction n)
  case (Suc n)
  show ?case
    unfolding attempts.simps using Suc.prems Suc.IH [OF Suc.prems]
    by (auto intro!: event_intros split: option.splits)
qed simp

lemma all_events_retry:
  assumes "retries_conflicts retry" and "all_events P m"
  shows "all_events P (retry m)"
  unfolding all_events_def
proof (rule specI)
  fix s
  from assms(1) obtain n where n: "run_state (retry m) s = run_state (attempts n m) s"
    by (auto simp: retries_conflicts_def)
  from all_events_attempts [OF assms(2)] have "spec (attempts n m) (\<lambda>_ evs. list_all P evs)"
    by (rule all_events_spec)
  then show "\<exists>evs. trace (snd (run_state (retry m) s)) = trace s @ evs \<and> list_all P evs"
    unfolding n by (simp add: spec_def)
qed

text \<open>
  A retried function: it is enough that one run is related to its events, and that a run
  that answered a conflict may be put before another.
\<close>

lemma spec_attempts:
  assumes "spec m R" and "\<And>err e1 y e2. R (Some err) e1 \<Longrightarrow> IsConflict err \<Longrightarrow> R y e2 \<Longrightarrow> R y (e1 @ e2)"
  shows "spec (attempts n m) R"
proof (induction n)
  case (Suc n)
  have again: "spec (attempts n m) (\<lambda>y e2. R y (e1 @ e2))" if "R (Some err) e1" "IsConflict err" for err e1
    using Suc.IH by (rule spec_conseq) (rule assms(2) [OF that])
  show ?case
    unfolding attempts.simps
    by (rule spec_bind [OF assms(1)])
      (auto intro!: spec_intros again split: option.splits)
qed (use assms(1) in simp)

lemma spec_retry:
  assumes "retries_conflicts retry" and "spec m R"
    and "\<And>err e1 y e2. R (Some err) e1 \<Longrightarrow> IsConflict err \<Longrightarrow> R y e2 \<Longrightarrow> R y (e1 @ e2)"
  shows "spec (retry m) R"
proof (rule specI)
  fix s
  from assms(1) obtain n where n: "run_state (retry m) s = run_state (attempts n m) s"
    by (auto simp: retries_conflicts_def)
  have "spec (attempts n m) R"
    by (rule spec_attempts [OF assms(2)]) (rule assms(3))
  then show "\<exists>evs. trace (snd (run_state (retry m) s)) = trace s @ evs \<and> R (fst (run_state (retry m) s)) evs"
    unfolding n by (simp add: spec_def)
qed

lemma guarded_retry:
  "retries_conflicts retry \<Longrightarrow> guarded P Q m \<Longrightarrow> guarded P Q (retry m)"
  unfolding guarded_def by (erule (1) spec_retry) (simp add: guarded_log_append)

lemma retries_conflicts_attempts: "retries_conflicts (attempts n)"
  by (auto simp: retries_conflicts_def)

end
