(* ===== verification/Names.thy ===== *)
theory Names
  imports Prelude "HOL-Library.Word"
begin

text \<open>
  The deterministic resource names of the operator and the hash they use.

  \<^item> \<open>TruncatedName\<close>, \<open>llmEnginePVName\<close>, \<open>llmEnginePVCName\<close> of
    \<^verbatim>\<open>internal/controller/storage/llmengine_storage.go\<close>;
  \<^item> \<open>ComponentName\<close> and \<open>GetVLLMConfigMapName\<close> of
    \<^verbatim>\<open>internal/controller/adapters/llmengine_utils.go\<close>;
  \<^item> \<open>generateJobName\<close> and \<open>hashString\<close> of
    \<^verbatim>\<open>internal/controller/modelrepository_controller.go\<close>.

  A name is \<open>None\<close> where the Go slice expression is out of range and panics. The interface
  \<open>bounded_namer\<close> is what the callers rely on: a name within the limit is kept as it is, and
  no name exceeds the limit.
\<close>

unbundle bit_operations_syntax

section \<open>The hash\<close>

text \<open>\<^verbatim>\<open>hash/fnv\<close> New32a: FNV-1a on 32 bits, the multiplication wraps around.\<close>

definition fnv32a_step :: "32 word \<Rightarrow> char \<Rightarrow> 32 word" where
  "fnv32a_step h c = (h XOR of_char c) * 16777619"

definition fnv32a :: "string \<Rightarrow> 32 word" where
  "fnv32a s = foldl fnv32a_step 2166136261 s"

definition hashString :: "string \<Rightarrow> string" where
  "hashString s = show_hex (unat (fnv32a s))"

section \<open>Names\<close>

definition TruncatedName :: "int \<Rightarrow> string \<Rightarrow> string \<Rightarrow> string \<Rightarrow> string option" where
  "TruncatedName maxLen pre a b =
     (let full = (if pre = [] then a @ ''-'' @ b else pre @ ''-'' @ a @ ''-'' @ b)
      in if go_len full \<le> maxLen then Some full
      else do {
        hash \<leftarrow> slice_to (hashString full) 6;
        let separators = (if pre \<noteq> [] then 3 else 2);
        let available = maxLen - go_len pre - separators - go_len hash;
        let halfLen = go_div available 2;
        truncA \<leftarrow> (if go_len a > halfLen then slice_to a halfLen else Some a);
        let remaining = available - go_len truncA;
        truncB \<leftarrow> (if go_len b > remaining then slice_to b remaining else Some b);
        Some (if pre = [] then truncA @ ''-'' @ truncB @ ''-'' @ hash
              else pre @ ''-'' @ truncA @ ''-'' @ truncB @ ''-'' @ hash)
      })"

definition llmEnginePVName :: "string \<Rightarrow> string \<Rightarrow> string option" where
  "llmEnginePVName engineName modelRepoName = TruncatedName 63 ''le'' engineName modelRepoName"

definition llmEnginePVCName :: "string \<Rightarrow> string \<Rightarrow> string option" where
  "llmEnginePVCName engineName modelRepoName = TruncatedName 63 ''le'' engineName modelRepoName"

definition ComponentName :: "string \<Rightarrow> string \<Rightarrow> string option" where
  "ComponentName engineName modelName = TruncatedName 52 '''' engineName modelName"

definition GetVLLMConfigMapName :: "string \<Rightarrow> string \<Rightarrow> string" where
  "GetVLLMConfigMapName engineName modelName = ''vllm-'' @ engineName @ ''-'' @ modelName @ ''-config''"

definition generateJobName :: "string \<Rightarrow> string \<Rightarrow> string \<Rightarrow> string option" where
  "generateJobName jobType modelRepoName revisionName =
     (let maxLen = 63; pre = jobType @ ''-'' in
      if revisionName = [] then
        (let available = maxLen - go_len pre in
         if go_len modelRepoName \<le> available then Some (pre @ modelRepoName)
         else do {
           truncated \<leftarrow> slice_to modelRepoName (available - 7);
           hash \<leftarrow> slice_to (hashString modelRepoName) 6;
           Some (pre @ truncated @ ''-'' @ hash)
         })
      else
        (let separator = ''-'';
             available = maxLen - go_len pre - go_len separator;
             combined = modelRepoName @ separator @ revisionName in
         if go_len combined \<le> available then Some (pre @ combined)
         else
           (let hashSuffixLen = 7;
                availableForNames = available - hashSuffixLen;
                modelRepoMaxLen = go_div (availableForNames * 3) 5;
                revisionMaxLen = availableForNames - modelRepoMaxLen - 1;
                (modelRepoMaxLen, revisionMaxLen) =
                  (if modelRepoMaxLen < 8 then (8, availableForNames - 8 - 1)
                   else (modelRepoMaxLen, revisionMaxLen));
                (modelRepoMaxLen, revisionMaxLen) =
                  (if revisionMaxLen < 6 then (availableForNames - 6 - 1, 6)
                   else (modelRepoMaxLen, revisionMaxLen))
            in do {
              truncatedModel \<leftarrow> (if go_len modelRepoName > modelRepoMaxLen
                                then slice_to modelRepoName modelRepoMaxLen else Some modelRepoName);
              truncatedRevision \<leftarrow> (if go_len revisionName > revisionMaxLen
                                then slice_to revisionName revisionMaxLen else Some revisionName);
              hash \<leftarrow> slice_to (hashString (modelRepoName @ ''-'' @ revisionName)) 6;
              Some (pre @ truncatedModel @ ''-'' @ truncatedRevision @ ''-'' @ hash)
            })))"

section \<open>Hash suffixes\<close>

text \<open>
  \<^verbatim>\<open>%x\<close> prints no leading zeros, so a hash below \<open>16 ^ 5 = 1048576\<close> has fewer than the six
  digits that the code cuts off, and the slice panics.
\<close>

lemma hash_slice_None_iff: "slice_to (hashString s) 6 = None \<longleftrightarrow> unat (fnv32a s) < 1048576"
proof
  assume "slice_to (hashString s) 6 = None"
  then have "\<not> Suc 5 \<le> length (hashString s)" by (simp add: slice_to_None_iff)
  then show "unat (fnv32a s) < 1048576"
    unfolding hashString_def using length_show_hex_ge [of 5 "unat (fnv32a s)"] by (rule_tac ccontr) simp
next
  assume "unat (fnv32a s) < 1048576"
  then have "length (hashString s) \<le> Suc 4"
    unfolding hashString_def by (intro length_show_hex) simp
  then show "slice_to (hashString s) 6 = None" by (simp add: slice_to_None_iff)
qed

lemma hash_slice_length: "slice_to (hashString s) 6 = Some h \<Longrightarrow> length h = 6"
  by (auto simp: slice_to_Some_iff)

lemma slice_to_le: "slice_to s n = Some t \<Longrightarrow> int (length t) \<le> n"
  by (auto simp: slice_to_Some_iff)

text \<open>Cutting a string to a limit, as both name builders do.\<close>

definition cut_to :: "int \<Rightarrow> string \<Rightarrow> string option" where
  "cut_to n s = (if go_len s > n then slice_to s n else Some s)"

lemma cut_to_le: "cut_to n s = Some t \<Longrightarrow> int (length t) \<le> n"
  by (auto simp: cut_to_def go_len_def split: if_splits dest: slice_to_le)

lemma cut_to_defined: "0 \<le> n \<Longrightarrow> \<exists>t. cut_to n s = Some t"
  by (simp add: cut_to_def slice_to_def go_len_def)

lemma cut_to_None_iff: "cut_to n s = None \<longleftrightarrow> n < 0"
  by (auto simp: cut_to_def slice_to_def go_len_def)

section \<open>TruncatedName\<close>

definition raw_name :: "string \<Rightarrow> string \<Rightarrow> string \<Rightarrow> string" where
  "raw_name pre a b = (if pre = [] then a @ ''-'' @ b else pre @ ''-'' @ a @ ''-'' @ b)"

lemma TruncatedName_short:
  "int (length (raw_name pre a b)) \<le> n \<Longrightarrow> TruncatedName n pre a b = Some (raw_name pre a b)"
  by (simp add: TruncatedName_def raw_name_def go_len_def)

lemma TruncatedName_unfold:
  "\<not> int (length (raw_name pre a b)) \<le> n \<Longrightarrow>
   TruncatedName n pre a b =
     do { hash \<leftarrow> slice_to (hashString (raw_name pre a b)) 6;
          let available = n - go_len pre - (if pre \<noteq> [] then 3 else 2) - go_len hash;
          truncA \<leftarrow> cut_to (go_div available 2) a;
          truncB \<leftarrow> cut_to (available - go_len truncA) b;
          Some (raw_name pre truncA (truncB @ ''-'' @ hash)) }"
  by (simp add: TruncatedName_def raw_name_def cut_to_def go_len_def Let_def cong: if_cong)

lemma length_raw_name:
  "length (raw_name pre a b) = length pre + length a + length b + (if pre \<noteq> [] then 2 else 1)"
  by (simp add: raw_name_def)

lemma TruncatedName_bounded:
  assumes "TruncatedName n pre a b = Some y"
  shows "int (length y) \<le> n"
proof (cases "int (length (raw_name pre a b)) \<le> n")
  case True
  with assms show ?thesis by (simp add: TruncatedName_short)
next
  case False
  from assms [unfolded TruncatedName_unfold [OF False]] obtain hash av truncA truncB where
      "slice_to (hashString (raw_name pre a b)) 6 = Some hash"
      and av: "av = n - go_len pre - (if pre \<noteq> [] then 3 else 2) - go_len hash"
      and "cut_to (av - go_len truncA) b = Some truncB"
      and y: "y = raw_name pre truncA (truncB @ ''-'' @ hash)"
    by (auto simp: Let_def bind_eq_Some_conv)
  then have "length hash = 6" and "int (length truncB) \<le> av - go_len truncA"
    by (auto dest: hash_slice_length cut_to_le)
  with av show ?thesis by (simp add: y length_raw_name go_len_def split: if_splits)
qed

lemma TruncatedName_None_iff:
  assumes room: "int (length pre) + (if pre \<noteq> [] then 3 else 2) + 6 \<le> n"
  shows "TruncatedName n pre a b = None \<longleftrightarrow>
    n < int (length (raw_name pre a b)) \<and> unat (fnv32a (raw_name pre a b)) < 1048576"
proof (cases "int (length (raw_name pre a b)) \<le> n")
  case True
  then show ?thesis by (simp add: TruncatedName_short)
next
  case False
  show ?thesis
  proof (cases "slice_to (hashString (raw_name pre a b)) 6")
    case None
    then have "TruncatedName n pre a b = None"
      by (simp add: TruncatedName_unfold [OF False])
    moreover from None have "unat (fnv32a (raw_name pre a b)) < 1048576"
      by (rule hash_slice_None_iff [THEN iffD1])
    ultimately show ?thesis using False by simp
  next
    case (Some hash)
    let ?av = "n - go_len pre - (if pre \<noteq> [] then 3 else 2) - go_len hash"
    from Some have "length hash = 6" by (rule hash_slice_length)
    with room have av: "0 \<le> ?av" by (simp add: go_len_def split: if_splits)
    then have half: "0 \<le> go_div ?av 2" "go_div ?av 2 \<le> ?av"
      by (auto simp: go_div_nonneg)
    then obtain truncA where A: "cut_to (go_div ?av 2) a = Some truncA"
      using cut_to_defined by blast
    then have "0 \<le> ?av - go_len truncA"
      using half by (auto simp: go_len_def dest!: cut_to_le)
    then obtain truncB where "cut_to (?av - go_len truncA) b = Some truncB"
      using cut_to_defined by blast
    with Some A False have "TruncatedName n pre a b \<noteq> None"
      by (simp add: TruncatedName_unfold Let_def)
    moreover have "\<not> unat (fnv32a (raw_name pre a b)) < 1048576"
      using Some by (simp flip: hash_slice_None_iff)
    ultimately show ?thesis by simp
  qed
qed

section \<open>Job names\<close>

definition raw_job_name :: "string \<Rightarrow> string \<Rightarrow> string \<Rightarrow> string" where
  "raw_job_name jobType m r = jobType @ ''-'' @ m @ ''-'' @ r"

lemma generateJobName_short:
  "r \<noteq> [] \<Longrightarrow> length (raw_job_name t m r) \<le> 62 \<Longrightarrow> generateJobName t m r = Some (raw_job_name t m r)"
  by (simp add: generateJobName_def raw_job_name_def Let_def go_len_def)

text \<open>The lengths left for the two names; their sum is fixed.\<close>

definition job_split :: "string \<Rightarrow> int \<times> int" where
  "job_split t =
     (let names = 54 - int (length t); m = go_div (names * 3) 5; r = names - m - 1;
          (m, r) = (if m < 8 then (8, names - 9) else (m, r))
      in if r < 6 then (names - 7, 6) else (m, r))"

lemma job_split_sum: "fst (job_split t) + snd (job_split t) = 53 - int (length t)"
  by (simp add: job_split_def Let_def)

lemma generateJobName_long:
  "r \<noteq> [] \<Longrightarrow> \<not> length (raw_job_name t m r) \<le> 62 \<Longrightarrow>
   generateJobName t m r =
     do { m' \<leftarrow> cut_to (fst (job_split t)) m;
          r' \<leftarrow> cut_to (snd (job_split t)) r;
          hash \<leftarrow> slice_to (hashString (m @ ''-'' @ r)) 6;
          Some (t @ ''-'' @ m' @ ''-'' @ r' @ ''-'' @ hash) }"
  by (simp add: generateJobName_def raw_job_name_def job_split_def cut_to_def Let_def go_len_def
      algebra_simps cong: if_cong)

lemma generateJobName_bounded:
  assumes "generateJobName t m r = Some y"
  shows "length y \<le> 63"
proof (cases "r = []")
  case True
  with assms have "int (length y) \<le> 63"
    by (auto simp: generateJobName_def Let_def go_len_def bind_eq_Some_conv slice_to_Some_iff
        split: if_splits)
  then show ?thesis by simp
next
  case False
  note r = this
  show ?thesis
  proof (cases "length (raw_job_name t m r) \<le> 62")
    case True
    with assms r show ?thesis by (simp add: generateJobName_short)
  next
    case False
    from assms [unfolded generateJobName_long [OF r False]] obtain m' r' hash where
        "cut_to (fst (job_split t)) m = Some m'" "cut_to (snd (job_split t)) r = Some r'"
        "slice_to (hashString (m @ ''-'' @ r)) 6 = Some hash"
        and y: "y = t @ ''-'' @ m' @ ''-'' @ r' @ ''-'' @ hash"
      by (auto simp: bind_eq_Some_conv)
    then have "int (length m') \<le> fst (job_split t)" "int (length r') \<le> snd (job_split t)"
        "length hash = 6"
      by (auto dest: cut_to_le hash_slice_length)
    with job_split_sum [of t] show ?thesis by (simp add: y)
  qed
qed

lemma generateJobName_None_iff:
  assumes r: "r \<noteq> []" and room: "length t \<le> 30"
  shows "generateJobName t m r = None \<longleftrightarrow>
    62 < length (raw_job_name t m r) \<and> unat (fnv32a (m @ ''-'' @ r)) < 1048576"
proof (cases "length (raw_job_name t m r) \<le> 62")
  case True
  with r show ?thesis by (simp add: generateJobName_short)
next
  case False
  from room have "0 \<le> fst (job_split t)" "0 \<le> snd (job_split t)"
    by (auto simp: job_split_def Let_def go_div_nonneg)
  then obtain m' r' where "cut_to (fst (job_split t)) m = Some m'" "cut_to (snd (job_split t)) r = Some r'"
    using cut_to_defined by metis
  then have "generateJobName t m r = None \<longleftrightarrow> slice_to (hashString (m @ ''-'' @ r)) 6 = None"
    by (cases "slice_to (hashString (m @ ''-'' @ r)) 6") (simp_all add: generateJobName_long [OF r False])
  with False show ?thesis by (simp only: hash_slice_None_iff not_le simp_thms)
qed

section \<open>The naming contract\<close>

text \<open>
  What the callers rely on. \<open>raw\<close> is the readable name, \<open>keep\<close> the length up to which it
  is used unchanged, \<open>limit\<close> the length no name exceeds, \<open>hashed\<close> the text whose hash is
  appended to a truncated name.
\<close>

locale bounded_namer =
  fixes name :: "'a \<Rightarrow> string option"
    and raw :: "'a \<Rightarrow> string"
    and hashed :: "'a \<Rightarrow> string"
    and keep :: nat
    and limit :: nat
  assumes short: "length (raw x) \<le> keep \<Longrightarrow> name x = Some (raw x)"
    and bounded: "name x = Some y \<Longrightarrow> length y \<le> limit"
    and panics: "name x = None \<longleftrightarrow> keep < length (raw x) \<and> unat (fnv32a (hashed x)) < 1048576"
begin

lemma defined_bounded:
  "length (raw x) \<le> keep \<or> 1048576 \<le> unat (fnv32a (hashed x)) \<Longrightarrow> \<exists>y. name x = Some y \<and> length y \<le> limit"
  using panics [of x] bounded [of x] by (cases "name x") auto

lemma short_collision:
  "raw x = raw y \<Longrightarrow> length (raw x) \<le> keep \<Longrightarrow> name x = name y"
  by (simp add: short)

lemma short_injective:
  "length (raw x) \<le> keep \<Longrightarrow> length (raw y) \<le> keep \<Longrightarrow> name x = name y \<longleftrightarrow> raw x = raw y"
  by (simp add: short)

end

interpretation component_namer: bounded_namer
  "\<lambda>(e, m). ComponentName e m" "\<lambda>(e, m). raw_name '''' e m" "\<lambda>(e, m). raw_name '''' e m" 52 52
proof (unfold_locales, goal_cases)
  case (1 x)
  then show ?case by (cases x) (simp add: ComponentName_def TruncatedName_short)
next
  case (2 x y)
  then show ?case
    using TruncatedName_bounded [of 52 "''''"] by (cases x) (fastforce simp: ComponentName_def)
next
  case (3 x)
  show ?case
    using TruncatedName_None_iff [of "''''" 52] by (cases x) (simp add: ComponentName_def)
qed

interpretation pv_namer: bounded_namer
  "\<lambda>(e, m). llmEnginePVName e m" "\<lambda>(e, m). raw_name ''le'' e m" "\<lambda>(e, m). raw_name ''le'' e m" 63 63
proof (unfold_locales, goal_cases)
  case (1 x)
  then show ?case by (cases x) (simp add: llmEnginePVName_def TruncatedName_short)
next
  case (2 x y)
  then show ?case
    using TruncatedName_bounded [of 63 "''le''"] by (cases x) (fastforce simp: llmEnginePVName_def)
next
  case (3 x)
  show ?case
    using TruncatedName_None_iff [of "''le''" 63] by (cases x) (simp add: llmEnginePVName_def)
qed

text \<open>
  Job names: the threshold is 62 and not 63, because the separator is counted both in
  \<open>combined\<close> and in \<open>available\<close>. A revision name is never empty here.
\<close>

interpretation job_namer: bounded_namer
  "\<lambda>(m, c, r). generateJobName ''download'' m (c # r)"
  "\<lambda>(m, c, r). raw_job_name ''download'' m (c # r)" "\<lambda>(m, c, r). m @ ''-'' @ c # r" 62 63
proof (unfold_locales, goal_cases)
  case (1 x)
  then show ?case by (cases x) (simp add: generateJobName_short)
next
  case (2 x y)
  then show ?case by (cases x) (auto dest: generateJobName_bounded)
next
  case (3 x)
  show ?case by (cases x) (simp add: generateJobName_None_iff)
qed

section \<open>Properties\<close>

text \<open>
  ComponentName is total but for one case: it panics exactly when the readable name
  exceeds 52 bytes and its FNV-1a hash prints with fewer than six hexadecimal digits.
\<close>

lemma ComponentName_panics_iff:
  "ComponentName e m = None \<longleftrightarrow>
     52 < length e + length m + 1 \<and> unat (fnv32a (e @ ''-'' @ m)) < 1048576"
  using component_namer.panics [of "(e, m)"] by (simp add: raw_name_def)

text \<open>
  (C40) Job names fit the 63-byte limit of Kubernetes, and a name of at most 62 bytes is the
  readable one, with nothing cut off.
\<close>

theorem generateJobName_fits:
  assumes "generateJobName jobType m r = Some n"
  shows "length n \<le> 63 \<and> (r \<noteq> [] \<and> length jobType + length m + length r + 2 \<le> 62 \<longrightarrow>
           n = jobType @ ''-'' @ m @ ''-'' @ r)"
  using assms generateJobName_bounded [OF assms] generateJobName_short [of r jobType m]
  by (auto simp: raw_job_name_def)

theorem generateJobName_fits_witness:
  "length ''download-llama-main'' \<le> 63 \<and> generateJobName ''download'' ''llama'' ''main'' = Some ''download-llama-main''"
proof -
  have name: "generateJobName ''download'' ''llama'' ''main'' = Some ''download-llama-main''"
    by (simp add: generateJobName_def go_len_def)
  show ?thesis using generateJobName_fits [OF name] name by simp
qed

text \<open>
  The names of the read-only volumes made for an engine fit 63 bytes, and volume and claim
  get the same name. Its two arguments are the engine's name and the model's: the namespace of
  the engine is not one of them, though a PersistentVolume is cluster-scoped.
\<close>

lemma llmEnginePVName_fits:
  assumes "llmEnginePVName e m = Some n"
  shows "length n \<le> 63 \<and> llmEnginePVCName e m = Some n"
  using assms pv_namer.bounded [of "(e, m)" n] by (simp add: llmEnginePVName_def llmEnginePVCName_def)

lemma llmEnginePVName_fits_witness:
  "length ''le-chat-llama'' \<le> 63 \<and> llmEnginePVCName ''chat'' ''llama'' = Some ''le-chat-llama''"
proof -
  have name: "llmEnginePVName ''chat'' ''llama'' = Some ''le-chat-llama''"
    by (simp add: llmEnginePVName_def TruncatedName_def go_len_def)
  show ?thesis using llmEnginePVName_fits [OF name] by simp
qed

text \<open>
  The readable job name does not determine the repository: moving a dash-separated part
  from the repository's name to the revision's gives the same job.
\<close>

lemma generateJobName_collides:
  assumes "r \<noteq> []" and "length jobType + length m + length x + length r + 3 \<le> 62"
  shows "generateJobName jobType (m @ ''-'' @ x) r = generateJobName jobType m (x @ ''-'' @ r)"
  using assms by (simp add: generateJobName_short raw_job_name_def)

lemma generateJobName_collides_witness:
  "generateJobName ''download'' ''llama-v1'' ''main'' = generateJobName ''download'' ''llama'' ''v1-main''"
  using generateJobName_collides [of "''main''" "''download''" "''llama''" "''v1''"] by simp

text \<open>
  The panic is reachable: an ordinary repository and revision name whose hash starts with
  zeros make generateJobName slice out of range.
\<close>

lemma generateJobName_can_panic:
  "generateJobName ''download'' ''meta-llama-3-1-8b-instruct-quantized'' ''release-candidate-1506'' = None"
proof -
  have "fnv32a (''meta-llama-3-1-8b-instruct-quantized'' @ ''-'' @ ''release-candidate-1506'') = 293007"
    by code_simp
  then show ?thesis by (subst generateJobName_None_iff) (simp_all add: raw_job_name_def)
qed

end
