(* ===== verification/Kube_Types.thy ===== *)
theory Kube_Types
  imports Prelude
begin

text \<open>
  The shapes of the Kubernetes objects that the operator reads and writes: of every API type
  the fields that its code touches. They are data of \<^verbatim>\<open>k8s.io/api\<close>, not code of the
  operator. A quantity (\<^verbatim>\<open>resource.Quantity\<close>) is its canonical text; parsing and comparing
  quantities is left to the library, a parameter of the model. The fields that the API server
  alone maintains (UIDs, transition times) are left out.
\<close>

type_synonym quantity = string

record ObjectMeta =
  om_Name :: string
  om_Namespace :: string
  om_Labels :: smap
  om_Annotations :: smap
  om_Finalizers :: "string list"
  om_DeletionTimestamp :: "nat option"
  om_OwnerReferences :: "string list"
  om_ResourceVersion :: nat

definition emptyMeta :: ObjectMeta where
  "emptyMeta = \<lparr>om_Name = [], om_Namespace = [], om_Labels = [], om_Annotations = [],
     om_Finalizers = [], om_DeletionTimestamp = None, om_OwnerReferences = [], om_ResourceVersion = 0\<rparr>"

record Condition =
  c_Type :: string
  c_Status :: string
  c_Reason :: string
  c_Message :: string

abbreviation ConditionTrue :: string where "ConditionTrue \<equiv> ''True''"

abbreviation ConditionFalse :: string where "ConditionFalse \<equiv> ''False''"

abbreviation ReadWriteMany :: string where "ReadWriteMany \<equiv> ''ReadWriteMany''"

abbreviation ReadWriteOnce :: string where "ReadWriteOnce \<equiv> ''ReadWriteOnce''"

abbreviation ReadOnlyMany :: string where "ReadOnlyMany \<equiv> ''ReadOnlyMany''"

abbreviation ClaimBound :: string where "ClaimBound \<equiv> ''Bound''"

abbreviation ClaimPending :: string where "ClaimPending \<equiv> ''Pending''"

record NodeSelectorRequirement =
  nsr_Key :: string
  nsr_Operator :: string
  nsr_Values :: "string list"

type_synonym NodeSelectorTerm = "NodeSelectorRequirement list"

text \<open>A node selector is the list of its terms.\<close>

type_synonym NodeSelector = "NodeSelectorTerm list"

record StorageClass =
  sc_Meta :: ObjectMeta
  sc_Provisioner :: string

record PersistentVolumeClaim =
  pvc_Meta :: ObjectMeta
  pvc_AccessModes :: "string list"
  pvc_StorageClassName :: "string option"
  pvc_VolumeName :: string
  pvc_StorageRequest :: quantity
  pvc_Phase :: string
  pvc_Capacity :: "quantity option"

record NFSVolumeSource =
  nfs_Server :: string
  nfs_Path :: string
  nfs_ReadOnly :: bool

record CSIVolumeSource =
  csi_Driver :: string
  csi_VolumeHandle :: string
  csi_ReadOnly :: bool
  csi_VolumeAttributes :: smap

record CephFSVolumeSource =
  ceph_Monitors :: "string list"
  ceph_Path :: string
  ceph_ReadOnly :: bool

record HostPathVolumeSource =
  hp_Path :: string
  hp_Type :: "string option"

text \<open>The sources a volume may have; at most one is set in a valid volume, the code tests them in order.\<close>

record PersistentVolumeSource =
  pvs_NFS :: "NFSVolumeSource option"
  pvs_CSI :: "CSIVolumeSource option"
  pvs_AWSElasticBlockStore :: "(string \<times> string) option"
  pvs_GCEPersistentDisk :: "(string \<times> string) option"
  pvs_AzureDisk :: "(string \<times> string) option"
  pvs_CephFS :: "CephFSVolumeSource option"
  pvs_Glusterfs :: "(string \<times> string) option"
  pvs_HostPath :: "HostPathVolumeSource option"

definition noVolumeSource :: PersistentVolumeSource where
  "noVolumeSource = \<lparr>pvs_NFS = None, pvs_CSI = None, pvs_AWSElasticBlockStore = None,
     pvs_GCEPersistentDisk = None, pvs_AzureDisk = None, pvs_CephFS = None, pvs_Glusterfs = None,
     pvs_HostPath = None\<rparr>"

record PersistentVolumeSpec =
  pv_Capacity :: quantity
  pv_AccessModes :: "string list"
  pv_VolumeMode :: "string option"
  pv_Source :: PersistentVolumeSource
  pv_ClaimRef :: "(string \<times> string) option"
  pv_ReclaimPolicy :: string
  pv_NodeAffinity :: "NodeSelector option option"

record PersistentVolume =
  pv_Meta :: ObjectMeta
  pv_Spec :: PersistentVolumeSpec

datatype EnvVarSource = SecretKeyRef string string | OtherEnvSource string

record EnvVar =
  ev_Name :: string
  ev_Value :: string
  ev_ValueFrom :: "EnvVarSource option"

definition env_var :: "string \<Rightarrow> string \<Rightarrow> EnvVar" where
  "env_var n v = \<lparr>ev_Name = n, ev_Value = v, ev_ValueFrom = None\<rparr>"

record VolumeMount =
  vm_Name :: string
  vm_MountPath :: string
  vm_ReadOnly :: bool

datatype VolumeSource =
    PVCSource (vs_ClaimName: string) (vs_ReadOnly: bool)
  | ConfigMapSource (vs_ConfigMap: string)
  | OtherVolumeSource string

record Volume =
  v_Name :: string
  v_Source :: VolumeSource

record ResourceRequirements =
  rr_Limits :: "quantity gomap"
  rr_Requests :: "quantity gomap"

record Toleration =
  tol_Key :: string
  tol_Operator :: string
  tol_Effect :: string

record Container =
  ct_Image :: string
  ct_Args :: "string list"
  ct_Env :: "EnvVar list"
  ct_Ports :: "int list"
  ct_VolumeMounts :: "VolumeMount list"
  ct_Resources :: ResourceRequirements

record PodSpec =
  ps_Containers :: "Container list"
  ps_Volumes :: "Volume list"
  ps_NodeSelector :: smap
  ps_Affinity :: "NodeSelector option"
  ps_Tolerations :: "Toleration list"
  ps_HostIPC :: bool

record PodTemplate =
  pt_Labels :: smap
  pt_Spec :: PodSpec

record Job =
  job_Meta :: ObjectMeta
  job_Template :: PodTemplate
  job_Succeeded :: int
  job_Failed :: int

record Deployment =
  dep_Meta :: ObjectMeta
  dep_Replicas :: "int option"
  dep_MatchLabels :: smap
  dep_Template :: PodTemplate
  dep_ReadyReplicas :: int

text \<open>A service port and the pod port it targets; a template targets a port by name.\<close>

datatype TargetPort = PortNumber int | PortName string

record Service =
  svc_Meta :: ObjectMeta
  svc_Selector :: smap
  svc_Ports :: "(int \<times> TargetPort) list"

record ConfigMap =
  cm_Meta :: ObjectMeta
  cm_Data :: smap

record Node =
  node_Meta :: ObjectMeta
  node_Allocatable :: "quantity gomap"

end
