(* ===== verification/Api_Types.thy ===== *)
theory Api_Types
  imports Kube_Types
begin

text \<open>
  The custom resources of \<^verbatim>\<open>api/v1\<close>: \<open>ModelRepository\<close> (cluster-scoped) and \<open>LLMEngine\<close>
  (namespaced), field by field. String-valued enumerations stay strings, because the code
  switches over them with a default branch. Go's 32- and 64-bit integers are \<open>int\<close>: the code
  compares and copies them and does no arithmetic on them that could overflow.
\<close>

section \<open>ModelRepository\<close>

record ModelStorage =
  ms_Size :: string
  ms_MountPath :: string
  ms_StorageClass :: string

abbreviation ModelOriginHuggingFace :: string where "ModelOriginHuggingFace \<equiv> ''huggingface''"

abbreviation ModelOriginOllama :: string where "ModelOriginOllama \<equiv> ''ollama''"

record RevisionReference =
  rref_Name :: string
  rref_Ref :: string

record ModelSource =
  src_Origin :: string
  src_ModelId :: string
  src_Revision :: string
  src_Revisions :: "RevisionReference list"
  src_HFTokenSecret :: string
  src_HFTokenSecretKey :: string

record ModelRepositorySpec =
  mrs_ModelName :: string
  mrs_Source :: ModelSource
  mrs_Storage :: ModelStorage
  mrs_AutoDownload :: bool
  mrs_DownloadImage :: string
  mrs_DownloadScripts :: string
  mrs_DeleteScripts :: string
  mrs_NodeSelector :: smap

abbreviation DownloadPhasePending :: string where "DownloadPhasePending \<equiv> ''Pending''"

abbreviation DownloadPhaseDownloading :: string where "DownloadPhaseDownloading \<equiv> ''Downloading''"

abbreviation DownloadPhaseReady :: string where "DownloadPhaseReady \<equiv> ''Ready''"

abbreviation DownloadPhaseFailed :: string where "DownloadPhaseFailed \<equiv> ''Failed''"

record RevisionStatus =
  rs_Name :: string
  rs_CommitHash :: string
  rs_Status :: string

abbreviation ModelRepoConditionReady :: string where "ModelRepoConditionReady \<equiv> ''Ready''"

abbreviation ModelRepoConditionStorageReady :: string where "ModelRepoConditionStorageReady \<equiv> ''StorageReady''"

abbreviation ModelRepoReasonStorageProviderFailed :: string where
  "ModelRepoReasonStorageProviderFailed \<equiv> ''StorageProviderFailed''"

abbreviation ModelRepoReasonValidationFailed :: string where
  "ModelRepoReasonValidationFailed \<equiv> ''ValidationFailed''"

abbreviation ModelRepoReasonProvisionFailed :: string where
  "ModelRepoReasonProvisionFailed \<equiv> ''ProvisionFailed''"

abbreviation ModelRepoReasonStorageProvisioned :: string where
  "ModelRepoReasonStorageProvisioned \<equiv> ''StorageProvisioned''"

abbreviation ModelRepoReasonDownloadFailed :: string where
  "ModelRepoReasonDownloadFailed \<equiv> ''DownloadFailed''"

abbreviation ModelRepoReasonAllRevisionsReady :: string where
  "ModelRepoReasonAllRevisionsReady \<equiv> ''AllRevisionsReady''"

abbreviation ModelRepoReasonDownloading :: string where
  "ModelRepoReasonDownloading \<equiv> ''Downloading''"

abbreviation ModelRepoReasonDeletionBlocked :: string where
  "ModelRepoReasonDeletionBlocked \<equiv> ''DeletionBlocked''"

record BackendReference =
  br_Type :: string
  br_Details :: smap

text \<open>\<open>StorageStatus\<close> of the API; the type of the same name in package storage is \<open>ProviderStatus\<close>.\<close>

record StorageStatus =
  ss_StorageClass :: string
  ss_AccessMode :: string
  ss_VolumeMode :: string
  ss_BackendRef :: "BackendReference option"
  ss_BoundNodeName :: string
  ss_Capacity :: string

record ModelRepositoryStatus =
  mst_Phase :: string
  mst_Conditions :: "Condition list"
  mst_Storage :: "StorageStatus option"
  mst_AvailableRevisions :: "RevisionStatus list"
  mst_ReferencedEngines :: string

record ModelRepository =
  mr_Meta :: ObjectMeta
  mr_Spec :: ModelRepositorySpec
  mr_Status :: ModelRepositoryStatus

abbreviation mr_Name :: "ModelRepository \<Rightarrow> string" where
  "mr_Name mr \<equiv> om_Name (mr_Meta mr)"

section \<open>LLMEngine\<close>

abbreviation LLMEngineTypeOllama :: string where "LLMEngineTypeOllama \<equiv> ''ollama''"

abbreviation LLMEngineTypeVLLM :: string where "LLMEngineTypeVLLM \<equiv> ''vllm''"

abbreviation RevisionUpdatePolicyManual :: string where "RevisionUpdatePolicyManual \<equiv> ''Manual''"

record ModelReference =
  mref_Name :: string
  mref_Revision :: string
  mref_UpdatePolicy :: string

record GPUConfig =
  gpu_Enabled :: bool
  gpu_Count :: int
  gpu_Type :: string
  gpu_NodeSelector :: smap
  gpu_Tolerations :: "Toleration list"

record LLMEngineSpec =
  les_EngineType :: string
  les_ModelRefs :: "ModelReference list"
  les_Image :: string
  les_Args :: "string list"
  les_Env :: "EnvVar list"
  les_Port :: int
  les_ServicePort :: int
  les_Replicas :: "int option"
  les_NodeSelector :: smap
  les_Resources :: "ResourceRequirements option"
  les_GPU :: "GPUConfig option"
  les_HostIPC :: bool

abbreviation LLMEngineConditionReady :: string where "LLMEngineConditionReady \<equiv> ''Ready''"

abbreviation LLMEngineConditionModelsAvailable :: string where
  "LLMEngineConditionModelsAvailable \<equiv> ''ModelsAvailable''"

abbreviation LLMEngineReasonModelRepositoryFetchFailed :: string where
  "LLMEngineReasonModelRepositoryFetchFailed \<equiv> ''ModelRepositoryFetchFailed''"

abbreviation LLMEngineReasonNoModelsFound :: string where
  "LLMEngineReasonNoModelsFound \<equiv> ''NoModelsFound''"

abbreviation LLMEngineReasonWaitingForModels :: string where
  "LLMEngineReasonWaitingForModels \<equiv> ''WaitingForModels''"

abbreviation LLMEngineReasonGPUNotAvailable :: string where
  "LLMEngineReasonGPUNotAvailable \<equiv> ''GPUNotAvailable''"

abbreviation LLMEngineReasonStoragePending :: string where
  "LLMEngineReasonStoragePending \<equiv> ''StoragePending''"

abbreviation LLMEngineReasonReconcileFailed :: string where
  "LLMEngineReasonReconcileFailed \<equiv> ''ReconcileFailed''"

abbreviation LLMEngineReasonModelsReady :: string where
  "LLMEngineReasonModelsReady \<equiv> ''ModelsReady''"

abbreviation LLMEngineReasonDeploymentsReady :: string where
  "LLMEngineReasonDeploymentsReady \<equiv> ''DeploymentsReady''"

abbreviation LLMEngineReasonDeploymentsCreated :: string where
  "LLMEngineReasonDeploymentsCreated \<equiv> ''DeploymentsCreated''"

record LLMEngineStatus =
  lst_Phase :: string
  lst_Conditions :: "Condition list"
  lst_ModelRepositories :: "string list"

record LLMEngine =
  le_Meta :: ObjectMeta
  le_Spec :: LLMEngineSpec
  le_Status :: LLMEngineStatus

abbreviation le_Name :: "LLMEngine \<Rightarrow> string" where
  "le_Name le \<equiv> om_Name (le_Meta le)"

abbreviation le_Namespace :: "LLMEngine \<Rightarrow> string" where
  "le_Namespace le \<equiv> om_Namespace (le_Meta le)"

text \<open>Whether an engine references a repository: the test of both controllers.\<close>

definition references :: "LLMEngine \<Rightarrow> string \<Rightarrow> bool" where
  "references le repo = (\<exists>ref \<in> set (les_ModelRefs (le_Spec le)). mref_Name ref = repo)"

lemma references_code [code]:
  "references le repo = list_ex (\<lambda>ref. mref_Name ref = repo) (les_ModelRefs (le_Spec le))"
  by (simp add: references_def list_ex_iff)

section \<open>Decoding a model reference\<close>

text \<open>
  \<^verbatim>\<open>encoding/json\<close> values, as the decoder hands one of them to \<^verbatim>\<open>UnmarshalJSON\<close>; numbers stay
  text. Object keys match a field exactly or by case folding (here of ASCII letters), a later
  key wins, \<^verbatim>\<open>null\<close> leaves the field as it is, unknown keys are ignored.
\<close>

datatype json = JNull | JBool bool | JNum string | JStr string | JArr "json list" | JObj "(string \<times> json) list"

text \<open>\<^verbatim>\<open>json.Unmarshal(data, &name)\<close> into an empty string variable.\<close>

fun unmarshal_string :: "json \<Rightarrow> string option" where
  "unmarshal_string (JStr s) = Some s"
| "unmarshal_string JNull = Some []"
| "unmarshal_string _ = None"

definition set_ref_field :: "ModelReference \<Rightarrow> string \<times> json \<Rightarrow> ModelReference option" where
  "set_ref_field m kv = (case kv of (k, v) \<Rightarrow>
     (let f = ToLower k in
      if f \<noteq> ''name'' \<and> f \<noteq> ''revision'' \<and> f \<noteq> ''updatepolicy'' then Some m
      else case v of
        JNull \<Rightarrow> Some m
      | JStr s \<Rightarrow> Some (if f = ''name'' then m\<lparr>mref_Name := s\<rparr>
                   else if f = ''revision'' then m\<lparr>mref_Revision := s\<rparr>
                   else m\<lparr>mref_UpdatePolicy := s\<rparr>)
      | _ \<Rightarrow> None))"

fun set_ref_fields :: "ModelReference \<Rightarrow> (string \<times> json) list \<Rightarrow> ModelReference option" where
  "set_ref_fields m [] = Some m"
| "set_ref_fields m (kv # kvs) = Option.bind (set_ref_field m kv) (\<lambda>m'. set_ref_fields m' kvs)"

definition emptyRef :: ModelReference where
  "emptyRef = \<lparr>mref_Name = [], mref_Revision = [], mref_UpdatePolicy = []\<rparr>"

text \<open>
  \<open>ModelReference.UnmarshalJSON\<close>: \<open>m\<close> is the value decoded into, \<open>None\<close> the error.
\<close>

definition UnmarshalJSON :: "ModelReference \<Rightarrow> json \<Rightarrow> ModelReference option" where
  "UnmarshalJSON m data = (case unmarshal_string data of
     Some name \<Rightarrow> Some (m\<lparr>mref_Name := name, mref_UpdatePolicy := RevisionUpdatePolicyManual\<rparr>)
   | None \<Rightarrow> (case data of JObj kvs \<Rightarrow> set_ref_fields emptyRef kvs | _ \<Rightarrow> None))"

text \<open>
  Both documented forms of a model reference decode to the same name: a bare string gets the
  manual update policy, an object keeps what its fields say; a number, a boolean or an array
  is an error.
\<close>

lemma UnmarshalJSON_forms:
  "UnmarshalJSON m (JStr n) = Some (m\<lparr>mref_Name := n, mref_UpdatePolicy := ''Manual''\<rparr>) \<and>
   UnmarshalJSON m (JObj [(''name'', JStr n), (''revision'', JStr r)]) =
     Some \<lparr>mref_Name = n, mref_Revision = r, mref_UpdatePolicy = []\<rparr> \<and>
   UnmarshalJSON m (JNum x) = None \<and> UnmarshalJSON m (JBool b) = None \<and> UnmarshalJSON m (JArr js) = None"
proof -
  have low: "ToLower ''name'' = ''name''" "ToLower ''revision'' = ''revision''" by code_simp+
  show ?thesis by (simp add: UnmarshalJSON_def set_ref_field_def emptyRef_def low)
qed

end
