(* ===== verification/Client.thy ===== *)
theory Client
  imports Effects Api_Types
begin

text \<open>
  The code around the operator, all of it parameters: the controller-runtime client (and behind
  it the API server with everybody else who writes to the cluster), the helpers of apimachinery,
  controllerutil and client-go. A client has one group of operations per kind of object; each
  may fail with any error, answer anything and change the cluster in any way. The log of a run
  records every call with its answer.

  What some theorems rely on of that code is stated as a predicate with a name, after its
  documentation.
\<close>

section \<open>The client\<close>

text \<open>Namespace and name; the namespace is empty for cluster-scoped kinds.\<close>

type_synonym okey = "string \<times> string"

text \<open>
  The operations of \<^verbatim>\<open>client.Client\<close> on one kind. \<open>Update\<close> and the status update answer with the
  object as the server stored it, which Go writes back through the pointer. \<open>List\<close> takes the
  namespace, if any, and the labels to match; \<open>Delete\<close> whether propagation is in the background.
\<close>

record ('w, 'o) rclient =
  rc_Get :: "okey \<Rightarrow> ('w, go_error + 'o) state"
  rc_List :: "string option \<Rightarrow> smap \<Rightarrow> ('w, go_error + 'o list) state"
  rc_Create :: "'o \<Rightarrow> ('w, go_error option) state"
  rc_Update :: "'o \<Rightarrow> ('w, go_error + 'o) state"
  rc_StatusUpdate :: "'o \<Rightarrow> ('w, go_error + 'o) state"
  rc_Delete :: "okey \<Rightarrow> bool \<Rightarrow> ('w, go_error option) state"
  rc_Apply :: "'o \<Rightarrow> ('w, go_error option) state"

datatype 'o call =
    Get okey "go_error + 'o"
  | ListOf "string option" smap "go_error + 'o list"
  | Create 'o "go_error option"
  | Update 'o "go_error + 'o"
  | StatusUpdate 'o "go_error + 'o"
  | Delete okey bool "go_error option"
  | Apply 'o "go_error option"

datatype event =
    OnRepo "ModelRepository call"
  | OnEngine "LLMEngine call"
  | OnPVC "PersistentVolumeClaim call"
  | OnPV "PersistentVolume call"
  | OnJob "Job call"
  | OnDeployment "Deployment call"
  | OnService "Service call"
  | OnConfigMap "ConfigMap call"
  | OnStorageClass "StorageClass call"
  | OnNode "Node call"

record 'w client =
  cl_Repo :: "('w, ModelRepository) rclient"
  cl_Engine :: "('w, LLMEngine) rclient"
  cl_PVC :: "('w, PersistentVolumeClaim) rclient"
  cl_PV :: "('w, PersistentVolume) rclient"
  cl_Job :: "('w, Job) rclient"
  cl_Deployment :: "('w, Deployment) rclient"
  cl_Service :: "('w, Service) rclient"
  cl_ConfigMap :: "('w, ConfigMap) rclient"
  cl_StorageClass :: "('w, StorageClass) rclient"
  cl_Node :: "('w, Node) rclient"

type_synonym ('w, 'a) kio = "('w, event, 'a) io"

definition api_Get :: "('o call \<Rightarrow> event) \<Rightarrow> ('w, 'o) rclient \<Rightarrow> okey \<Rightarrow> ('w, go_error + 'o) kio" where
  "api_Get on rc k = perform (\<lambda>x. on (Get k x)) (rc_Get rc k)"

definition api_List :: "('o call \<Rightarrow> event) \<Rightarrow> ('w, 'o) rclient \<Rightarrow> string option \<Rightarrow> smap \<Rightarrow> ('w, go_error + 'o list) kio" where
  "api_List on rc ns ls = perform (\<lambda>x. on (ListOf ns ls x)) (rc_List rc ns ls)"

definition api_Create :: "('o call \<Rightarrow> event) \<Rightarrow> ('w, 'o) rclient \<Rightarrow> 'o \<Rightarrow> ('w, go_error option) kio" where
  "api_Create on rc x = perform (\<lambda>e. on (Create x e)) (rc_Create rc x)"

definition api_Update :: "('o call \<Rightarrow> event) \<Rightarrow> ('w, 'o) rclient \<Rightarrow> 'o \<Rightarrow> ('w, go_error + 'o) kio" where
  "api_Update on rc x = perform (\<lambda>e. on (Update x e)) (rc_Update rc x)"

definition api_StatusUpdate :: "('o call \<Rightarrow> event) \<Rightarrow> ('w, 'o) rclient \<Rightarrow> 'o \<Rightarrow> ('w, go_error + 'o) kio" where
  "api_StatusUpdate on rc x = perform (\<lambda>e. on (StatusUpdate x e)) (rc_StatusUpdate rc x)"

definition api_Delete :: "('o call \<Rightarrow> event) \<Rightarrow> ('w, 'o) rclient \<Rightarrow> okey \<Rightarrow> bool \<Rightarrow> ('w, go_error option) kio" where
  "api_Delete on rc k bg = perform (\<lambda>e. on (Delete k bg e)) (rc_Delete rc k bg)"

definition api_Apply :: "('o call \<Rightarrow> event) \<Rightarrow> ('w, 'o) rclient \<Rightarrow> 'o \<Rightarrow> ('w, go_error option) kio" where
  "api_Apply on rc x = perform (\<lambda>e. on (Apply x e)) (rc_Apply rc x)"

lemmas api_defs = api_Get_def api_List_def api_Create_def api_Update_def api_StatusUpdate_def
  api_Delete_def api_Apply_def

section \<open>The libraries\<close>

text \<open>
  The pure helpers: conditions (\<^verbatim>\<open>meta.SetStatusCondition\<close>, \<^verbatim>\<open>meta.FindStatusCondition\<close>),
  finalizers and owner references (\<^verbatim>\<open>controllerutil\<close>), quantities (\<^verbatim>\<open>resource\<close>), semantic
  equality of statuses (\<^verbatim>\<open>equality.Semantic.DeepEqual\<close>).
\<close>

record k8s_lib =
  lib_SetStatusCondition :: "Condition list \<Rightarrow> Condition \<Rightarrow> Condition list"
  lib_FindStatusCondition :: "Condition list \<Rightarrow> string \<Rightarrow> Condition option"
  lib_ContainsFinalizer :: "string list \<Rightarrow> string \<Rightarrow> bool"
  lib_AddFinalizer :: "string list \<Rightarrow> string \<Rightarrow> string list"
  lib_RemoveFinalizer :: "string list \<Rightarrow> string \<Rightarrow> string list"
  lib_SetControllerReference :: "ObjectMeta \<Rightarrow> ObjectMeta \<Rightarrow> go_error + ObjectMeta"
  lib_ParseQuantity :: "string \<Rightarrow> go_error + quantity"
  lib_NewQuantity :: "int \<Rightarrow> quantity"
  lib_IsZero :: "quantity \<Rightarrow> bool"
  lib_Value :: "quantity \<Rightarrow> int"
  lib_RepoStatusEqual :: "ModelRepositoryStatus \<Rightarrow> ModelRepositoryStatus \<Rightarrow> bool"
  lib_EngineStatusEqual :: "LLMEngineStatus \<Rightarrow> LLMEngineStatus \<Rightarrow> bool"

text \<open>\<^verbatim>\<open>resource.MustParse\<close> panics where parsing fails.\<close>

definition MustParse :: "k8s_lib \<Rightarrow> string \<Rightarrow> quantity option" where
  "MustParse L s = (case lib_ParseQuantity L s of Inl _ \<Rightarrow> None | Inr q \<Rightarrow> Some q)"

text \<open>
  Documented: setting a condition updates the one of its type or appends it; finding one
  returns the condition of that type.
\<close>

definition sets_conditions :: "k8s_lib \<Rightarrow> bool" where
  "sets_conditions L = (\<forall>cs c t. lib_FindStatusCondition L (lib_SetStatusCondition L cs c) t =
     (if t = c_Type c then Some c else lib_FindStatusCondition L cs t))"

text \<open>Documented: the finalizer helpers treat the list as a set.\<close>

definition manages_finalizers :: "k8s_lib \<Rightarrow> bool" where
  "manages_finalizers L = (\<forall>fs f.
     lib_ContainsFinalizer L fs f = (f \<in> set fs) \<and>
     set (lib_AddFinalizer L fs f) = insert f (set fs) \<and>
     set (lib_RemoveFinalizer L fs f) = set fs - {f})"

text \<open>
  Documented: semantic equality holds of equal values (the model has no nil slices). Equality of
  values in the model is also equality of the lists that represent maps; a status differs from
  another in the order of a map only if it was written so.
\<close>

definition compares_statuses :: "k8s_lib \<Rightarrow> bool" where
  "compares_statuses L = (\<forall>a b c d. lib_RepoStatusEqual L a b = (a = b) \<and> lib_EngineStatusEqual L c d = (c = d))"

text \<open>
  Documented of \<^verbatim>\<open>controllerutil.SetControllerReference\<close>: on success only the owner references of
  the object change.
\<close>

definition sets_owner :: "k8s_lib \<Rightarrow> bool" where
  "sets_owner L = (\<forall>owner m m'. lib_SetControllerReference L owner m = Inr m' \<longrightarrow>
     m' = m\<lparr>om_OwnerReferences := om_OwnerReferences m'\<rparr>)"

lemma sets_conditionsD:
  "sets_conditions L \<Longrightarrow> lib_FindStatusCondition L (lib_SetStatusCondition L cs c) t =
     (if t = c_Type c then Some c else lib_FindStatusCondition L cs t)"
  by (simp add: sets_conditions_def)

section \<open>The reconcilers' environment\<close>

record 'w reconciler =
  r_Client :: "'w client"
  r_Lib :: k8s_lib
  r_RetryOnConflict :: "('w, go_error option) kio \<Rightarrow> ('w, go_error option) kio"
  r_OperatorNamespace :: string

record ctrl_result =
  Requeue :: bool
  RequeueAfter :: nat

text \<open>\<^verbatim>\<open>ctrl.Result{}\<close>, and a result that asks to run again after some seconds.\<close>

definition done_result :: ctrl_result where
  "done_result = \<lparr>Requeue = False, RequeueAfter = 0\<rparr>"

definition after_seconds :: "nat \<Rightarrow> ctrl_result" where
  "after_seconds n = \<lparr>Requeue = False, RequeueAfter = n\<rparr>"

text \<open>A Go result pair with its error; \<open>None\<close> is a panic.\<close>

type_synonym reconcile_out = "(ctrl_result \<times> go_error option) option"

definition ObjectKeyFromObject :: "ObjectMeta \<Rightarrow> okey" where
  "ObjectKeyFromObject m = (om_Namespace m, om_Name m)"

text \<open>Where the operator creates its claims and jobs.\<close>

definition operator_namespace :: "'w reconciler \<Rightarrow> string" where
  "operator_namespace r = (if r_OperatorNamespace r = [] then ''default'' else r_OperatorNamespace r)"

section \<open>Calls and the log\<close>

lemma all_events_api [event_intros]:
  "(\<And>x. P (on (Get k x))) \<Longrightarrow> all_events P (api_Get on rc k)"
  "(\<And>x. P (on (ListOf ns ls x))) \<Longrightarrow> all_events P (api_List on rc ns ls)"
  "(\<And>e. P (on (Create obj e))) \<Longrightarrow> all_events P (api_Create on rc obj)"
  "(\<And>x. P (on (Update obj x))) \<Longrightarrow> all_events P (api_Update on rc obj)"
  "(\<And>x. P (on (StatusUpdate obj x))) \<Longrightarrow> all_events P (api_StatusUpdate on rc obj)"
  "(\<And>e. P (on (Delete k bg e))) \<Longrightarrow> all_events P (api_Delete on rc k bg)"
  "(\<And>e. P (on (Apply obj e))) \<Longrightarrow> all_events P (api_Apply on rc obj)"
  by (simp_all add: api_defs all_events_perform)

lemma spec_bind_api [spec_intros]:
  "(\<And>x. spec (f1 x) (\<lambda>y evs. R y (on (Get k x) # evs))) \<Longrightarrow> spec (State_Monad.bind (api_Get on rc k) f1) R"
  "(\<And>x. spec (f2 x) (\<lambda>y evs. R y (on (ListOf ns ls x) # evs))) \<Longrightarrow> spec (State_Monad.bind (api_List on rc ns ls) f2) R"
  "(\<And>e. spec (f3 e) (\<lambda>y evs. R y (on (Create obj e) # evs))) \<Longrightarrow> spec (State_Monad.bind (api_Create on rc obj) f3) R"
  "(\<And>x. spec (f4 x) (\<lambda>y evs. R y (on (Update obj x) # evs))) \<Longrightarrow> spec (State_Monad.bind (api_Update on rc obj) f4) R"
  "(\<And>x. spec (f5 x) (\<lambda>y evs. R y (on (StatusUpdate obj x) # evs))) \<Longrightarrow> spec (State_Monad.bind (api_StatusUpdate on rc obj) f5) R"
  "(\<And>e. spec (f6 e) (\<lambda>y evs. R y (on (Delete k bg e) # evs))) \<Longrightarrow> spec (State_Monad.bind (api_Delete on rc k bg) f6) R"
  "(\<And>e. spec (f7 e) (\<lambda>y evs. R y (on (Apply obj e) # evs))) \<Longrightarrow> spec (State_Monad.bind (api_Apply on rc obj) f7) R"
  by (simp_all add: api_defs spec_bind_perform)

lemma guarded_api [guarded_intros]:
  "(\<And>x. Q (on (Get k x))) \<Longrightarrow> guarded P Q (api_Get on rc k)"
  "(\<And>x. Q (on (ListOf ns ls x))) \<Longrightarrow> guarded P Q (api_List on rc ns ls)"
  "(\<And>e. Q (on (Create obj e))) \<Longrightarrow> guarded P Q (api_Create on rc obj)"
  "(\<And>x. Q (on (Update obj x))) \<Longrightarrow> guarded P Q (api_Update on rc obj)"
  "(\<And>e. Q (on (Delete k bg e))) \<Longrightarrow> guarded P Q (api_Delete on rc k bg)"
  "(\<And>e. Q (on (Apply obj e))) \<Longrightarrow> guarded P Q (api_Apply on rc obj)"
  by (simp_all add: guarded_all_events all_events_api)

end
