(* ===== verification/Discovery.thy ===== *)
theory Discovery
  imports Client
begin

text \<open>
  \<^verbatim>\<open>internal/controller/storage/discovery.go\<close>: listing the StorageClasses of the cluster,
  deriving backend type and access mode from the provisioner, and choosing one. The abstract
  specification is a rank (shared storage, then the default class, then node-bound storage):
  the automatic choice is the first class of least rank.
\<close>

section \<open>Model\<close>

record StorageClassInfo =
  sci_Name :: string
  sci_Provisioner :: string
  sci_Type :: string
  sci_AccessMode :: string
  sci_IsDefault :: bool

abbreviation BackendTypeNFS :: string where "BackendTypeNFS \<equiv> ''nfs''"

abbreviation BackendTypeCephFS :: string where "BackendTypeCephFS \<equiv> ''cephfs''"

abbreviation BackendTypeLonghorn :: string where "BackendTypeLonghorn \<equiv> ''longhorn''"

abbreviation BackendTypeCSI :: string where "BackendTypeCSI \<equiv> ''csi''"

abbreviation BackendTypeHostPath :: string where "BackendTypeHostPath \<equiv> ''hostpath''"

definition categorizeStorageClass :: "StorageClass \<Rightarrow> StorageClassInfo" where
  "categorizeStorageClass sc =
     (let isDefault = (smap_get (om_Annotations (sc_Meta sc)) ''storageclass.kubernetes.io/is-default-class'' = ''true'');
          info = (\<lambda>type mode. \<lparr>sci_Name = om_Name (sc_Meta sc), sci_Provisioner = sc_Provisioner sc,
                    sci_Type = type, sci_AccessMode = mode, sci_IsDefault = isDefault\<rparr>);
          provisioner = ToLower (sc_Provisioner sc)
      in if Contains provisioner ''nfs'' then info BackendTypeNFS ReadWriteMany
      else if Contains provisioner ''cephfs'' \<or> Contains provisioner ''ceph.rbd.csi'' then info BackendTypeCephFS ReadWriteMany
      else if Contains provisioner ''glusterfs'' \<or> Contains provisioner ''gluster'' then info ''glusterfs'' ReadWriteMany
      else if provisioner = ''driver.longhorn.io'' then info BackendTypeLonghorn ReadWriteMany
      else if Contains provisioner ''hostpath'' \<or> Contains provisioner ''local'' then info ''local'' ReadWriteOnce
      else if Contains provisioner ''ebs'' \<or> Contains provisioner ''gce-pd'' \<or>
              Contains provisioner ''azure-disk'' \<or> Contains provisioner ''cinder'' then info ''block'' ReadWriteOnce
      else info ''unknown'' ReadWriteOnce)"

definition DiscoverStorageClasses :: "'w reconciler \<Rightarrow> ('w, go_error + StorageClassInfo list) kio" where
  "DiscoverStorageClasses r = do {
     scList \<leftarrow> api_List OnStorageClass (cl_StorageClass (r_Client r)) None [];
     case scList of
       Inl err \<Rightarrow> ret (Inl (wrap_error ''failed to list storage classes: '' err))
     | Inr items \<Rightarrow> ret (Inr (map categorizeStorageClass items)) }"

definition selectAuto :: "StorageClassInfo list \<Rightarrow> go_error + StorageClassInfo" where
  "selectAuto available =
     (case find (\<lambda>i. sci_AccessMode i = ReadWriteMany) available of
        Some i \<Rightarrow> Inr i
      | None \<Rightarrow> (case find sci_IsDefault available of
          Some i \<Rightarrow> Inr i
        | None \<Rightarrow> (case find (\<lambda>i. sci_AccessMode i = ReadWriteOnce) available of
            Some i \<Rightarrow> Inr i
          | None \<Rightarrow> Inl (new_error (''no suitable StorageClass found among '' @ show_nat (length available) @ '' available'')))))"

definition selectByName :: "StorageClassInfo list \<Rightarrow> string \<Rightarrow> StorageClassInfo option" where
  "selectByName available name = find (\<lambda>i. sci_Name i = name) available"

definition SelectBestStorageClass :: "'w reconciler \<Rightarrow> string \<Rightarrow> ('w, go_error + StorageClassInfo) kio" where
  "SelectBestStorageClass r preference = do {
     d \<leftarrow> DiscoverStorageClasses r;
     case d of
       Inl err \<Rightarrow> ret (Inl err)
     | Inr available \<Rightarrow>
         if available = [] then
           ret (Inl (new_error ''no StorageClass found in the cluster; at least one StorageClass is required''))
         else if preference = ''auto'' \<or> preference = [] then ret (selectAuto available)
         else case selectByName available preference of
           Some sc \<Rightarrow> ret (Inr sc)
         | None \<Rightarrow> ret (Inl (new_error (''storage class \"'' @ preference @ ''\" not found''))) }"

section \<open>Categories\<close>

lemma categorize_AccessMode:
  "sci_AccessMode (categorizeStorageClass sc) = ReadWriteMany \<or>
   sci_AccessMode (categorizeStorageClass sc) = ReadWriteOnce"
  by (simp add: categorizeStorageClass_def Let_def)

lemma categorize_Name [simp]: "sci_Name (categorizeStorageClass sc) = om_Name (sc_Meta sc)"
  by (simp add: categorizeStorageClass_def Let_def)

section \<open>Specification of the choice\<close>

definition sc_rank :: "StorageClassInfo \<Rightarrow> nat" where
  "sc_rank i = (if sci_AccessMode i = ReadWriteMany then 0 else if sci_IsDefault i then 1
     else if sci_AccessMode i = ReadWriteOnce then 2 else 3)"

text \<open>The first element of least rank.\<close>

definition first_least :: "('a \<Rightarrow> nat) \<Rightarrow> 'a list \<Rightarrow> 'a \<Rightarrow> bool" where
  "first_least rank xs x = (\<exists>ys zs. xs = ys @ x # zs \<and> list_all (\<lambda>y. rank x < rank y) ys \<and>
     list_all (\<lambda>z. rank x \<le> rank z) zs)"

lemma find_split:
  "find P xs = Some x \<Longrightarrow> \<exists>ys zs. xs = ys @ x # zs \<and> P x \<and> list_all (\<lambda>y. \<not> P y) ys"
proof (induction xs)
  case (Cons a xs)
  then show ?case
  proof (cases "P a")
    case True
    with Cons.prems show ?thesis by (intro exI [of _ "[]"] exI [of _ xs]) simp
  next
    case False
    with Cons.prems Cons.IH obtain ys zs where "xs = ys @ x # zs" "P x" "list_all (\<lambda>y. \<not> P y) ys"
      by auto
    with False show ?thesis by (intro exI [of _ "a # ys"] exI [of _ zs]) simp
  qed
qed simp

lemma find_rank_first_least:
  assumes "find (\<lambda>y. rank y = n) xs = Some x" and "\<forall>y \<in> set xs. n \<le> rank y"
  shows "first_least rank xs x"
proof -
  from find_split [OF assms(1)] obtain ys zs where
    x: "xs = ys @ x # zs" "rank x = n" "list_all (\<lambda>y. rank y \<noteq> n) ys" by blast
  have "list_all (\<lambda>y. rank x < rank y) ys" "list_all (\<lambda>z. rank x \<le> rank z) zs"
    using x assms(2) by (auto simp: list_all_iff le_neq_implies_less)
  with x show ?thesis unfolding first_least_def by blast
qed

lemma find_cong_on: "(\<And>x. x \<in> set xs \<Longrightarrow> P x = Q x) \<Longrightarrow> find P xs = find Q xs"
  by (induction xs) auto

lemma selectAuto_first_least:
  assumes modes: "\<forall>i \<in> set available. sci_AccessMode i \<in> {ReadWriteMany, ReadWriteOnce}"
    and sel: "selectAuto available = Inr sc"
  shows "first_least sc_rank available sc"
proof (cases "find (\<lambda>i. sci_AccessMode i = ReadWriteMany) available")
  case (Some i)
  moreover have "(\<lambda>i. sc_rank i = 0) = (\<lambda>i. sci_AccessMode i = ReadWriteMany)"
    by (auto simp: sc_rank_def)
  ultimately have "find (\<lambda>i. sc_rank i = 0) available = Some i" by simp
  moreover from Some sel have "i = sc" by (simp add: selectAuto_def)
  ultimately show ?thesis by (auto intro: find_rank_first_least)
next
  case None
  then have noshared: "\<forall>i \<in> set available. sci_AccessMode i = ReadWriteOnce"
    using modes by (auto simp: find_None_iff)
  show ?thesis
  proof (cases "find sci_IsDefault available")
    case (Some i)
    have "find (\<lambda>i. sc_rank i = 1) available = find sci_IsDefault available"
      by (rule find_cong_on) (simp add: sc_rank_def noshared)
    moreover from None Some sel have "i = sc" by (simp add: selectAuto_def)
    moreover have "\<forall>i \<in> set available. 1 \<le> sc_rank i" by (simp add: sc_rank_def noshared)
    ultimately show ?thesis using Some by (auto intro: find_rank_first_least)
  next
    case None': None
    have two: "\<forall>i \<in> set available. sc_rank i = 2"
      using None' noshared by (auto simp: sc_rank_def find_None_iff)
    have "find (\<lambda>i. sc_rank i = 2) available = find (\<lambda>i. sci_AccessMode i = ReadWriteOnce) available"
      by (rule find_cong_on) (simp add: two noshared)
    moreover from None None' sel have "find (\<lambda>i. sci_AccessMode i = ReadWriteOnce) available = Some sc"
      by (simp add: selectAuto_def split: option.splits)
    ultimately show ?thesis using two by (auto intro: find_rank_first_least)
  qed
qed

lemma selectAuto_succeeds:
  assumes "available \<noteq> []" and "\<forall>i \<in> set available. sci_AccessMode i \<in> {ReadWriteMany, ReadWriteOnce}"
  shows "\<exists>sc. selectAuto available = Inr sc"
  using assms by (cases available) (auto simp: selectAuto_def split: option.splits)

lemma selectAuto_ok:
  "scs \<noteq> [] \<Longrightarrow> \<exists>sc. selectAuto (map categorizeStorageClass scs) = Inr sc \<and>
     first_least sc_rank (map categorizeStorageClass scs) sc"
  using selectAuto_succeeds [of "map categorizeStorageClass scs"] categorize_AccessMode
    selectAuto_first_least [of "map categorizeStorageClass scs"] by fastforce

section \<open>Properties\<close>

text \<open>
  (C24) Automatic selection refines its specification: whenever the cluster lists at least one
  StorageClass, the choice succeeds and is the first class of least rank (shared before
  default before node-bound); the final error branch of selectAuto is never taken.
\<close>

theorem selectAuto_refines_rank:
  assumes "scs \<noteq> []"
  shows "\<exists>sc. selectAuto (map categorizeStorageClass scs) = Inr sc \<and>
           first_least sc_rank (map categorizeStorageClass scs) sc"
  using assms by (rule selectAuto_ok)

theorem selectAuto_refines_rank_witness:
  "\<exists>sc. selectAuto (map categorizeStorageClass
     [\<lparr>sc_Meta = emptyMeta\<lparr>om_Name := ''gp3''\<rparr>, sc_Provisioner = ''ebs.csi.aws.com''\<rparr>,
      \<lparr>sc_Meta = emptyMeta\<lparr>om_Name := ''longhorn''\<rparr>, sc_Provisioner = ''driver.longhorn.io''\<rparr>]) = Inr sc \<and>
    first_least sc_rank (map categorizeStorageClass
     [\<lparr>sc_Meta = emptyMeta\<lparr>om_Name := ''gp3''\<rparr>, sc_Provisioner = ''ebs.csi.aws.com''\<rparr>,
      \<lparr>sc_Meta = emptyMeta\<lparr>om_Name := ''longhorn''\<rparr>, sc_Provisioner = ''driver.longhorn.io''\<rparr>]) sc"
  by (rule selectAuto_refines_rank) simp

text \<open>What the listing's answer determines of the selection.\<close>

definition selection_ok :: "string \<Rightarrow> go_error + StorageClass list \<Rightarrow> go_error + StorageClassInfo \<Rightarrow> bool" where
  "selection_ok preference ans res = (case ans of
     Inl err \<Rightarrow> res = Inl (wrap_error ''failed to list storage classes: '' err)
   | Inr scs \<Rightarrow>
       if scs = [] then \<exists>msg. res = Inl (new_error msg)
       else if preference = ''auto'' \<or> preference = [] then
         \<exists>sc. res = Inr sc \<and> first_least sc_rank (map categorizeStorageClass scs) sc
       else (case find (\<lambda>sc. om_Name (sc_Meta sc) = preference) scs of
           Some sc \<Rightarrow> res = Inr (categorizeStorageClass sc)
         | None \<Rightarrow> \<exists>msg. res = Inl (new_error msg)))"

lemma selectByName_map:
  "selectByName (map categorizeStorageClass scs) n =
     map_option categorizeStorageClass (find (\<lambda>sc. om_Name (sc_Meta sc) = n) scs)"
  by (induction scs) (auto simp: selectByName_def)

text \<open>
  A run of SelectBestStorageClass makes exactly one call, the listing, and whatever it
  answers the result is determined: an error is passed on, an empty cluster is an error, the
  automatic choice succeeds with the first class of least rank, a class asked for by name is
  the first of that name or an error.
\<close>

lemma SelectBestStorageClass_run:
  "spec (SelectBestStorageClass r preference) (\<lambda>res evs. \<exists>ans.
     evs = [OnStorageClass (ListOf None [] ans)] \<and> selection_ok preference ans res)"
  unfolding SelectBestStorageClass_def DiscoverStorageClasses_def
  by (intro spec_intros)
    (auto simp: selection_ok_def selectByName_map intro!: selectAuto_ok split: option.splits)

end
