(* ===== verification/Sample_Cluster.thy ===== *)
theory Sample_Cluster
  imports Client
begin

text \<open>
  A concrete instance of the parameters, for the witnesses: an in-memory API server that keeps
  the objects of every kind by namespace and name, answers \<open>NotFound\<close> and \<open>AlreadyExists\<close>
  where the real one does, and a library that does what the documentation says. The witnesses
  run the model on it, so they show that the hypotheses of the properties can hold together.
\<close>

record cluster =
  k_Repo :: "(okey \<times> ModelRepository) list"
  k_Engine :: "(okey \<times> LLMEngine) list"
  k_PVC :: "(okey \<times> PersistentVolumeClaim) list"
  k_PV :: "(okey \<times> PersistentVolume) list"
  k_Job :: "(okey \<times> Job) list"
  k_Deployment :: "(okey \<times> Deployment) list"
  k_Service :: "(okey \<times> Service) list"
  k_ConfigMap :: "(okey \<times> ConfigMap) list"
  k_StorageClass :: "(okey \<times> StorageClass) list"
  k_Node :: "(okey \<times> Node) list"

definition empty_cluster :: cluster where
  "empty_cluster = \<lparr>k_Repo = [], k_Engine = [], k_PVC = [], k_PV = [], k_Job = [], k_Deployment = [],
     k_Service = [], k_ConfigMap = [], k_StorageClass = [], k_Node = []\<rparr>"

definition in_selection :: "string option \<Rightarrow> smap \<Rightarrow> ObjectMeta \<Rightarrow> bool" where
  "in_selection ns ls m = ((case ns of None \<Rightarrow> True | Some n \<Rightarrow> om_Namespace m = n) \<and>
     list_all (\<lambda>(k, v). map_of (om_Labels m) k = Some v) ls)"

text \<open>
  One kind of object: where it is kept, its metadata, and what an update or an apply does to the
  stored object (for a kind with a status subresource the status stays as it was).
\<close>

definition mem_rclient ::
  "('w \<Rightarrow> (okey \<times> 'o) list) \<Rightarrow> ((okey \<times> 'o) list \<Rightarrow> 'w \<Rightarrow> 'w) \<Rightarrow> ('o \<Rightarrow> ObjectMeta) \<Rightarrow> ('o \<Rightarrow> 'o \<Rightarrow> 'o) \<Rightarrow>
   ('w, 'o) rclient" where
  "mem_rclient get put meta update =
     \<lparr>rc_Get = (\<lambda>k. State (\<lambda>w. (case map_of (get w) k of
          None \<Rightarrow> Inl (GoError NotFound ''not found'') | Some x \<Rightarrow> Inr x, w))),
      rc_List = (\<lambda>ns ls. State (\<lambda>w. (Inr (filter (in_selection ns ls \<circ> meta) (map snd (get w))), w))),
      rc_Create = (\<lambda>x. State (\<lambda>w. if map_of (get w) (ObjectKeyFromObject (meta x)) = None
          then (None, put (AList.update (ObjectKeyFromObject (meta x)) x (get w)) w)
          else (Some (GoError AlreadyExists ''already exists''), w))),
      rc_Update = (\<lambda>x. State (\<lambda>w. case map_of (get w) (ObjectKeyFromObject (meta x)) of
          None \<Rightarrow> (Inl (GoError NotFound ''not found''), w)
        | Some old \<Rightarrow> (Inr (update old x), put (AList.update (ObjectKeyFromObject (meta x)) (update old x) (get w)) w))),
      rc_StatusUpdate = (\<lambda>x. State (\<lambda>w. if map_of (get w) (ObjectKeyFromObject (meta x)) = None
          then (Inl (GoError NotFound ''not found''), w)
          else (Inr x, put (AList.update (ObjectKeyFromObject (meta x)) x (get w)) w))),
      rc_Delete = (\<lambda>k bg. State (\<lambda>w. if map_of (get w) k = None
          then (Some (GoError NotFound ''not found''), w)
          else (None, put (AList.delete k (get w)) w))),
      rc_Apply = (\<lambda>x. State (\<lambda>w. let x' = (case map_of (get w) (ObjectKeyFromObject (meta x)) of None \<Rightarrow> x | Some old \<Rightarrow> update old x)
          in (None, put (AList.update (ObjectKeyFromObject (meta x)) x' (get w)) w)))\<rparr>"

definition mem_client :: "cluster client" where
  "mem_client =
     \<lparr>cl_Repo = mem_rclient k_Repo (\<lambda>x. k_Repo_update (\<lambda>_. x)) mr_Meta (\<lambda>old x. x\<lparr>mr_Status := mr_Status old\<rparr>),
      cl_Engine = mem_rclient k_Engine (\<lambda>x. k_Engine_update (\<lambda>_. x)) le_Meta (\<lambda>old x. x\<lparr>le_Status := le_Status old\<rparr>),
      cl_PVC = mem_rclient k_PVC (\<lambda>x. k_PVC_update (\<lambda>_. x)) pvc_Meta (\<lambda>_ x. x),
      cl_PV = mem_rclient k_PV (\<lambda>x. k_PV_update (\<lambda>_. x)) pv_Meta (\<lambda>_ x. x),
      cl_Job = mem_rclient k_Job (\<lambda>x. k_Job_update (\<lambda>_. x)) job_Meta (\<lambda>_ x. x),
      cl_Deployment = mem_rclient k_Deployment (\<lambda>x. k_Deployment_update (\<lambda>_. x)) dep_Meta
        (\<lambda>old x. x\<lparr>dep_ReadyReplicas := dep_ReadyReplicas old\<rparr>),
      cl_Service = mem_rclient k_Service (\<lambda>x. k_Service_update (\<lambda>_. x)) svc_Meta (\<lambda>_ x. x),
      cl_ConfigMap = mem_rclient k_ConfigMap (\<lambda>x. k_ConfigMap_update (\<lambda>_. x)) cm_Meta (\<lambda>_ x. x),
      cl_StorageClass = mem_rclient k_StorageClass (\<lambda>x. k_StorageClass_update (\<lambda>_. x)) sc_Meta (\<lambda>_ x. x),
      cl_Node = mem_rclient k_Node (\<lambda>x. k_Node_update (\<lambda>_. x)) node_Meta (\<lambda>_ x. x)\<rparr>"

section \<open>The library\<close>

fun put_condition :: "Condition list \<Rightarrow> Condition \<Rightarrow> Condition list" where
  "put_condition [] c = [c]"
| "put_condition (d # cs) c = (if c_Type d = c_Type c then c # cs else d # put_condition cs c)"

definition find_condition :: "Condition list \<Rightarrow> string \<Rightarrow> Condition option" where
  "find_condition cs t = find (\<lambda>c. c_Type c = t) cs"

text \<open>Quantities of this instance: non-empty text, a number where one is needed.\<close>

fun digits_value :: "nat \<Rightarrow> string \<Rightarrow> nat" where
  "digits_value n [] = n"
| "digits_value n (c # s) =
     (let d = (of_char c :: nat) in if 48 \<le> d \<and> d \<le> 57 then digits_value (10 * n + (d - 48)) s else n)"

definition mem_lib :: k8s_lib where
  "mem_lib =
     \<lparr>lib_SetStatusCondition = put_condition,
      lib_FindStatusCondition = find_condition,
      lib_ContainsFinalizer = (\<lambda>fs f. List.member fs f),
      lib_AddFinalizer = (\<lambda>fs f. if List.member fs f then fs else fs @ [f]),
      lib_RemoveFinalizer = (\<lambda>fs f. filter (\<lambda>x. x \<noteq> f) fs),
      lib_SetControllerReference = (\<lambda>owner x. Inr (x\<lparr>om_OwnerReferences := om_Name owner # om_OwnerReferences x\<rparr>)),
      lib_ParseQuantity = (\<lambda>s. if s = [] then Inl (new_error ''quantities must match the regular expression'') else Inr s),
      lib_NewQuantity = show_int,
      lib_IsZero = (\<lambda>q. digits_value 0 q = 0),
      lib_Value = (\<lambda>q. int (digits_value 0 q)),
      lib_RepoStatusEqual = (\<lambda>a b. a = b),
      lib_EngineStatusEqual = (\<lambda>a b. a = b)\<rparr>"

text \<open>client-go's default back-off has five steps.\<close>

definition mem_reconciler :: "cluster reconciler" where
  "mem_reconciler = \<lparr>r_Client = mem_client, r_Lib = mem_lib, r_RetryOnConflict = attempts 4,
     r_OperatorNamespace = ''aitrigram-system''\<rparr>"

text \<open>A server that rejects every deployment it is asked to apply.\<close>

definition strict_reconciler :: "cluster reconciler" where
  "strict_reconciler = mem_reconciler\<lparr>r_Client := mem_client\<lparr>cl_Deployment := (cl_Deployment mem_client)\<lparr>rc_Apply :=
     (\<lambda>x. State (\<lambda>w. (Some (new_error ''admission webhook denied the request''), w)))\<rparr>\<rparr>\<rparr>"

section \<open>The instance keeps the documented laws\<close>

lemma find_put_condition:
  "find_condition (put_condition cs c) t = (if t = c_Type c then Some c else find_condition cs t)"
  by (induction cs) (auto simp: find_condition_def)

lemma mem_sets_conditions [simp]: "sets_conditions mem_lib"
  by (simp add: sets_conditions_def mem_lib_def find_put_condition)

lemma mem_manages_finalizers [simp]: "manages_finalizers mem_lib"
  by (auto simp: manages_finalizers_def mem_lib_def)

lemma mem_compares_statuses [simp]: "compares_statuses mem_lib"
  by (simp add: compares_statuses_def mem_lib_def)

lemma mem_sets_owner [simp]: "sets_owner mem_lib"
  by (simp add: sets_owner_def mem_lib_def)

lemma mem_retries_conflicts [simp]: "retries_conflicts (r_RetryOnConflict mem_reconciler)"
  by (simp add: mem_reconciler_def retries_conflicts_attempts)

lemma strict_retries_conflicts [simp]: "retries_conflicts (r_RetryOnConflict strict_reconciler)"
  by (simp add: strict_reconciler_def)

lemma mem_reconciler_Lib [simp]: "r_Lib mem_reconciler = mem_lib"
  by (simp add: mem_reconciler_def)

section \<open>Sample objects\<close>

definition sample_repo :: ModelRepository where
  "sample_repo =
     \<lparr>mr_Meta = emptyMeta\<lparr>om_Name := ''llama''\<rparr>,
      mr_Spec = \<lparr>mrs_ModelName = ''llama'',
        mrs_Source = \<lparr>src_Origin = ''huggingface'', src_ModelId = ''meta/llama'', src_Revision = [], src_Revisions = [],
          src_HFTokenSecret = [], src_HFTokenSecretKey = []\<rparr>,
        mrs_Storage = \<lparr>ms_Size = ''10Gi'', ms_MountPath = [], ms_StorageClass = ''auto''\<rparr>,
        mrs_AutoDownload = True, mrs_DownloadImage = [], mrs_DownloadScripts = [], mrs_DeleteScripts = [], mrs_NodeSelector = []\<rparr>,
      mr_Status = \<lparr>mst_Phase = [], mst_Conditions = [], mst_Storage = None, mst_AvailableRevisions = [], mst_ReferencedEngines = []\<rparr>\<rparr>"

definition sample_engine :: LLMEngine where
  "sample_engine =
     \<lparr>le_Meta = emptyMeta\<lparr>om_Name := ''chat'', om_Namespace := ''team-a''\<rparr>,
      le_Spec = \<lparr>les_EngineType = ''vllm'',
        les_ModelRefs = [\<lparr>mref_Name = ''llama'', mref_Revision = [], mref_UpdatePolicy = ''Manual''\<rparr>],
        les_Image = [], les_Args = [], les_Env = [], les_Port = 80, les_ServicePort = 0, les_Replicas = Some 1,
        les_NodeSelector = [], les_Resources = None, les_GPU = None, les_HostIPC = False\<rparr>,
      le_Status = \<lparr>lst_Phase = [], lst_Conditions = [], lst_ModelRepositories = []\<rparr>\<rparr>"

end
