(* ===== verification/Go_Float.thy ===== *)
theory Go_Float
  imports Prelude Complex_Main "HOL-Library.Log_Nat"
begin

text \<open>
  Numbers as text: what the operator uses of Go's package \<^verbatim>\<open>strconv\<close>. \<open>Atoi\<close> reads 64-bit
  integers; \<open>ParseFloat\<close> reads decimal and hexadecimal floating-point numbers, with the
  underscores, the infinities and the not-a-number that \<^verbatim>\<open>strconv.ParseFloat\<close> accepts, and rounds to
  the nearest 64-bit float, ties to even. \<open>show_float\<close> prints a finite float exactly and
  \<open>ParseFloat_show_float\<close> says that it reads back.
\<close>

section \<open>Characters\<close>

text \<open>The byte values are integers: \<open>byte\<close> is Go's \<^verbatim>\<open>int(c)\<close>; \<open>lower\<close> is strconv's \<^verbatim>\<open>c | ('x' - 'X')\<close>.\<close>

definition byte :: "char \<Rightarrow> int" where
  "byte c = of_char c"

definition lower :: "char \<Rightarrow> int" where
  "lower c = (let n = byte c in if n div 32 mod 2 = 0 then n + 32 else n)"

definition digit_value :: "char \<Rightarrow> int option" where
  "digit_value c = (if 48 \<le> byte c \<and> byte c \<le> 57 then Some (byte c - 48) else None)"

definition is_digit :: "char \<Rightarrow> bool" where
  "is_digit c = (digit_value c \<noteq> None)"

definition hex_value :: "char \<Rightarrow> int option" where
  "hex_value c = (case digit_value c of Some d \<Rightarrow> Some d
     | None \<Rightarrow> if 97 \<le> lower c \<and> lower c \<le> 102 then Some (lower c - 87) else None)"

section \<open>Integers\<close>

fun parse_digits :: "int \<Rightarrow> string \<Rightarrow> int option" where
  "parse_digits acc [] = Some acc"
| "parse_digits acc (c # s) = (case digit_value c of None \<Rightarrow> None | Some d \<Rightarrow> parse_digits (10 * acc + d) s)"

definition in_int64 :: "int \<Rightarrow> bool" where
  "in_int64 i = (- (2 ^ 63) \<le> i \<and> i < 2 ^ 63)"

definition sign_of :: "string \<Rightarrow> bool \<times> string" where
  "sign_of s = (case s of
     c # s' \<Rightarrow> if c = CHR ''-'' then (True, s') else if c = CHR ''+'' then (False, s') else (False, s)
   | [] \<Rightarrow> (False, []))"

definition Atoi :: "string \<Rightarrow> int option" where
  "Atoi s = (case sign_of s of (negative, digits) \<Rightarrow>
     if digits = [] then None
     else case parse_digits 0 digits of
       None \<Rightarrow> None
     | Some n \<Rightarrow> (let i = (if negative then - n else n) in if in_int64 i then Some i else None))"

section \<open>Floats\<close>

text \<open>
  \<open>FFin negative m e\<close> is \<open>m * 2 powi e\<close> with its sign. The significand has at most 53 bits,
  and 53 bits exactly unless the exponent is the least one.
\<close>

datatype float64 = FNaN | FInf bool | FFin bool int int

definition canonical :: "int \<Rightarrow> int \<Rightarrow> bool" where
  "canonical m e = (0 \<le> m \<and> m < 2 ^ 53 \<and> - 1074 \<le> e \<and> e \<le> 971 \<and> (2 ^ 52 \<le> m \<or> e = - 1074))"

text \<open>Rounding the positive ratio \<open>a / b\<close>: \<open>None\<close> is an overflow.\<close>

definition floor_log2 :: "int \<Rightarrow> int \<Rightarrow> int" where
  "floor_log2 a b = (let k = bitlen a - bitlen b
     in if (if 0 \<le> k then b * 2 ^ nat k \<le> a else b \<le> a * 2 ^ nat (- k)) then k else k - 1)"

definition scaled :: "int \<Rightarrow> int \<Rightarrow> int \<Rightarrow> int \<times> int" where
  "scaled a b e = (if 0 \<le> e then (a, b * 2 ^ nat e) else (a * 2 ^ nat (- e), b))"

definition half_even :: "int \<Rightarrow> int \<Rightarrow> int" where
  "half_even n d = (let q = n div d; r = n mod d in if 2 * r < d \<or> 2 * r = d \<and> even q then q else q + 1)"

definition round_ratio :: "int \<Rightarrow> int \<Rightarrow> (int \<times> int) option" where
  "round_ratio a b = (let e = max (- 1074) (floor_log2 a b - 52);
       q = (case scaled a b e of (n, d) \<Rightarrow> half_even n d);
       (m, e') = (if q = 2 ^ 53 then (2 ^ 52, e + 1) else (q, e))
     in if 971 < e' then None else Some (m, e'))"

text \<open>The value \<open>mant * base powi k\<close>.\<close>

definition float_of :: "bool \<Rightarrow> int \<Rightarrow> int \<Rightarrow> int \<Rightarrow> float64 option" where
  "float_of negative mant base k =
     (if mant = 0 then Some (FFin negative 0 (- 1074))
      else map_option (\<lambda>(m, e). FFin negative m e)
        (if 0 \<le> k then round_ratio (mant * base ^ nat k) 1 else round_ratio mant (base ^ nat (- k))))"

section \<open>Reading a float\<close>

definition special :: "string \<Rightarrow> float64 option" where
  "special s = (case sign_of s of (negative, t) \<Rightarrow>
     if ToLower t = ''inf'' \<or> ToLower t = ''infinity'' then Some (FInf negative)
     else if ToLower s = ''nan'' then Some FNaN else None)"

text \<open>
  \<open>read_mantissa hex sawdot mant places sawdigits s\<close>: the mantissa, the number of digits after the
  point, whether there was a digit, and what follows.
\<close>

fun read_mantissa :: "bool \<Rightarrow> bool \<Rightarrow> int \<Rightarrow> int \<Rightarrow> bool \<Rightarrow> string \<Rightarrow> int \<times> int \<times> bool \<times> string" where
  "read_mantissa hex sawdot mant places sawdigits [] = (mant, places, sawdigits, [])"
| "read_mantissa hex sawdot mant places sawdigits (c # s) =
     (if c = CHR ''_'' then read_mantissa hex sawdot mant places sawdigits s
      else if c = CHR ''.'' then
        (if sawdot then (mant, places, sawdigits, c # s) else read_mantissa hex True mant places sawdigits s)
      else case (if hex then hex_value c else digit_value c) of
        None \<Rightarrow> (mant, places, sawdigits, c # s)
      | Some d \<Rightarrow> read_mantissa hex sawdot ((if hex then 16 else 10) * mant + d)
          (if sawdot then places + 1 else places) True s)"

text \<open>The digits of an exponent: they stop counting at 10000, as in the code.\<close>

fun read_exponent_digits :: "int \<Rightarrow> string \<Rightarrow> int \<times> string" where
  "read_exponent_digits e [] = (e, [])"
| "read_exponent_digits e (c # s) =
     (if c = CHR ''_'' then read_exponent_digits e s
      else case digit_value c of
        None \<Rightarrow> (e, c # s)
      | Some d \<Rightarrow> read_exponent_digits (if e < 10000 then 10 * e + d else e) s)"

text \<open>The exponent part, which ends the number: a hexadecimal number must have one.\<close>

definition read_exponent :: "bool \<Rightarrow> string \<Rightarrow> int option" where
  "read_exponent hex s = (case s of
     [] \<Rightarrow> if hex then None else Some 0
   | c # s' \<Rightarrow>
       if lower c \<noteq> (if hex then 112 else 101) then None
       else case sign_of s' of (negative, t) \<Rightarrow> (case t of
           [] \<Rightarrow> None
         | d # _ \<Rightarrow> if \<not> is_digit d then None
             else case read_exponent_digits 0 t of (e, rest) \<Rightarrow>
               if rest \<noteq> [] then None else Some (if negative then - e else e)))"

text \<open>Underscores are allowed between digits, and between the base prefix and a digit.\<close>

datatype underscore_state = AtStart | AtDigit | AtUnderscore | AtOther

fun underscores_ok :: "bool \<Rightarrow> underscore_state \<Rightarrow> string \<Rightarrow> bool" where
  "underscores_ok hex saw [] = (saw \<noteq> AtUnderscore)"
| "underscores_ok hex saw (c # s) =
     (if is_digit c \<or> hex \<and> hex_value c \<noteq> None then underscores_ok hex AtDigit s
      else if c = CHR ''_'' then saw = AtDigit \<and> underscores_ok hex AtUnderscore s
      else saw \<noteq> AtUnderscore \<and> underscores_ok hex AtOther s)"

definition base_prefix :: "int list \<Rightarrow> string \<Rightarrow> bool" where
  "base_prefix letters s = (case s of c # x # _ \<Rightarrow> c = CHR ''0'' \<and> lower x \<in> set letters | _ \<Rightarrow> False)"

definition underscoreOK :: "string \<Rightarrow> bool" where
  "underscoreOK s = (case sign_of s of (_, t) \<Rightarrow>
     if base_prefix [98, 111, 120] t then underscores_ok (base_prefix [120] t) AtDigit (drop 2 t)
     else underscores_ok False AtStart t)"

text \<open>\<^verbatim>\<open>strconv.ParseFloat(s, 64)\<close>; \<open>None\<close> is a syntax or range error.\<close>

definition ParseFloat :: "string \<Rightarrow> float64 option" where
  "ParseFloat s = (case special s of
     Some f \<Rightarrow> Some f
   | None \<Rightarrow> (case sign_of s of (negative, t) \<Rightarrow>
       (let hex = (base_prefix [120] t \<and> 2 < length t)
        in case read_mantissa hex False 0 0 False (if hex then drop 2 t else t) of
          (mant, places, sawdigits, rest) \<Rightarrow>
            if \<not> sawdigits then None
            else case read_exponent hex rest of
              None \<Rightarrow> None
            | Some e \<Rightarrow>
                if CHR ''_'' \<in> set s \<and> \<not> underscoreOK s then None
                else if hex then float_of negative mant 2 (e - 4 * places)
                else float_of negative mant 10 (e - places))))"

section \<open>Rounding\<close>

lemma scaled_ratio:
  assumes "scaled a b e = (n, d)" "0 < b"
  shows "0 < d" "real_of_int n / real_of_int d = real_of_int a / real_of_int b / 2 powi e"
  using assms by (auto simp: scaled_def power_int_def power_inverse field_simps split: if_splits)

lemma floor_log2_test:
  assumes "0 < (a::int)" "0 < b"
  shows "(if 0 \<le> k then b * 2 ^ nat k \<le> a else b \<le> a * 2 ^ nat (- k)) \<longleftrightarrow>
    2 powi k \<le> real_of_int a / real_of_int b"
proof (cases "0 \<le> k")
  case True
  then have "2 powi k \<le> real_of_int a / real_of_int b \<longleftrightarrow> real_of_int (b * 2 ^ nat k) \<le> real_of_int a"
    using assms by (simp add: power_int_def field_simps)
  with True show ?thesis by (simp only: of_int_le_iff if_True)
next
  case False
  then have "2 powi k \<le> real_of_int a / real_of_int b \<longleftrightarrow> real_of_int b \<le> real_of_int (a * 2 ^ nat (- k))"
    using assms by (simp add: power_int_def field_simps)
  with False show ?thesis by (simp only: of_int_le_iff if_False)
qed

lemma bitlen_powi:
  assumes "0 < x"
  shows "2 powi (bitlen x - 1) \<le> real_of_int x" "real_of_int x < 2 powi bitlen x"
proof -
  from bitlen_bounds [OF assms] have "2 ^ nat (bitlen x - 1) \<le> x" "x < 2 ^ nat (bitlen x)" by auto
  then have *: "real_of_int (2 ^ nat (bitlen x - 1)) \<le> real_of_int x" "real_of_int x < real_of_int (2 ^ nat (bitlen x))"
    by (simp_all only: of_int_le_iff of_int_less_iff)
  have "1 \<le> bitlen x" using assms bitlen_nonneg [of x] bitlen_eq_zero_iff [of x] by linarith
  with * show "2 powi (bitlen x - 1) \<le> real_of_int x" "real_of_int x < 2 powi bitlen x"
    by (simp_all add: power_int_def)
qed

lemma floor_log2_bounds:
  assumes "0 < a" "0 < b"
  shows "2 powi floor_log2 a b \<le> real_of_int a / real_of_int b"
    and "real_of_int a / real_of_int b < 2 powi (floor_log2 a b + 1)"
proof -
  let ?r = "real_of_int a / real_of_int b" and ?k = "bitlen a - bitlen b"
  have low: "2 powi (?k - 1) \<le> ?r"
  proof -
    have "2 powi (?k - 1) * real_of_int b \<le> 2 powi (?k - 1) * 2 powi bitlen b"
      using bitlen_powi(2) [OF assms(2)] by (intro mult_left_mono) auto
    also have "\<dots> = 2 powi (bitlen a - 1)" by (simp flip: power_int_add)
    also have "\<dots> \<le> real_of_int a" by (rule bitlen_powi(1) [OF assms(1)])
    finally show ?thesis using assms by (simp add: field_simps)
  qed
  have high: "?r < 2 powi (?k + 1)"
  proof -
    have "real_of_int a < 2 powi bitlen a" by (rule bitlen_powi(2) [OF assms(1)])
    also have "\<dots> = 2 powi (?k + 1) * 2 powi (bitlen b - 1)" by (simp flip: power_int_add)
    also have "\<dots> \<le> 2 powi (?k + 1) * real_of_int b"
      using bitlen_powi(1) [OF assms(2)] by (intro mult_left_mono) auto
    finally show ?thesis using assms by (simp add: field_simps)
  qed
  from low high show "2 powi floor_log2 a b \<le> ?r" "?r < 2 powi (floor_log2 a b + 1)"
    unfolding floor_log2_def Let_def floor_log2_test [OF assms] by (auto simp: not_le)
qed

lemma powi_less_cancel: "2 powi i < (2 powi j :: real) \<Longrightarrow> i < j"
  by (meson not_le one_le_numeral power_int_increasing)

lemma floor_log2_less:
  assumes "0 < a" "0 < b" "real_of_int a / real_of_int b < 2 powi k"
  shows "floor_log2 a b < k"
proof -
  from floor_log2_bounds(1) [OF assms(1,2)] assms(3) have "2 powi floor_log2 a b < (2 powi k :: real)" by linarith
  then show ?thesis by (rule powi_less_cancel)
qed

lemma floor_log2_ge:
  assumes "0 < a" "0 < b" "2 powi k \<le> real_of_int a / real_of_int b"
  shows "k \<le> floor_log2 a b"
proof -
  from floor_log2_bounds(2) [OF assms(1,2)] assms(3) have "2 powi k < (2 powi (floor_log2 a b + 1) :: real)" by linarith
  then have "k < floor_log2 a b + 1" by (rule powi_less_cancel)
  then show ?thesis by simp
qed

lemma half_even_exact: "0 < d \<Longrightarrow> half_even (m * d) d = m"
  by (simp add: half_even_def Let_def)

text \<open>A number that is a float is not changed by rounding.\<close>

lemma round_ratio_exact:
  assumes "canonical m e" "0 < a" "0 < b" "real_of_int a / real_of_int b = real_of_int m * 2 powi e"
  shows "round_ratio a b = Some (m, e)"
proof -
  let ?r = "real_of_int a / real_of_int b"
  have "m < 2 ^ 53" using assms(1) by (simp add: canonical_def)
  then have "real_of_int m < 2 powi 53" by simp
  then have "?r < 2 powi 53 * 2 powi e" unfolding assms(4) by (intro mult_strict_right_mono) auto
  also have "\<dots> = 2 powi (53 + e)" by (rule power_int_add [symmetric]) simp
  finally have up: "floor_log2 a b < 53 + e" by (rule floor_log2_less [OF assms(2,3)])
  have "max (- 1074) (floor_log2 a b - 52) = e"
  proof (cases "2 ^ 52 \<le> m")
    case True
    then have "2 powi 52 \<le> real_of_int m" by simp
    then have "2 powi 52 * 2 powi e \<le> ?r" unfolding assms(4) by (intro mult_right_mono) auto
    moreover have "2 powi 52 * 2 powi e = (2 powi (52 + e) :: real)" by (rule power_int_add [symmetric]) simp
    ultimately have "52 + e \<le> floor_log2 a b" using floor_log2_ge [OF assms(2,3)] by simp
    with up assms(1) show ?thesis by (auto simp: canonical_def)
  next
    case False
    then have "e = - 1074" using assms(1) by (auto simp: canonical_def)
    with up show ?thesis by auto
  qed
  moreover obtain n d where nd: "scaled a b e = (n, d)" by fastforce
  with scaled_ratio [OF nd assms(3)] assms(4) have "0 < d" "real_of_int n / real_of_int d = real_of_int m" by auto
  then have "real_of_int n = real_of_int (m * d)" by (simp add: field_simps)
  then have "n = m * d" by (simp only: of_int_eq_iff)
  moreover have "m \<noteq> 2 ^ 53" "e \<le> 971" using assms(1) by (auto simp: canonical_def)
  ultimately show ?thesis using nd \<open>0 < d\<close> by (simp add: round_ratio_def Let_def half_even_exact)
qed

lemma float_of_exact:
  assumes "canonical m e" "0 \<le> mant" "0 < base"
    "real_of_int mant * real_of_int base powi k = real_of_int m * 2 powi e"
  shows "float_of negative mant base k = Some (FFin negative m e)"
proof (cases "mant = 0")
  case True
  with assms(3,4) have "m = 0" by auto
  with True assms(1) show ?thesis by (simp add: float_of_def canonical_def)
next
  case False
  then have pos: "0 < mant" using assms(2) by simp
  show ?thesis
  proof (cases "0 \<le> k")
    case True
    then have "real_of_int (mant * base ^ nat k) / real_of_int 1 = real_of_int m * 2 powi e"
      using assms(4) by (simp add: power_int_def)
    from round_ratio_exact [OF assms(1) _ _ this] True pos assms(3) False show ?thesis by (simp add: float_of_def)
  next
    case neg: False
    then have "real_of_int mant / real_of_int (base ^ nat (- k)) = real_of_int m * 2 powi e"
      using assms(4) by (simp add: power_int_def field_simps)
    from round_ratio_exact [OF assms(1) _ _ this] neg pos assms(3) False show ?thesis by (simp add: float_of_def)
  qed
qed

section \<open>Printed integers\<close>

lemma digit_char_cases: "d < 10 \<Longrightarrow> digit_char d \<in> set ''0123456789''"
  by (simp add: digit_char_def nth_Cons' nat_less_iff)

lemma digit_char_code:
  assumes "d < 10"
  shows "byte (digit_char d) = 48 + int d"
proof -
  from assms have "d \<in> {0, 1, 2, 3, 4, 5, 6, 7, 8, 9}" by auto
  then show ?thesis by (elim insertE emptyE) (simp_all add: byte_def digit_char_def)
qed

lemma digit_value_digit_char [simp]: "d < 10 \<Longrightarrow> digit_value (digit_char d) = Some (int d)"
  by (simp add: digit_value_def digit_char_code)

lemma is_digit_digit_char [simp]: "d < 10 \<Longrightarrow> is_digit (digit_char d)"
  by (simp add: is_digit_def)

lemma digit_not_plain:
  assumes "is_digit c"
  shows "c \<noteq> CHR ''-''" "c \<noteq> CHR ''+''" "c \<noteq> CHR ''_''" "c \<noteq> CHR ''.''" "lower c \<noteq> 120"
    "lower_char c = c" "c \<noteq> CHR ''e''" "c \<noteq> CHR ''i''" "c \<noteq> CHR ''n''"
proof -
  from assms have *: "48 \<le> byte c" "byte c \<le> 57" by (auto simp: is_digit_def digit_value_def split: if_splits)
  then show "c \<noteq> CHR ''-''" "c \<noteq> CHR ''+''" "c \<noteq> CHR ''_''" "c \<noteq> CHR ''.''" "c \<noteq> CHR ''e''" "c \<noteq> CHR ''i''" "c \<noteq> CHR ''n''"
    by (auto simp: byte_def)
  from * show "lower c \<noteq> 120" by (auto simp: lower_def Let_def)
  from *(2) have "(of_char c :: nat) \<le> 57" unfolding byte_def using of_nat_of_char [where 'a = int] by (metis of_nat_le_iff of_nat_numeral)
  then show "lower_char c = c" by (simp add: lower_char_def)
qed

lemma show_nat_step:
  "show_nat n = (if n < 10 then [digit_char n] else show_nat (n div 10) @ [digit_char (n mod 10)])"
  by (rule show_nat.simps)

lemma show_nat_digits: "list_all is_digit (show_nat n)"
  by (induction n rule: show_nat.induct) (subst show_nat_step, auto)

lemma show_nat_not_Nil [simp]: "show_nat n \<noteq> []"
  by (subst show_nat_step) auto

lemma show_nat_starts_with_digit: "\<exists>d s. show_nat n = d # s \<and> is_digit d \<and> list_all is_digit s"
  using show_nat_digits [of n] by (cases "show_nat n") auto

lemma parse_digits_append:
  "parse_digits acc (s @ t) = (case parse_digits acc s of None \<Rightarrow> None | Some n \<Rightarrow> parse_digits n t)"
  by (induction s arbitrary: acc) (auto split: option.splits)

lemma int_div_mod_10: "10 * int (n div 10) + int (n mod 10) = int n"
  by (metis div_mult_mod_eq mult.commute of_nat_add of_nat_mult of_nat_numeral)

lemma parse_digits_show_nat: "parse_digits 0 (show_nat n) = Some (int n)"
proof (induction n rule: show_nat.induct)
  case (1 n)
  then show ?case
    by (subst show_nat_step) (auto simp: parse_digits_append int_div_mod_10)
qed

lemma sign_of_digits: "list_all is_digit s \<Longrightarrow> s \<noteq> [] \<Longrightarrow> sign_of (s @ t) = (False, s @ t)"
  by (cases s) (auto simp: sign_of_def dest: digit_not_plain)

lemma sign_of_minus [simp]: "sign_of (CHR ''-'' # s) = (True, s)"
  by (simp add: sign_of_def)

lemma Atoi_show_int: "in_int64 i \<Longrightarrow> Atoi (show_int i) = Some i"
  using sign_of_digits [OF show_nat_digits show_nat_not_Nil, of "nat i" "[]"]
  by (auto simp: Atoi_def show_int_def parse_digits_show_nat)

lemma read_mantissa_show_nat:
  "read_mantissa False False mant k sd (show_nat n @ s) =
     read_mantissa False False (mant * 10 ^ length (show_nat n) + int n) k True s"
proof (induction n arbitrary: mant sd s rule: show_nat.induct)
  case (1 n)
  show ?case
  proof (cases "n < 10")
    case True
    with digit_not_plain [OF is_digit_digit_char [OF True]] show ?thesis
      by (subst (1 2) show_nat_step) (simp add: algebra_simps)
  next
    case False
    have d: "n mod 10 < 10" by simp
    from False have len: "length (show_nat n) = Suc (length (show_nat (n div 10)))" by (subst show_nat_step) simp
    have "read_mantissa False False mant k sd (show_nat n @ s) =
        read_mantissa False False (mant * 10 ^ length (show_nat (n div 10)) + int (n div 10)) k True
          (digit_char (n mod 10) # s)"
      using "1"[OF False, of mant sd "digit_char (n mod 10) # s"] False by (subst show_nat_step) simp
    also have "\<dots> = read_mantissa False False (10 * (mant * 10 ^ length (show_nat (n div 10)) + int (n div 10)) + int (n mod 10)) k True s"
      using digit_not_plain [OF is_digit_digit_char [OF d]] by simp
    also have "10 * (mant * 10 ^ length (show_nat (n div 10)) + int (n div 10)) + int (n mod 10) =
        mant * 10 ^ length (show_nat n) + int n"
      unfolding len int_div_mod_10 [of n, symmetric] by (simp only: power_Suc algebra_simps)
    finally show ?thesis .
  qed
qed

lemma read_exponent_show_nat:
  "n < 10000 \<Longrightarrow> read_exponent_digits 0 (show_nat n @ s) = read_exponent_digits (int n) s"
proof (induction n arbitrary: s rule: show_nat.induct)
  case (1 n)
  show ?case
  proof (cases "n < 10")
    case True
    with digit_not_plain [OF is_digit_digit_char [OF True]] show ?thesis by (subst show_nat_step) simp
  next
    case False
    have d: "n mod 10 < 10" by simp
    from False "1.prems" have "read_exponent_digits 0 (show_nat n @ s) =
        read_exponent_digits (int (n div 10)) (digit_char (n mod 10) # s)"
      using "1.IH" [of "digit_char (n mod 10) # s"] by (subst show_nat_step) simp
    with digit_not_plain [OF is_digit_digit_char [OF d]] "1.prems" int_div_mod_10 [of n] show ?thesis by simp
  qed
qed

section \<open>Printed floats\<close>

text \<open>The exact decimal form: an integer where the value is one, else digits and a negative exponent.\<close>

definition show_magnitude :: "int \<Rightarrow> int \<Rightarrow> string" where
  "show_magnitude m e =
     (if 0 \<le> e then show_nat (nat (m * 2 ^ nat e))
      else if m mod 2 ^ nat (- e) = 0 then show_nat (nat (m div 2 ^ nat (- e)))
      else show_nat (nat (m * 5 ^ nat (- e))) @ ''e-'' @ show_nat (nat (- e)))"

fun show_float :: "float64 \<Rightarrow> string" where
  "show_float FNaN = ''NaN''"
| "show_float (FInf negative) = (if negative then ''-Inf'' else ''+Inf'')"
| "show_float (FFin negative m e) = (if negative then ''-'' else []) @ show_magnitude m e"

fun finite_float :: "float64 \<Rightarrow> bool" where
  "finite_float (FFin _ m e) = canonical m e"
| "finite_float _ = False"

lemma magnitude_cases:
  assumes "canonical m e"
  obtains (whole) n where "show_magnitude m e = show_nat n" "real n = real_of_int m * 2 powi e"
  | (decimal) n where "show_magnitude m e = show_nat n @ ''e-'' @ show_nat (nat (- e))" "0 < - e" "- e < 10000"
      "real n * 10 powi e = real_of_int m * 2 powi e"
proof -
  have m: "0 \<le> m" and e: "- 1074 \<le> e" using assms by (auto simp: canonical_def)
  consider "0 \<le> e" | "e < 0" "m mod 2 ^ nat (- e) = 0" | "e < 0" "m mod 2 ^ nat (- e) \<noteq> 0" by linarith
  then show thesis
  proof cases
    case 1
    then show thesis using m by (intro whole [of "nat (m * 2 ^ nat e)"]) (simp_all add: show_magnitude_def power_int_def)
  next
    case 2
    then obtain q where q: "m = 2 ^ nat (- e) * q" by auto
    with m have "0 \<le> q" by (simp add: zero_le_mult_iff)
    with 2 q show thesis
      by (intro whole [of "nat (m div 2 ^ nat (- e))"]) (simp_all add: show_magnitude_def power_int_def field_simps)
  next
    case 3
    have "real_of_int m * 5 ^ nat (- e) / 10 ^ nat (- e) = real_of_int m / 2 ^ nat (- e)"
    proof -
      have "(10::real) ^ nat (- e) = 2 ^ nat (- e) * 5 ^ nat (- e)" by (simp flip: power_mult_distrib)
      then show ?thesis by simp
    qed
    with 3 m e show thesis
      by (intro decimal [of "nat (m * 5 ^ nat (- e))"]) (simp_all add: show_magnitude_def power_int_def power_one_over)
  qed
qed

lemma lower_e: "lower CHR ''e'' = 101" by (simp add: lower_def byte_def)

lemma ParseFloat_digits:
  assumes "list_all is_digit (d # ds)"
    and "rest = [] \<or> (\<exists>ds'. rest = ''e-'' @ ds' \<and> list_all is_digit ds')"
    and "read_mantissa False False 0 0 False (d # ds @ rest) = (mant, 0, True, rest)"
    and "read_exponent False rest = Some e"
  shows "ParseFloat ((if negative then ''-'' else []) @ d # ds @ rest) = float_of negative mant 10 e"
proof -
  let ?s = "(if negative then ''-'' else []) @ d # ds @ rest"
  from assms(1) have d: "is_digit d" and ds: "\<And>c. c \<in> set ds \<Longrightarrow> is_digit c" by (auto simp: list_all_iff)
  note plain = digit_not_plain [OF d]
  have sign: "sign_of ?s = (negative, d # ds @ rest)"
    using plain by (auto simp: sign_of_def)
  have "hd (ToLower (d # t)) = d" for t using plain by (simp add: ToLower_def)
  then have no: "ToLower (d # t) \<noteq> ''inf''" "ToLower (d # t) \<noteq> ''infinity''" "ToLower (d # t) \<noteq> ''nan''" for t
    using plain by (metis list.sel(1))+
  moreover have "ToLower (CHR ''-'' # t) \<noteq> ''nan''" for t by (simp add: ToLower_def lower_char_def)
  ultimately have none: "special ?s = None"
    unfolding special_def sign by auto
  have "\<not> base_prefix [120] (d # ds @ rest)"
    using assms(2) ds digit_not_plain(5) lower_e by (cases ds) (auto simp: base_prefix_def)
  moreover have "CHR ''_'' \<notin> set ?s"
  proof -
    have "\<not> is_digit CHR ''_''" by (simp add: is_digit_def digit_value_def byte_def)
    with assms(2) plain ds show ?thesis by (auto simp: list_all_iff)
  qed
  ultimately show ?thesis
    by (simp add: ParseFloat_def none sign assms(3,4) del: read_mantissa.simps set_append)
qed

text \<open>Every finite float reads back from its printed form.\<close>

lemma ParseFloat_show_float:
  assumes "finite_float f"
  shows "ParseFloat (show_float f) = Some f"
proof -
  from assms obtain negative m e where f: "f = FFin negative m e" "canonical m e" by (cases f) auto
  from f(2) show ?thesis
  proof (cases rule: magnitude_cases)
    case (whole n)
    obtain d ds where ds: "show_nat n = d # ds" "list_all is_digit (d # ds)"
      using show_nat_starts_with_digit [of n] by auto
    have "read_mantissa False False 0 0 False (d # ds @ []) = (int n, 0, True, [])"
      using read_mantissa_show_nat [of 0 0 False n "[]"] ds(1) by simp
    from ParseFloat_digits [OF ds(2) _ this, where negative = negative and e = 0]
    have "ParseFloat (show_float f) = float_of negative (int n) 10 0"
      by (simp add: f(1) whole(1) ds(1) read_exponent_def)
    also have "\<dots> = Some f" using whole(2) f by (simp add: float_of_exact)
    finally show ?thesis .
  next
    case (decimal n)
    obtain d ds where ds: "show_nat n = d # ds" "list_all is_digit (d # ds)"
      using show_nat_starts_with_digit [of n] by auto
    let ?exp = "''e-'' @ show_nat (nat (- e))"
    have "read_mantissa False False 0 0 False (d # ds @ ?exp) = (int n, 0, True, ?exp)"
      using read_mantissa_show_nat [of 0 0 False n ?exp] ds(1) by (simp add: digit_value_def byte_def)
    moreover obtain d' ds' where "show_nat (nat (- e)) = d' # ds'" "is_digit d'"
      using show_nat_starts_with_digit [of "nat (- e)"] by auto
    with read_exponent_show_nat [of "nat (- e)" "[]"] decimal(2,3)
    have "read_exponent False ?exp = Some e" by (simp add: read_exponent_def lower_e)
    ultimately have "ParseFloat ((if negative then ''-'' else []) @ d # ds @ ?exp) = float_of negative (int n) 10 e"
      using show_nat_digits by (intro ParseFloat_digits [OF ds(2)]) auto
    then have "ParseFloat (show_float f) = float_of negative (int n) 10 e"
      by (simp add: f(1) decimal(1) ds(1))
    also have "\<dots> = Some f" using decimal(4) f by (simp add: float_of_exact)
    finally show ?thesis .
  qed
qed

end
