(* ===== verification/Go_Json.thy ===== *)
theory Go_Json
  imports Go_Float
begin

text \<open>
  Decoding JSON into a value of type \<^verbatim>\<open>interface{}\<close>, as Go's \<^verbatim>\<open>json.Unmarshal\<close> does it: a scanner
  whose states are those of \<^verbatim>\<open>encoding/json\<close> (begin value, begin value or empty, end value and so
  on) over a stack of open objects and arrays, numbers as 64-bit floats, strings unquoted with
  invalid UTF-8 replaced, the last of equal keys kept. \<open>show_json\<close> prints a value and
  \<open>Unmarshal_show_json\<close> says that it reads back.
\<close>

section \<open>Values\<close>

text \<open>What an \<^verbatim>\<open>interface{}\<close> holds here. Go's maps have each key once.\<close>

datatype cfg = CNull | CBool bool | CInt int | CFloat float64 | CStr string | CArr "cfg list"
  | CMap "(string \<times> cfg) list"

fun wf_cfg :: "cfg \<Rightarrow> bool" where
  "wf_cfg (CMap m) = (wf_map m \<and> list_all (\<lambda>(k, c). wf_cfg c) m)"
| "wf_cfg (CArr cs) = list_all wf_cfg cs"
| "wf_cfg _ = True"

section \<open>Strings\<close>

abbreviation dquote :: char where "dquote \<equiv> CHR 0x22"
abbreviation backslash :: char where "backslash \<equiv> CHR 0x5C"

definition char_at :: "int \<Rightarrow> char" where
  "char_at n = char_of n"

text \<open>The body of a string up to its closing quote, and what follows.\<close>

fun scan_string :: "string \<Rightarrow> (string \<times> string) option" where
  "scan_string [] = None"
| "scan_string (c # s) =
     (if c = dquote then Some ([], s)
      else if byte c < 32 then None
      else if c = backslash then
        (case s of
           [] \<Rightarrow> None
         | e # t \<Rightarrow>
             if e = CHR ''u'' then
               (case t of
                  h1 # h2 # h3 # h4 # t' \<Rightarrow>
                    if list_all (\<lambda>h. hex_value h \<noteq> None) [h1, h2, h3, h4]
                    then map_option (apfst (append [c, e, h1, h2, h3, h4])) (scan_string t') else None
                | _ \<Rightarrow> None)
             else if e \<in> {dquote, backslash, CHR ''/'', CHR ''b'', CHR ''f'', CHR ''n'', CHR ''r'', CHR ''t''}
             then map_option (apfst (append [c, e])) (scan_string t) else None)
      else map_option (apfst (append [c])) (scan_string s))"

text \<open>UTF-8: the bytes of a rune, and the first rune of a string if it starts with one.\<close>

definition encode_rune :: "int \<Rightarrow> string" where
  "encode_rune r = map char_at
     (if r < 128 then [r]
      else if r < 2048 then [192 + r div 64, 128 + r mod 64]
      else if r < 65536 then [224 + r div 4096, 128 + r div 64 mod 64, 128 + r mod 64]
      else [240 + r div 262144, 128 + r div 4096 mod 64, 128 + r div 64 mod 64, 128 + r mod 64])"

definition rune_error :: string where
  "rune_error = map char_at [239, 191, 189]"

definition between :: "int \<Rightarrow> int \<Rightarrow> char \<Rightarrow> bool" where
  "between lo hi c = (lo \<le> byte c \<and> byte c \<le> hi)"

definition second_byte :: "char \<Rightarrow> char \<Rightarrow> bool" where
  "second_byte a b = between (if byte a = 224 then 160 else if byte a = 240 then 144 else 128)
     (if byte a = 237 then 159 else if byte a = 244 then 143 else 191) b"

definition rune_tail :: "char \<Rightarrow> nat option" where
  "rune_tail a = (if byte a < 128 then Some 0 else if between 194 223 a then Some 1
     else if between 224 239 a then Some 2 else if between 240 244 a then Some 3 else None)"

fun tail_bytes :: "char \<Rightarrow> string \<Rightarrow> bool" where
  "tail_bytes a [] = True"
| "tail_bytes a (b # bs) = (second_byte a b \<and> list_all (between 128 191) bs)"

definition take_rune :: "string \<Rightarrow> (string \<times> string) option" where
  "take_rune s = (case s of
     [] \<Rightarrow> None
   | a # t \<Rightarrow> (case rune_tail a of
       None \<Rightarrow> None
     | Some n \<Rightarrow> if n \<le> length t \<and> tail_bytes a (take n t) then Some (a # take n t, drop n t) else None))"

text \<open>The escape \<^verbatim>\<open>\uXXXX\<close> at the start of a string.\<close>

definition read_u :: "string \<Rightarrow> (int \<times> string) option" where
  "read_u s = (case s of
     b # u # h1 # h2 # h3 # h4 # t \<Rightarrow>
       if b = backslash \<and> u = CHR ''u'' then
         (case (hex_value h1, hex_value h2, hex_value h3, hex_value h4) of
            (Some n1, Some n2, Some n3, Some n4) \<Rightarrow> Some (4096 * n1 + 256 * n2 + 16 * n3 + n4, t)
          | _ \<Rightarrow> None)
       else None
   | _ \<Rightarrow> None)"

definition escaped :: "char \<Rightarrow> char" where
  "escaped e = (if e = CHR ''b'' then CHR 0x08 else if e = CHR ''f'' then CHR 0x0C
     else if e = CHR ''n'' then CHR 0x0A else if e = CHR ''r'' then CHR 0x0D
     else if e = CHR ''t'' then CHR 0x09 else e)"

definition is_surrogate :: "int \<Rightarrow> bool" where
  "is_surrogate r = (55296 \<le> r \<and> r < 57344)"

definition surrogate_pair :: "int \<Rightarrow> int \<Rightarrow> int option" where
  "surrogate_pair r1 r2 =
     (if 55296 \<le> r1 \<and> r1 < 56320 \<and> 56320 \<le> r2 \<and> r2 < 57344
      then Some ((r1 - 55296) * 1024 + (r2 - 56320) + 65536) else None)"

text \<open>The second half of a surrogate pair, if the string goes on with one.\<close>

definition low_half :: "int \<Rightarrow> string \<Rightarrow> (int \<times> string) option" where
  "low_half r s = (case read_u s of
     None \<Rightarrow> None
   | Some (r2, t) \<Rightarrow> map_option (\<lambda>rune. (rune, t)) (surrogate_pair r r2))"

lemma take_rune_length: "take_rune s = Some (r, t) \<Longrightarrow> length t < length s"
  by (auto simp: take_rune_def split: list.splits if_splits option.splits)

lemma read_u_length: "read_u s = Some (r, t) \<Longrightarrow> length t < length s"
  by (auto simp: read_u_def split: list.splits if_splits option.splits)

lemma low_half_length: "low_half r s = Some (r', t) \<Longrightarrow> length t < length s"
  by (auto simp: low_half_def split: option.splits dest: read_u_length)

lemma scan_string_escape [simp]:
  "scan_string [backslash] = None"
  "e \<noteq> CHR ''u'' \<Longrightarrow> scan_string (backslash # e # t) =
     (if e \<in> {dquote, backslash, CHR ''/'', CHR ''b'', CHR ''f'', CHR ''n'', CHR ''r'', CHR ''t''}
      then map_option (apfst (append [backslash, e])) (scan_string t) else None)"
  "scan_string (backslash # CHR ''u'' # h1 # h2 # h3 # h4 # t) =
     (if list_all (\<lambda>h. hex_value h \<noteq> None) [h1, h2, h3, h4]
      then map_option (apfst (append [backslash, CHR ''u'', h1, h2, h3, h4])) (scan_string t) else None)"
  by (simp_all add: byte_def)

lemma scan_string_unfinished_escape: "length t < 4 \<Longrightarrow> scan_string (backslash # CHR ''u'' # t) = None"
  by (auto simp: byte_def split: list.splits)

lemma scan_string_plain [simp]:
  "scan_string (dquote # s) = Some ([], s)"
  "c \<noteq> dquote \<Longrightarrow> c \<noteq> backslash \<Longrightarrow>
     scan_string (c # s) = (if byte c < 32 then None else map_option (apfst (append [c])) (scan_string s))"
  by simp_all

declare scan_string.simps(2) [simp del]

lemma four_chars: "length u < 4 \<or> (\<exists>h1 h2 h3 h4 v. u = h1 # h2 # h3 # h4 # v)"
proof (cases "length u < 4")
  case False
  then have "Suc (Suc (Suc (Suc 0))) \<le> length u" by simp
  then show ?thesis unfolding Suc_le_length_iff by blast
qed simp

lemma scan_string_append: "scan_string s = Some (raw, t) \<Longrightarrow> s = raw @ dquote # t"
proof (induction "length s" arbitrary: s raw rule: less_induct)
  case less
  have IH: "\<And>u raw. length u < length s \<Longrightarrow> scan_string u = Some (raw, t) \<Longrightarrow> u = raw @ dquote # t"
    using less.hyps by blast
  consider "s = []" | u where "s = dquote # u" | c u where "s = c # u" "c \<noteq> dquote" "c \<noteq> backslash"
    | "s = [backslash]" | e u where "s = backslash # e # u" "e \<noteq> CHR ''u''"
    | u where "s = backslash # CHR ''u'' # u" "length u < 4"
    | h1 h2 h3 h4 u where "s = backslash # CHR ''u'' # h1 # h2 # h3 # h4 # u"
    using four_chars [of "tl (tl s)"] by (metis list.exhaust list.sel(3))
  then show ?case
  proof cases
    case (3 c u)
    with less.prems IH [of u] show ?thesis by (auto split: if_splits)
  next
    case (5 e u)
    with less.prems IH [of u] show ?thesis by (auto split: if_splits)
  next
    case (6 u)
    with less.prems scan_string_unfinished_escape show ?thesis by simp
  next
    case (7 h1 h2 h3 h4 u)
    with less.prems IH [of u] show ?thesis by (auto split: if_splits)
  qed (use less.prems in auto)
qed

lemma scan_string_length: "scan_string s = Some (raw, t) \<Longrightarrow> length t < length s"
  by (drule scan_string_append) simp

function unquote :: "string \<Rightarrow> string" where
  "unquote [] = []"
| "unquote (c # s) = (case read_u (c # s) of
     Some (r, t) \<Rightarrow>
       if is_surrogate r then
         (case low_half r t of Some (rune, t') \<Rightarrow> encode_rune rune @ unquote t' | None \<Rightarrow> rune_error @ unquote t)
       else encode_rune r @ unquote t
   | None \<Rightarrow>
       if c = backslash then (case s of [] \<Rightarrow> [] | e # t \<Rightarrow> escaped e # unquote t)
       else (case take_rune (c # s) of
               Some (rune, t) \<Rightarrow> rune @ unquote t | None \<Rightarrow> rune_error @ unquote s))"
  by pat_completeness auto
termination
  by (relation "measure length") (auto dest!: take_rune_length read_u_length low_half_length)

section \<open>Numbers and tokens\<close>

definition span_digits :: "string \<Rightarrow> string \<times> string" where
  "span_digits s = (takeWhile is_digit s, dropWhile is_digit s)"

definition scan_sign :: "string \<Rightarrow> string \<times> string" where
  "scan_sign s = (case s of c # t \<Rightarrow> if c = CHR ''-'' then ([c], t) else ([], s) | [] \<Rightarrow> ([], []))"

definition scan_integer :: "string \<Rightarrow> (string \<times> string) option" where
  "scan_integer s = (case s of
     [] \<Rightarrow> None
   | c # t \<Rightarrow> if c = CHR ''0'' then Some ([c], t) else if is_digit c then Some (span_digits s) else None)"

definition scan_fraction :: "string \<Rightarrow> (string \<times> string) option" where
  "scan_fraction s = (case s of
     c # t \<Rightarrow> if c = CHR ''.'' then (case span_digits t of (ds, u) \<Rightarrow> if ds = [] then None else Some (c # ds, u))
       else Some ([], s)
   | [] \<Rightarrow> Some ([], []))"

definition scan_exponent :: "string \<Rightarrow> (string \<times> string) option" where
  "scan_exponent s = (case s of
     c # t \<Rightarrow>
       if c = CHR ''e'' \<or> c = CHR ''E'' then
         (case (case t of d # u \<Rightarrow> if d = CHR ''+'' \<or> d = CHR ''-'' then ([d], u) else ([], t) | [] \<Rightarrow> ([], [])) of
            (sign, u) \<Rightarrow> (case span_digits u of (ds, rest) \<Rightarrow>
              if ds = [] then None else Some (c # sign @ ds, rest)))
       else Some ([], s)
   | [] \<Rightarrow> Some ([], []))"

text \<open>The longest JSON number at the start of a string.\<close>

definition scan_number :: "string \<Rightarrow> (string \<times> string) option" where
  "scan_number s = (case scan_sign s of (sign, s1) \<Rightarrow> (case scan_integer s1 of
     None \<Rightarrow> None
   | Some (digits, s2) \<Rightarrow> (case scan_fraction s2 of
       None \<Rightarrow> None
     | Some (fraction, s3) \<Rightarrow> (case scan_exponent s3 of
         None \<Rightarrow> None
       | Some (exponent, s4) \<Rightarrow> Some (sign @ digits @ fraction @ exponent, s4)))))"

datatype json_token = OpenObject | CloseObject | OpenArray | CloseArray | Colon | Comma
  | StringToken string | ValueToken cfg

definition is_json_space :: "char \<Rightarrow> bool" where
  "is_json_space c = (byte c \<in> {9, 10, 13, 32})"

definition punctuation :: "char \<Rightarrow> json_token option" where
  "punctuation c = map_of [(CHR ''{'', OpenObject), (CHR ''}'', CloseObject), (CHR ''['', OpenArray),
     (CHR '']'', CloseArray), (CHR '':'', Colon), (CHR '','', Comma)] c"

definition json_literal :: "string \<Rightarrow> (cfg \<times> string) option" where
  "json_literal s =
     (if HasPrefix s ''true'' then Some (CBool True, drop 4 s)
      else if HasPrefix s ''false'' then Some (CBool False, drop 5 s)
      else if HasPrefix s ''null'' then Some (CNull, drop 4 s) else None)"

text \<open>A scalar token: a string, a literal or a number.\<close>

definition scan_scalar :: "string \<Rightarrow> (json_token \<times> string) option" where
  "scan_scalar s =
     (if HasPrefix s [dquote] then map_option (apfst (StringToken \<circ> unquote)) (scan_string (tl s))
      else case json_literal s of
        Some (v, t) \<Rightarrow> Some (ValueToken v, t)
      | None \<Rightarrow> (case scan_number s of
          None \<Rightarrow> None
        | Some (digits, t) \<Rightarrow> map_option (\<lambda>f. (ValueToken (CFloat f), t)) (ParseFloat digits)))"

lemma span_digits_length: "span_digits s = (ds, t) \<Longrightarrow> length t + length ds = length s"
  by (auto simp: span_digits_def) (metis add.commute length_append takeWhile_dropWhile_id)

lemma scan_number_length:
  assumes "scan_number s = Some (digits, t)"
  shows "length t < length s"
proof -
  from assms obtain sign s1 ds s2 fr s3 ex where steps:
    "scan_sign s = (sign, s1)" "scan_integer s1 = Some (ds, s2)" "scan_fraction s2 = Some (fr, s3)"
    "scan_exponent s3 = Some (ex, t)"
    by (auto simp: scan_number_def split: prod.splits option.splits)
  have "length s1 \<le> length s" using steps(1) by (auto simp: scan_sign_def split: list.splits if_splits)
  moreover have "length s2 < length s1" using steps(2)
    by (auto simp: scan_integer_def span_digits_def less_Suc_eq_le length_dropWhile_le split: list.splits if_splits)
  moreover have "length s3 \<le> length s2" using steps(3)
    by (auto simp: scan_fraction_def split: list.splits if_splits prod.splits dest!: span_digits_length)
  moreover have "length t \<le> length s3" using steps(4)
    by (auto simp: scan_exponent_def split: list.splits if_splits prod.splits dest!: span_digits_length)
  ultimately show ?thesis by linarith
qed

lemma scan_scalar_length:
  assumes "scan_scalar s = Some (tok, t)"
  shows "length t < length s"
proof (cases "HasPrefix s [dquote]")
  case True
  with assms obtain raw where raw: "scan_string (tl s) = Some (raw, t)" by (auto simp: scan_scalar_def)
  from True have "s \<noteq> []" by (auto simp: HasPrefix_def)
  then have "length (tl s) < length s" by simp
  with scan_string_length [OF raw] show ?thesis by linarith
next
  case False
  have "length t < length s" if "json_literal s = Some (v, t)" for v
    using that by (auto simp: json_literal_def HasPrefix_def prefix_def split: if_splits)
  with assms False show ?thesis
    by (auto simp: scan_scalar_def split: option.splits dest: scan_number_length)
qed

function lex_json :: "string \<Rightarrow> json_token list option" where
  "lex_json [] = Some []"
| "lex_json (c # s) =
     (if is_json_space c then lex_json s
      else case punctuation c of
        Some tok \<Rightarrow> map_option (Cons tok) (lex_json s)
      | None \<Rightarrow> (case scan_scalar (c # s) of
          None \<Rightarrow> None
        | Some (tok, t) \<Rightarrow> map_option (Cons tok) (lex_json t)))"
  by pat_completeness auto
termination
  by (relation "measure length") (auto dest: scan_scalar_length)

section \<open>Scanner\<close>

datatype json_state = BeginValue | BeginValueOrEmpty | BeginString | BeginStringOrEmpty
  | EndKey string | EndValue cfg

text \<open>An open array with its elements so far, an open object, or one that waits for the value of a key.\<close>

datatype json_frame = ArrayFrame "cfg list" | ObjectFrame "cfg gomap" | KeyFrame "cfg gomap" string

definition max_nesting_depth :: int where
  "max_nesting_depth = 10000"

definition json_open :: "json_state \<Rightarrow> json_frame \<Rightarrow> json_frame list \<Rightarrow> (json_state \<times> json_frame list) option" where
  "json_open st frame stk = (if go_len stk < max_nesting_depth then Some (st, frame # stk) else None)"

definition json_begin_value :: "json_frame list \<Rightarrow> json_token \<Rightarrow> (json_state \<times> json_frame list) option" where
  "json_begin_value stk tok = (case tok of
     OpenObject \<Rightarrow> json_open BeginStringOrEmpty (ObjectFrame []) stk
   | OpenArray \<Rightarrow> json_open BeginValueOrEmpty (ArrayFrame []) stk
   | StringToken s \<Rightarrow> Some (EndValue (CStr s), stk)
   | ValueToken v \<Rightarrow> Some (EndValue v, stk)
   | _ \<Rightarrow> None)"

definition json_begin_string :: "json_frame list \<Rightarrow> json_token \<Rightarrow> (json_state \<times> json_frame list) option" where
  "json_begin_string stk tok = (case tok of StringToken k \<Rightarrow> Some (EndKey k, stk) | _ \<Rightarrow> None)"

definition json_end_value :: "cfg \<Rightarrow> json_frame list \<Rightarrow> json_token \<Rightarrow> (json_state \<times> json_frame list) option" where
  "json_end_value v stk tok = (case stk of
     ArrayFrame vs # s \<Rightarrow>
       if tok = Comma then Some (BeginValue, ArrayFrame (vs @ [v]) # s)
       else if tok = CloseArray then Some (EndValue (CArr (vs @ [v])), s) else None
   | KeyFrame m k # s \<Rightarrow>
       if tok = Comma then Some (BeginString, ObjectFrame (map_set m k v) # s)
       else if tok = CloseObject then Some (EndValue (CMap (map_set m k v)), s) else None
   | _ \<Rightarrow> None)"

definition json_step :: "json_state \<Rightarrow> json_frame list \<Rightarrow> json_token \<Rightarrow> (json_state \<times> json_frame list) option" where
  "json_step st stk tok = (case st of
     BeginValue \<Rightarrow> json_begin_value stk tok
   | BeginValueOrEmpty \<Rightarrow>
       if tok = CloseArray then (case stk of ArrayFrame vs # s \<Rightarrow> Some (EndValue (CArr vs), s) | _ \<Rightarrow> None)
       else json_begin_value stk tok
   | BeginString \<Rightarrow> json_begin_string stk tok
   | BeginStringOrEmpty \<Rightarrow>
       if tok = CloseObject then (case stk of ObjectFrame m # s \<Rightarrow> Some (EndValue (CMap m), s) | _ \<Rightarrow> None)
       else json_begin_string stk tok
   | EndKey k \<Rightarrow> (case stk of
       ObjectFrame m # s \<Rightarrow> if tok = Colon then Some (BeginValue, KeyFrame m k # s) else None | _ \<Rightarrow> None)
   | EndValue v \<Rightarrow> json_end_value v stk tok)"

fun json_run :: "json_state \<Rightarrow> json_frame list \<Rightarrow> json_token list \<Rightarrow> cfg option" where
  "json_run st stk [] = (case (st, stk) of (EndValue v, []) \<Rightarrow> Some v | _ \<Rightarrow> None)"
| "json_run st stk (tok # toks) = (case json_step st stk tok of
     None \<Rightarrow> None | Some (st', stk') \<Rightarrow> json_run st' stk' toks)"

text \<open>\<^verbatim>\<open>json.Unmarshal(data, &v)\<close> for \<open>v\<close> of type \<^verbatim>\<open>interface{}\<close>; \<open>None\<close> is an error.\<close>

definition Unmarshal :: "string \<Rightarrow> cfg option" where
  "Unmarshal s = (case lex_json s of None \<Rightarrow> None | Some toks \<Rightarrow> json_run BeginValue [] toks)"

section \<open>Decoded values are well formed\<close>

fun wf_frame :: "json_frame \<Rightarrow> bool" where
  "wf_frame (ArrayFrame vs) = list_all wf_cfg vs"
| "wf_frame (ObjectFrame m) = wf_cfg (CMap m)"
| "wf_frame (KeyFrame m k) = wf_cfg (CMap m)"

fun wf_state :: "json_state \<Rightarrow> bool" where
  "wf_state (EndValue v) = wf_cfg v"
| "wf_state _ = True"

fun wf_token :: "json_token \<Rightarrow> bool" where
  "wf_token (ValueToken v) = wf_cfg v"
| "wf_token _ = True"

lemma wf_cfg_lookup: "wf_cfg (CMap m) \<Longrightarrow> map_of m k = Some c \<Longrightarrow> wf_cfg c"
  by (auto simp: list_all_iff dest: map_of_SomeD)

lemma list_all_map_set: "list_all (\<lambda>(k, v). P v) m \<Longrightarrow> P v \<Longrightarrow> list_all (\<lambda>(k, v). P v) (map_set m k v)"
  unfolding map_set_def by (induction m) auto

lemma wf_cfg_map_set: "wf_cfg (CMap m) \<Longrightarrow> wf_cfg v \<Longrightarrow> wf_cfg (CMap (map_set m k v))"
  by (simp add: list_all_map_set)

lemma json_begin_wf:
  assumes "json_begin_value stk tok = Some (st', stk')" "list_all wf_frame stk" "wf_token tok"
  shows "wf_state st'" "list_all wf_frame stk'"
  using assms by (auto simp: json_begin_value_def json_open_def wf_map_def split: json_token.splits if_splits)

lemma json_step_wf:
  assumes "json_step st stk tok = Some (st', stk')" "wf_state st" "list_all wf_frame stk" "wf_token tok"
  shows "wf_state st' \<and> list_all wf_frame stk'"
proof (cases st)
  case (EndValue v)
  with assms show ?thesis
    by (auto simp: json_step_def json_end_value_def wf_cfg_map_set [simplified] split: list.splits json_frame.splits if_splits)
qed (use assms in \<open>auto simp: json_step_def json_begin_string_def dest: json_begin_wf
      split: if_splits list.splits json_frame.splits json_token.splits\<close>)

lemma json_run_wf:
  "json_run st stk toks = Some v \<Longrightarrow> wf_state st \<Longrightarrow> list_all wf_frame stk \<Longrightarrow> list_all wf_token toks \<Longrightarrow> wf_cfg v"
proof (induction st stk toks rule: json_run.induct)
  case (1 st stk)
  then show ?case by (cases st) (auto split: list.splits)
next
  case (2 st stk tok toks)
  then show ?case by (auto split: option.splits dest: json_step_wf)
qed

lemma scan_scalar_wf: "scan_scalar s = Some (tok, t) \<Longrightarrow> wf_token tok"
  by (auto simp: scan_scalar_def json_literal_def split: if_splits option.splits)

lemma punctuation_wf: "punctuation c = Some tok \<Longrightarrow> wf_token tok"
  by (auto simp: punctuation_def split: if_splits)

lemma lex_wf: "lex_json s = Some toks \<Longrightarrow> list_all wf_token toks"
  by (induction s arbitrary: toks rule: lex_json.induct)
    (auto split: if_splits option.splits dest: scan_scalar_wf punctuation_wf)

lemma Unmarshal_wf: "Unmarshal s = Some v \<Longrightarrow> wf_cfg v"
  by (auto simp: Unmarshal_def split: option.splits dest: json_run_wf lex_wf)

section \<open>Printing\<close>

definition quote_char :: "char \<Rightarrow> string" where
  "quote_char c =
     (if c = dquote \<or> c = backslash then [backslash, c]
      else if byte c < 32 then [backslash, CHR ''u'', CHR ''0'', CHR ''0'', digit_char (nat (byte c div 16)), digit_char (nat (byte c mod 16))]
      else [c])"

definition quote_body :: "string \<Rightarrow> string" where
  "quote_body s = concat (map quote_char s)"

definition quote :: "string \<Rightarrow> string" where
  "quote s = dquote # quote_body s @ [dquote]"

fun show_json :: "cfg \<Rightarrow> string" where
  "show_json CNull = ''null''"
| "show_json (CBool b) = (if b then ''true'' else ''false'')"
| "show_json (CInt i) = show_int i"
| "show_json (CFloat f) = show_float f"
| "show_json (CStr s) = quote s"
| "show_json (CArr vs) = ''['' @ Join (map show_json vs) '','' @ '']''"
| "show_json (CMap m) = ''{'' @ Join (map (\<lambda>(k, v). quote k @ '':'' @ show_json v) m) '','' @ ''}''"

fun tokens :: "cfg \<Rightarrow> json_token list" where
  "tokens (CStr s) = [StringToken s]"
| "tokens (CArr vs) = OpenArray # Join (map tokens vs) [Comma] @ [CloseArray]"
| "tokens (CMap m) = OpenObject # Join (map (\<lambda>(k, v). StringToken k # Colon # tokens v) m) [Comma] @ [CloseObject]"
| "tokens v = [ValueToken v]"

function valid_utf8 :: "string \<Rightarrow> bool" where
  "valid_utf8 [] = True"
| "valid_utf8 (c # s) = (case take_rune (c # s) of None \<Rightarrow> False | Some (r, t) \<Rightarrow> valid_utf8 t)"
  by pat_completeness auto
termination
  by (relation "measure length") (auto dest!: take_rune_length)

text \<open>Values that JSON can carry: no integers, since its numbers are read as floats.\<close>

fun json_value :: "cfg \<Rightarrow> bool" where
  "json_value (CInt i) = False"
| "json_value (CFloat f) = finite_float f"
| "json_value (CStr s) = valid_utf8 s"
| "json_value (CArr vs) = list_all json_value vs"
| "json_value (CMap m) = (wf_map m \<and> list_all (\<lambda>(k, v). valid_utf8 k \<and> json_value v) m)"
| "json_value _ = True"

fun nesting :: "cfg \<Rightarrow> int" where
  "nesting (CArr vs) = 1 + foldr max (map nesting vs) 0"
| "nesting (CMap m) = 1 + foldr max (map (\<lambda>(k, v). nesting v) m) 0"
| "nesting _ = 0"

definition is_container :: "cfg \<Rightarrow> bool" where
  "is_container v = (case v of CArr _ \<Rightarrow> True | CMap _ \<Rightarrow> True | _ \<Rightarrow> False)"

section \<open>Strings read back\<close>

lemma char_at_byte [simp]: "char_at (byte c) = c"
  by (simp add: char_at_def byte_def)

lemma byte_range: "0 \<le> byte c" "byte c < 256"
proof -
  have b: "byte c = int (of_char c)" by (simp add: byte_def of_nat_of_char)
  show "0 \<le> byte c" by (simp add: b)
  have "(of_char c :: nat) < 256" by (rule nat_of_char_less_256)
  then show "byte c < 256" by (simp add: b)
qed

lemma hex_value_digit_char:
  assumes "n < 16"
  shows "hex_value (digit_char n) = Some (int n)"
proof -
  from assms have "n \<in> {0, 1, 2, 3, 4, 5, 6, 7, 8, 9, 10, 11, 12, 13, 14, 15}"
    unfolding insert_iff empty_iff by presburger
  then show ?thesis
    by (elim insertE emptyE) (simp_all add: hex_value_def digit_value_def lower_def byte_def digit_char_def)
qed

lemma control_digits:
  assumes "byte c < 32"
  shows "hex_value (digit_char (nat (byte c div 16))) = Some (byte c div 16)"
    and "hex_value (digit_char (nat (byte c mod 16))) = Some (byte c mod 16)"
    and "hex_value CHR ''0'' = Some 0"
  using assms byte_range [of c]
  by (auto simp: hex_value_digit_char) (simp add: hex_value_def digit_value_def byte_def)

lemma scan_quote_body: "scan_string (quote_body s @ dquote # rest) = Some (quote_body s, rest)"
proof (induction s)
  case (Cons c s)
  consider "c = dquote \<or> c = backslash" | "c \<noteq> dquote" "c \<noteq> backslash" "byte c < 32"
    | "c \<noteq> dquote" "c \<noteq> backslash" "\<not> byte c < 32" by blast
  then show ?case
  proof cases
    case 2
    with Cons control_digits [of c] show ?thesis by (simp add: quote_body_def quote_char_def)
  qed (use Cons in \<open>auto simp: quote_body_def quote_char_def\<close>)
qed (simp add: quote_body_def)

lemma take_rune_ascii: "byte c < 128 \<Longrightarrow> take_rune (c # s) = Some ([c], s)"
  by (simp add: take_rune_def rune_tail_def)

lemma take_rune_cases:
  assumes "take_rune (c # s) = Some (r, t)"
  obtains (ascii) "byte c < 128" "r = [c]" "t = s"
  | (wide) r' where "128 \<le> byte c" "r = c # r'" "s = r' @ t" "list_all (\<lambda>b. 128 \<le> byte b) r'"
      "\<And>u. take_rune (r @ u) = Some (r, u)"
proof (cases "byte c < 128")
  case True
  with assms show thesis by (intro ascii) (simp_all add: take_rune_ascii)
next
  case False
  from assms obtain n where n: "rune_tail c = Some n" "n \<le> length s" "tail_bytes c (take n s)"
    "r = c # take n s" "t = drop n s"
    by (auto simp: take_rune_def split: option.splits if_splits)
  have "list_all (\<lambda>b. 128 \<le> byte b) (take n s)"
    using n(3) by (cases "take n s") (auto simp: second_byte_def between_def list_all_iff split: if_splits)
  moreover have "take_rune (r @ u) = Some (r, u)" for u
    using n by (simp add: take_rune_def)
  ultimately show thesis using False n by (intro wide [of "take n s"]) auto
qed

lemma quote_body_wide: "list_all (\<lambda>b. 128 \<le> byte b) r \<Longrightarrow> quote_body (r @ s) = r @ quote_body s"
proof (induction r)
  case (Cons b r)
  then have "128 \<le> byte b" by simp
  then have "b \<noteq> dquote" "b \<noteq> backslash" by (auto simp: byte_def)
  with Cons show ?case by (simp add: quote_body_def quote_char_def)
qed simp

lemma read_u_no_escape: "c \<noteq> backslash \<Longrightarrow> read_u (c # s) = None"
  by (auto simp: read_u_def split: list.splits)

lemma read_u_other: "e \<noteq> CHR ''u'' \<Longrightarrow> read_u (c # e # s) = None"
  by (auto simp: read_u_def split: list.splits)

lemma unquote_quote_body: "valid_utf8 s \<Longrightarrow> unquote (quote_body s) = s"
proof (induction s rule: valid_utf8.induct)
  case (2 c s)
  from "2.prems" obtain r t where r: "take_rune (c # s) = Some (r, t)" "valid_utf8 t" by (auto split: option.splits)
  with "2.IH" have IH: "unquote (quote_body t) = t" by auto
  show ?case
  proof (cases rule: take_rune_cases [OF r(1), case_names ascii wide])
    case ascii
    consider "c = dquote \<or> c = backslash" | "c \<noteq> dquote" "c \<noteq> backslash" "byte c < 32"
      | "c \<noteq> dquote" "c \<noteq> backslash" "\<not> byte c < 32" by blast
    then show ?thesis
    proof cases
      case 1
      then have "quote_body (c # s) = backslash # c # quote_body s" "escaped c = c" "c \<noteq> CHR ''u''"
        by (auto simp: quote_body_def quote_char_def escaped_def)
      with IH \<open>t = s\<close> show ?thesis by (simp add: read_u_other)
    next
      case 2
      then have "quote_body (c # s) = [backslash, CHR ''u'', CHR ''0'', CHR ''0'', digit_char (nat (byte c div 16)), digit_char (nat (byte c mod 16))] @ quote_body s"
        by (simp add: quote_body_def quote_char_def)
      moreover have "read_u \<dots> = Some (byte c, quote_body s)"
        using control_digits [OF 2(3)] by (simp add: read_u_def)
      moreover have "encode_rune (byte c) = [c]" "\<not> is_surrogate (byte c)"
        using 2(3) by (simp_all add: encode_rune_def is_surrogate_def)
      ultimately show ?thesis using IH \<open>t = s\<close> by simp
    next
      case 3
      then have "quote_body (c # s) = c # quote_body s" by (simp add: quote_body_def quote_char_def)
      moreover have "take_rune (c # quote_body s) = Some ([c], quote_body s)"
        using ascii by (simp add: take_rune_ascii)
      ultimately show ?thesis using IH \<open>t = s\<close> 3 by (simp add: read_u_no_escape)
    qed
  next
    case (wide r')
    from wide(1) have "c \<noteq> backslash" by (auto simp: byte_def)
    moreover have "quote_body (c # s) = c # r' @ quote_body t"
      using quote_body_wide [of r t] wide by simp
    ultimately show ?thesis using wide(2,3) wide(5) [of "quote_body t"] IH by (simp add: read_u_no_escape)
  qed
qed (simp add: quote_body_def)

section \<open>Numbers read back\<close>

text \<open>Where a printed number ends: not before a digit, a point or an exponent.\<close>

definition number_ends :: "string \<Rightarrow> bool" where
  "number_ends s = (case s of [] \<Rightarrow> True | c # _ \<Rightarrow> \<not> is_digit c \<and> c \<notin> {CHR ''.'', CHR ''e'', CHR ''E''})"

lemma span_digits_append:
  "list_all is_digit ds \<Longrightarrow> number_ends s \<or> (\<exists>t. s = CHR ''e'' # t) \<Longrightarrow> span_digits (ds @ s) = (ds, s)"
  by (induction ds)
    (auto simp: span_digits_def number_ends_def is_digit_def digit_value_def byte_def split: list.splits)

lemma show_nat_zero: "hd (show_nat n) = CHR ''0'' \<Longrightarrow> show_nat n = ''0''"
proof (induction n rule: show_nat.induct)
  case (1 n)
  show ?case
  proof (cases "n < 10")
    case True
    with 1 show ?thesis by (subst show_nat_step, subst (asm) (2) show_nat_step) simp
  next
    case False
    with 1 have "show_nat (n div 10) = ''0''" by (subst (asm) (2) show_nat_step) simp
    then have "parse_digits 0 ''0'' = Some (int (n div 10))" using parse_digits_show_nat by metis
    with False show ?thesis by (simp add: digit_value_def byte_def)
  qed
qed

lemma scan_integer_show_nat:
  assumes "number_ends s \<or> (\<exists>t. s = CHR ''e'' # t)"
  shows "scan_integer (show_nat n @ s) = Some (show_nat n, s)"
proof -
  obtain d ds where ds: "show_nat n = d # ds" "is_digit d" "list_all is_digit ds"
    using show_nat_starts_with_digit by blast
  show ?thesis
  proof (cases "d = CHR ''0''")
    case True
    with show_nat_zero [of n] ds(1) show ?thesis by (simp add: scan_integer_def)
  next
    case False
    with ds span_digits_append [OF _ assms, of "d # ds"] show ?thesis by (simp add: scan_integer_def)
  qed
qed

lemma scan_number_show_float:
  assumes "finite_float f" "number_ends s"
  shows "scan_number (show_float f @ s) = Some (show_float f, s)"
proof -
  from assms(1) obtain negative m e where f: "f = FFin negative m e" "canonical m e" by (cases f) auto
  have sign: "scan_sign ((if negative then ''-'' else []) @ show_nat n @ t) = ((if negative then ''-'' else []), show_nat n @ t)" for n t
    using show_nat_starts_with_digit [of n] by (auto simp: scan_sign_def dest: digit_not_plain)
  from f(2) show ?thesis
  proof (cases rule: magnitude_cases)
    case (whole n)
    have "scan_fraction s = Some ([], s)" "scan_exponent s = Some ([], s)"
      using assms(2) by (auto simp: scan_fraction_def scan_exponent_def number_ends_def split: list.splits)
    with whole(1) f(1) sign [of n s] scan_integer_show_nat [of s n] assms(2) show ?thesis
      by (cases negative) (simp_all add: scan_number_def)
  next
    case (decimal n)
    let ?exp = "''e-'' @ show_nat (nat (- e))"
    have "scan_fraction (?exp @ s) = Some ([], ?exp @ s)" by (simp add: scan_fraction_def)
    moreover have "scan_exponent (?exp @ s) = Some (?exp, s)"
      using span_digits_append [OF show_nat_digits, of s] assms(2) by (simp add: scan_exponent_def)
    ultimately show ?thesis
      using decimal(1) f(1) sign [of n "?exp @ s"] scan_integer_show_nat [of "?exp @ s" n]
      by (cases negative) (simp_all add: scan_number_def)
  qed
qed

lemma show_float_starts: "finite_float f \<Longrightarrow> \<exists>c s. show_float f = c # s \<and> (c = CHR ''-'' \<or> is_digit c)"
proof (cases f)
  case (FFin negative m e)
  assume "finite_float f"
  with FFin have "canonical m e" by simp
  then obtain n t where "show_magnitude m e = show_nat n @ t"
    by (cases rule: magnitude_cases) (metis append.right_neutral, blast)
  with FFin show ?thesis using show_nat_starts_with_digit [of n] by auto
qed auto

section \<open>Tokens read back\<close>

lemma lex_scalar:
  assumes "scan_scalar (c # s) = Some (tok, t)" "\<not> is_json_space c" "punctuation c = None"
  shows "lex_json (c # s) = map_option (Cons tok) (lex_json t)"
  using assms by simp

lemma lex_punctuation:
  "punctuation c = Some tok \<Longrightarrow> lex_json (c # s) = map_option (Cons tok) (lex_json s)"
  by (auto simp: punctuation_def is_json_space_def byte_def split: if_splits)

lemma lex_number:
  assumes "finite_float f" "number_ends s"
  shows "lex_json (show_float f @ s) = map_option (Cons (ValueToken (CFloat f))) (lex_json s)"
proof -
  obtain c u where c: "show_float f = c # u" "c = CHR ''-'' \<or> is_digit c" using show_float_starts [OF assms(1)] by blast
  then have b: "byte c = 45 \<or> 48 \<le> byte c \<and> byte c \<le> 57"
    by (auto simp: is_digit_def digit_value_def byte_def split: if_splits)
  then have not: "c \<noteq> dquote" "c \<noteq> CHR ''t''" "c \<noteq> CHR ''f''" "c \<noteq> CHR ''n''" "punctuation c = None" "\<not> is_json_space c"
    by (auto simp: punctuation_def is_json_space_def byte_def)
  have "scan_scalar (c # u @ s) = Some (ValueToken (CFloat f), s)"
    using scan_number_show_float [OF assms] ParseFloat_show_float [OF assms(1)] c(1) not
    by (simp add: scan_scalar_def json_literal_def HasPrefix_def)
  then show ?thesis using c(1) not lex_scalar by simp
qed

lemma lex_string: "valid_utf8 s \<Longrightarrow> lex_json (quote s @ t) = map_option (Cons (StringToken s)) (lex_json t)"
proof -
  assume "valid_utf8 s"
  then have "scan_scalar (dquote # quote_body s @ dquote # t) = Some (StringToken s, t)"
    by (simp add: scan_scalar_def HasPrefix_def scan_quote_body unquote_quote_body)
  then show ?thesis
    by (simp add: quote_def lex_scalar is_json_space_def byte_def punctuation_def del: lex_json.simps)
qed

lemma lex_literal:
  "lex_json (''null'' @ t) = map_option (Cons (ValueToken CNull)) (lex_json t)"
  "lex_json (''true'' @ t) = map_option (Cons (ValueToken (CBool True))) (lex_json t)"
  "lex_json (''false'' @ t) = map_option (Cons (ValueToken (CBool False))) (lex_json t)"
  by (simp_all add: lex_scalar [of _ _ "ValueToken _" t] scan_scalar_def json_literal_def HasPrefix_def is_json_space_def byte_def
      punctuation_def del: lex_json.simps)

lemma number_ends_punctuation: "c \<in> {CHR '','', CHR '']'', CHR ''}''} \<Longrightarrow> number_ends (c # s)"
  by (auto simp: number_ends_def is_digit_def digit_value_def byte_def)

lemma lex_Join:
  assumes "\<And>x s. x \<in> set xs \<Longrightarrow> number_ends s \<Longrightarrow> lex_json (f x @ s) = map_option (append (g x)) (lex_json s)" "number_ends s"
  shows "lex_json (Join (map f xs) '','' @ s) = map_option (append (Join (map g xs) [Comma])) (lex_json s)"
  using assms(1)
proof (induction xs)
  case Nil
  then show ?case by (simp add: option.map_ident)
next
  case (Cons x xs)
  show ?case
  proof (cases xs)
    case Nil
    with Cons.prems [of x s] assms(2) show ?thesis by simp
  next
    case (Cons y ys)
    have "lex_json (f x @ CHR '','' # Join (map f xs) '','' @ s) =
        map_option (append (g x)) (map_option (Cons Comma) (lex_json (Join (map f xs) '','' @ s)))"
      using Cons.prems [of x] number_ends_punctuation by (simp add: lex_punctuation punctuation_def del: lex_json.simps)
    with Cons.IH Cons.prems Cons show ?thesis by (simp add: option.map_comp comp_def)
  qed
qed

lemma append_single: "append [x] = Cons x"
  by (simp add: fun_eq_iff)

lemma lex_show_json:
  "json_value v \<Longrightarrow> number_ends s \<Longrightarrow> lex_json (show_json v @ s) = map_option (append (tokens v)) (lex_json s)"
proof (induction v arbitrary: s)
  case (CArr vs)
  have "lex_json (Join (map show_json vs) '','' @ CHR '']'' # s) = map_option (append (Join (map tokens vs) [Comma])) (lex_json (CHR '']'' # s))"
    using CArr number_ends_punctuation by (intro lex_Join) (auto simp: list_all_iff)
  then show ?case by (simp add: lex_punctuation punctuation_def option.map_comp comp_def del: lex_json.simps)
next
  case (CMap m)
  have "lex_json (Join (map (\<lambda>(k, v). quote k @ '':'' @ show_json v) m) '','' @ CHR ''}'' # s) =
      map_option (append (Join (map (\<lambda>(k, v). StringToken k # Colon # tokens v) m) [Comma])) (lex_json (CHR ''}'' # s))"
  proof (intro lex_Join, clarify)
    fix k v s assume kv: "(k, v) \<in> set m" "number_ends s"
    with CMap.prems have "valid_utf8 k" "json_value v" by (auto simp: list_all_iff)
    with kv CMap.IH [of "(k, v)" v s] show "lex_json ((quote k @ '':'' @ show_json v) @ s) =
        map_option (append (StringToken k # Colon # tokens v)) (lex_json s)"
      by (cases "lex_json s") (simp_all add: lex_string lex_punctuation punctuation_def del: lex_json.simps)
  qed (auto intro: number_ends_punctuation)
  then show ?case by (simp add: lex_punctuation punctuation_def option.map_comp comp_def del: lex_json.simps)
qed (use lex_literal in \<open>auto simp: lex_number lex_string append_single simp del: lex_json.simps\<close>)

section \<open>Values read back\<close>

lemma json_begin_value_tokens:
  "st \<in> {BeginValue, BeginValueOrEmpty} \<Longrightarrow> json_value v \<Longrightarrow> \<not> is_container v \<Longrightarrow>
     json_run st stk (tokens v @ toks) = json_run (EndValue v) stk toks"
  by (cases v) (auto simp: json_step_def json_begin_value_def is_container_def)

text \<open>The elements of an array and the entries of an object, from the first one to the closing bracket.\<close>

lemma json_run_elements:
  assumes "\<And>x st acc toks. x \<in> set vs \<Longrightarrow> st \<in> {BeginValue, BeginValueOrEmpty} \<Longrightarrow>
      json_run st (ArrayFrame acc # stk) (tokens x @ toks) = json_run (EndValue x) (ArrayFrame acc # stk) toks"
    and "vs \<noteq> []" "st \<in> {BeginValue, BeginValueOrEmpty}"
  shows "json_run st (ArrayFrame acc # stk) (Join (map tokens vs) [Comma] @ CloseArray # toks) =
    json_run (EndValue (CArr (acc @ vs))) stk toks"
  using assms
proof (induction vs arbitrary: acc st)
  case (Cons v vs)
  note head = Cons.prems(1) [of v st acc]
  show ?case
  proof (cases vs)
    case Nil
    with head Cons.prems(3) show ?thesis by (simp add: json_step_def json_end_value_def)
  next
    case (Cons w ws)
    then have "json_run BeginValue (ArrayFrame (acc @ [v]) # stk) (Join (map tokens vs) [Comma] @ CloseArray # toks) =
        json_run (EndValue (CArr ((acc @ [v]) @ vs))) stk toks"
      using Cons.prems(1) by (intro Cons.IH) auto
    with Cons head Cons.prems(3) show ?thesis by (simp add: json_step_def json_end_value_def)
  qed
qed simp

lemma json_run_entries:
  assumes "\<And>k v acc toks. (k, v) \<in> set m \<Longrightarrow>
      json_run BeginValue (KeyFrame acc k # stk) (tokens v @ toks) = json_run (EndValue v) (KeyFrame acc k # stk) toks"
    and "m \<noteq> []" "st \<in> {BeginString, BeginStringOrEmpty}" "wf_map (acc @ m)"
  shows "json_run st (ObjectFrame acc # stk)
      (Join (map (\<lambda>(k, v). StringToken k # Colon # tokens v) m) [Comma] @ CloseObject # toks) =
    json_run (EndValue (CMap (acc @ m))) stk toks"
  using assms
proof (induction m arbitrary: acc st)
  case (Cons kv m)
  obtain k v where kv: "kv = (k, v)" by (cases kv)
  have head: "json_run st (ObjectFrame acc # stk) (StringToken k # Colon # tokens v @ u) =
      json_run (EndValue v) (KeyFrame acc k # stk) u" for u
    using Cons.prems(1) [of k v acc u] Cons.prems(3) by (auto simp: kv json_step_def json_begin_string_def)
  have "map_of acc k = None" using Cons.prems(4) by (auto simp: kv wf_map_def map_of_eq_None_iff)
  then have fresh: "map_set acc k v = acc @ [(k, v)]" by (rule map_set_fresh)
  show ?case
  proof (cases m)
    case Nil
    have "json_run (EndValue v) (KeyFrame acc k # stk) (CloseObject # toks) = json_run (EndValue (CMap (acc @ kv # m))) stk toks"
      using Nil fresh by (simp add: kv json_step_def json_end_value_def)
    with head [of "CloseObject # toks"] Nil show ?thesis by (simp add: kv del: json_run.simps)
  next
    case (Cons w ws)
    then have "json_run BeginString (ObjectFrame (acc @ [(k, v)]) # stk)
        (Join (map (\<lambda>(k, v). StringToken k # Colon # tokens v) m) [Comma] @ CloseObject # toks) =
        json_run (EndValue (CMap ((acc @ [(k, v)]) @ m))) stk toks"
      using Cons.prems(1,4) by (intro Cons.IH) (auto simp: kv)
    with Cons head fresh show ?thesis by (simp add: kv json_step_def json_end_value_def)
  qed
qed simp

lemma nesting_element: "v \<in> set vs \<Longrightarrow> nesting v \<le> foldr max (map nesting vs) 0"
  by (induction vs) auto

lemma nesting_entry: "(k, v) \<in> set m \<Longrightarrow> nesting v \<le> foldr max (map (\<lambda>(k, v). nesting v) m) 0"
  by (induction m) auto

lemma nesting_nonneg: "0 \<le> foldr max xs (0::int)"
  by (induction xs) auto

lemma json_run_tokens:
  "json_value v \<Longrightarrow> nesting v + go_len stk \<le> max_nesting_depth \<Longrightarrow> st \<in> {BeginValue, BeginValueOrEmpty} \<Longrightarrow>
     json_run st stk (tokens v @ toks) = json_run (EndValue v) stk toks"
proof (induction v arbitrary: st stk toks)
  case (CArr vs)
  from CArr.prems(2) nesting_nonneg have "go_len stk < max_nesting_depth" by (smt (verit) nesting.simps(1))
  then have "json_run st stk (tokens (CArr vs) @ toks) =
      json_run BeginValueOrEmpty (ArrayFrame [] # stk) (Join (map tokens vs) [Comma] @ CloseArray # toks)"
    using CArr.prems(3) by (auto simp: json_step_def json_begin_value_def json_open_def)
  also have "\<dots> = json_run (EndValue (CArr vs)) stk toks"
  proof (cases "vs = []")
    case True
    then show ?thesis by (simp add: json_step_def)
  next
    case False
    have "json_run s (ArrayFrame acc # stk) (tokens x @ u) = json_run (EndValue x) (ArrayFrame acc # stk) u"
      if "x \<in> set vs" "s \<in> {BeginValue, BeginValueOrEmpty}" for x s acc u
      using CArr.prems(1,2) that nesting_element [OF that(1)]
      by (intro CArr.IH) (auto simp: list_all_iff go_len_def)
    from json_run_elements [OF this False, of BeginValueOrEmpty "[]"] show ?thesis by simp
  qed
  finally show ?case .
next
  case (CMap m)
  from CMap.prems(2) nesting_nonneg have "go_len stk < max_nesting_depth" by (smt (verit) nesting.simps(2))
  then have "json_run st stk (tokens (CMap m) @ toks) = json_run BeginStringOrEmpty (ObjectFrame [] # stk)
      (Join (map (\<lambda>(k, v). StringToken k # Colon # tokens v) m) [Comma] @ CloseObject # toks)"
    using CMap.prems(3) by (auto simp: json_step_def json_begin_value_def json_open_def)
  also have "\<dots> = json_run (EndValue (CMap m)) stk toks"
  proof (cases "m = []")
    case True
    then show ?thesis by (simp add: json_step_def)
  next
    case False
    have "json_run BeginValue (KeyFrame acc k # stk) (tokens v @ u) = json_run (EndValue v) (KeyFrame acc k # stk) u"
      if "(k, v) \<in> set m" for k v acc u
      using CMap.prems(1,2) that nesting_entry [OF that]
      by (intro CMap.IH [of "(k, v)"]) (auto simp: list_all_iff go_len_def)
    from json_run_entries [OF this False, of BeginStringOrEmpty "[]"] CMap.prems(1) show ?thesis by simp
  qed
  finally show ?case .
qed (rule json_begin_value_tokens; simp add: is_container_def)+

text \<open>A value that JSON can carry, nested no deeper than the decoder accepts, reads back from its text.\<close>

lemma Unmarshal_show_json:
  assumes "json_value v" "nesting v \<le> max_nesting_depth"
  shows "Unmarshal (show_json v) = Some v"
proof -
  have "lex_json (show_json v) = Some (tokens v)"
    using lex_show_json [OF assms(1), of "[]"] by (simp add: number_ends_def)
  then show ?thesis
    using json_run_tokens [OF assms(1), of "[]" BeginValue "[]"] assms(2) by (simp add: Unmarshal_def go_len_def)
qed

end
