(* ===== verification/Storage_Provider.thy ===== *)
theory Storage_Provider
  imports Discovery Sample_Cluster
begin

text \<open>
  The storage of a ModelRepository: \<^verbatim>\<open>internal/controller/storage/storage_sc.go\<close> (the claim and
  what is read back from the volume bound to it), \<^verbatim>\<open>provider.go\<close> (the factory),
  \<^verbatim>\<open>storage_utils.go\<close> and \<^verbatim>\<open>common.go\<close>. The provider's pointer to the repository is a copy:
  the reconciler renews it wherever Go writes through the pointer.
\<close>

section \<open>Model\<close>

abbreviation DefaultModelStoragePath :: string where "DefaultModelStoragePath \<equiv> ''/data/models''"

abbreviation ModelRepositoryFinalizer :: string where
  "ModelRepositoryFinalizer \<equiv> ''modelrepository.aitrigram.cliver-project.github.io/finalizer''"

abbreviation LLMEngineFinalizer :: string where
  "LLMEngineFinalizer \<equiv> ''llmengine.aitrigram.cliver-project.github.io/finalizer''"

abbreviation StorageProtectionFinalizer :: string where
  "StorageProtectionFinalizer \<equiv> ''modelrepository.aitrigram.cliver-project.github.io/storage-protection''"

abbreviation LLMEngineStorageFinalizer :: string where
  "LLMEngineStorageFinalizer \<equiv> ''llmengine.aitrigram.cliver-project.github.io/storage-protection''"

definition getOrDefaultMountPath :: "string \<Rightarrow> string" where
  "getOrDefaultMountPath mountPath = (if mountPath = [] then DefaultModelStoragePath else mountPath)"

definition GetBoundNodeName :: "ModelRepository \<Rightarrow> string" where
  "GetBoundNodeName mr = (case mst_Storage (mr_Status mr) of Some s \<Rightarrow> ss_BoundNodeName s | None \<Rightarrow> [])"

definition GetStorageType :: "ModelRepository \<Rightarrow> string" where
  "GetStorageType mr = (case mst_Storage (mr_Status mr) of
     Some s \<Rightarrow> ss_StorageClass s | None \<Rightarrow> ms_StorageClass (mrs_Storage (mr_Spec mr)))"

definition RequiresNodeAffinity :: "ModelRepository \<Rightarrow> bool" where
  "RequiresNodeAffinity mr = (case mst_Storage (mr_Status mr) of
     None \<Rightarrow> False | Some s \<Rightarrow> ss_AccessMode s = ReadWriteOnce)"

record ProviderStatus =
  pst_Ready :: bool
  pst_Message :: string
  pst_BoundNodeName :: string
  pst_Capacity :: string

record StorageClassProvider =
  prov_modelRepo :: ModelRepository
  prov_storageSize :: string
  prov_storageClass :: string
  prov_mountPath :: string
  prov_pvcName :: string
  prov_detectedSCInfo :: StorageClassInfo

definition NewStorageClassProvider :: "ModelRepository \<Rightarrow> StorageClassInfo \<Rightarrow> StorageClassProvider" where
  "NewStorageClassProvider mr scInfo =
     \<lparr>prov_modelRepo = mr,
      prov_storageSize = ms_Size (mrs_Storage (mr_Spec mr)),
      prov_storageClass = ms_StorageClass (mrs_Storage (mr_Spec mr)),
      prov_mountPath = getOrDefaultMountPath (ms_MountPath (mrs_Storage (mr_Spec mr))),
      prov_pvcName = mr_Name mr @ ''-storage'',
      prov_detectedSCInfo = scInfo\<rparr>"

definition CreateProvider :: "'w reconciler \<Rightarrow> ModelRepository \<Rightarrow> ('w, go_error + StorageClassProvider) kio" where
  "CreateProvider r mr =
     (if ms_Size (mrs_Storage (mr_Spec mr)) = [] then ret (Inl (new_error ''storage size is required''))
      else do {
        sel \<leftarrow> SelectBestStorageClass r (ms_StorageClass (mrs_Storage (mr_Spec mr)));
        case sel of
          Inl err \<Rightarrow> ret (Inl (wrap_error ''failed to select storage class: '' err))
        | Inr scInfo \<Rightarrow> ret (Inr (NewStorageClassProvider mr scInfo)) })"

definition ValidateConfig :: "k8s_lib \<Rightarrow> StorageClassProvider \<Rightarrow> go_error option" where
  "ValidateConfig L p =
     (if prov_storageSize p = [] then Some (new_error ''storage size is required'')
      else case lib_ParseQuantity L (prov_storageSize p) of
        Inl err \<Rightarrow> Some (wrap_error (''invalid size \"'' @ prov_storageSize p @ ''\": '') err)
      | Inr _ \<Rightarrow> None)"

definition PrepareDownloadVolume :: "StorageClassProvider \<Rightarrow> Volume \<times> VolumeMount" where
  "PrepareDownloadVolume p =
     (\<lparr>v_Name = ''model-storage'', v_Source = PVCSource (prov_pvcName p) False\<rparr>,
      \<lparr>vm_Name = ''model-storage'', vm_MountPath = prov_mountPath p, vm_ReadOnly = False\<rparr>)"

definition GetMountPath :: "StorageClassProvider \<Rightarrow> string" where
  "GetMountPath p = prov_mountPath p"

definition IsShared :: "StorageClassProvider \<Rightarrow> bool" where
  "IsShared p = (sci_AccessMode (prov_detectedSCInfo p) = ReadWriteMany)"

text \<open>The claim that \<open>CreateStorage\<close> builds; \<open>MustParse\<close> may panic.\<close>

definition desired_claim :: "k8s_lib \<Rightarrow> StorageClassProvider \<Rightarrow> string \<Rightarrow> PersistentVolumeClaim option" where
  "desired_claim L p namespace = do {
     size \<leftarrow> MustParse L (prov_storageSize p);
     Some \<lparr>pvc_Meta = emptyMeta\<lparr>om_Name := prov_pvcName p, om_Namespace := namespace,
             om_Labels := [(''app.kubernetes.io/name'', ''model-storage''),
                           (''app.kubernetes.io/managed-by'', ''aitrigram-operator''),
                           (''aitrigram.io/model-repo'', mr_Name (prov_modelRepo p))],
             om_Finalizers := lib_AddFinalizer L [] StorageProtectionFinalizer\<rparr>,
           pvc_AccessModes = [sci_AccessMode (prov_detectedSCInfo p)],
           pvc_StorageClassName = (if sci_Name (prov_detectedSCInfo p) \<noteq> [] then Some (sci_Name (prov_detectedSCInfo p)) else None),
           pvc_VolumeName = [], pvc_StorageRequest = size, pvc_Phase = [], pvc_Capacity = None\<rparr> }"

definition CreateStorage :: "'w reconciler \<Rightarrow> StorageClassProvider \<Rightarrow> string \<Rightarrow> ('w, go_error option option) kio" where
  "CreateStorage r p namespace =
     or_panic (desired_claim (r_Lib r) p namespace) (\<lambda>pvc. do {
       existing \<leftarrow> api_Get OnPVC (cl_PVC (r_Client r)) (namespace, prov_pvcName p);
       case existing of
         Inr _ \<Rightarrow> ret (Some None)
       | Inl err \<Rightarrow>
           if \<not> IsNotFound err then ret (Some (Some (wrap_error ''failed to check PVC: '' err)))
           else do {
             e \<leftarrow> api_Create OnPVC (cl_PVC (r_Client r)) pvc;
             case e of
               Some err \<Rightarrow> ret (Some (Some (wrap_error ''failed to create PVC: '' err)))
             | None \<Rightarrow> ret (Some None) } })"

text \<open>Deleting a claim is given its key only, so it is reached whether or not the claim was found.\<close>

definition delete_claim :: "'w reconciler \<Rightarrow> okey \<Rightarrow> ('w, go_error option) kio" where
  "delete_claim r k = do {
     e \<leftarrow> api_Delete OnPVC (cl_PVC (r_Client r)) k False;
     case e of
       Some err \<Rightarrow> if IsNotFound err then ret None else ret (Some (wrap_error ''failed to delete PVC: '' err))
     | None \<Rightarrow> ret None }"

definition Cleanup :: "'w reconciler \<Rightarrow> StorageClassProvider \<Rightarrow> string \<Rightarrow> ('w, go_error option) kio" where
  "Cleanup r p namespace = do {
     existing \<leftarrow> api_Get OnPVC (cl_PVC (r_Client r)) (namespace, prov_pvcName p);
     case existing of
       Inr pvc \<Rightarrow> do {
         u \<leftarrow> api_Update OnPVC (cl_PVC (r_Client r))
                (pvc\<lparr>pvc_Meta := (pvc_Meta pvc)\<lparr>om_Finalizers :=
                   lib_RemoveFinalizer (r_Lib r) (om_Finalizers (pvc_Meta pvc)) StorageProtectionFinalizer\<rparr>\<rparr>);
         case u of
           Inl err \<Rightarrow> ret (Some (wrap_error ''failed to remove finalizer: '' err))
         | Inr _ \<Rightarrow> delete_claim r (namespace, prov_pvcName p) }
     | Inl _ \<Rightarrow> delete_claim r (namespace, prov_pvcName p) }"

definition GetStatus :: "'w reconciler \<Rightarrow> StorageClassProvider \<Rightarrow> string \<Rightarrow> ('w, ProviderStatus) kio" where
  "GetStatus r p namespace = do {
     g \<leftarrow> api_Get OnPVC (cl_PVC (r_Client r)) (namespace, prov_pvcName p);
     case g of
       Inl err \<Rightarrow> ret \<lparr>pst_Ready = False,
         pst_Message = (if IsNotFound err then ''PVC not created yet'' else ''Failed to get PVC: '' @ err_text err),
         pst_BoundNodeName = [], pst_Capacity = []\<rparr>
     | Inr pvc \<Rightarrow> ret \<lparr>pst_Ready = (pvc_Phase pvc = ClaimBound),
         pst_Message = (if pvc_Phase pvc = ClaimBound then ''PVC is bound and ready''
           else if pvc_Phase pvc = ClaimPending then ''PVC is pending, waiting for provisioning''
           else ''PVC is in '' @ pvc_Phase pvc @ '' state''),
         pst_BoundNodeName = [],
         pst_Capacity = (case pvc_Capacity pvc of Some c \<Rightarrow> c | None \<Rightarrow> [])\<rparr> }"

definition hostname_selector :: "string \<Rightarrow> NodeSelector" where
  "hostname_selector node = [[\<lparr>nsr_Key = ''kubernetes.io/hostname'', nsr_Operator = ''In'', nsr_Values = [node]\<rparr>]]"

definition GetNodeAffinity :: "StorageClassProvider \<Rightarrow> NodeSelector option" where
  "GetNodeAffinity p =
     (if sci_AccessMode (prov_detectedSCInfo p) = ReadWriteOnce then
        (case mst_Storage (mr_Status (prov_modelRepo p)) of
           Some s \<Rightarrow> if ss_BoundNodeName s \<noteq> [] then Some (hostname_selector (ss_BoundNodeName s)) else None
         | None \<Rightarrow> None)
      else None)"

text \<open>The first hostname expression of the volume's required terms, in order.\<close>

definition extractNodeNameFromPV :: "PersistentVolume \<Rightarrow> string" where
  "extractNodeNameFromPV pv = (case pv_NodeAffinity (pv_Spec pv) of
     Some (Some terms) \<Rightarrow>
       (case find (\<lambda>x. nsr_Key x = ''kubernetes.io/hostname'' \<and> nsr_Operator x = ''In'' \<and> nsr_Values x \<noteq> []) (concat terms) of
          Some x \<Rightarrow> hd (nsr_Values x)
        | None \<Rightarrow> [])
   | _ \<Rightarrow> [])"

definition csi_details :: "StorageClassProvider \<Rightarrow> string \<Rightarrow> string \<Rightarrow> CSIVolumeSource \<Rightarrow> smap" where
  "csi_details p namespace subPath csi =
     map_put_all
       [(''driver'', csi_Driver csi), (''volumeID'', csi_VolumeHandle csi), (''subPath'', subPath),
        (''pvcName'', prov_pvcName p), (''pvcNamespace'', namespace)]
       (map (\<lambda>(k, v). (''csi.'' @ k, v)) (csi_VolumeAttributes csi))"

definition csi_backend :: "StorageClassProvider \<Rightarrow> string \<Rightarrow> string \<Rightarrow> CSIVolumeSource \<Rightarrow> BackendReference" where
  "csi_backend p namespace subPath csi =
     (let details = csi_details p namespace subPath csi; attrs = csi_VolumeAttributes csi in
      if csi_Driver csi = ''nfs.csi.k8s.io'' then
        (case (map_of attrs ''server'', map_of attrs ''share'') of
           (Some server, Some share) \<Rightarrow>
             \<lparr>br_Type = BackendTypeNFS,
              br_Details = map_set (map_set (map_set details ''filesystemID'' (''nfs://'' @ server @ share))
                             ''server'' server) ''exportPath'' share\<rparr>
         | _ \<Rightarrow> \<lparr>br_Type = BackendTypeNFS, br_Details = details\<rparr>)
      else if csi_Driver csi = ''cephfs.csi.ceph.com'' then
        \<lparr>br_Type = BackendTypeCephFS,
         br_Details = map_set details ''filesystemID'' (''ceph://'' @ csi_VolumeHandle csi)\<rparr>
      else if csi_Driver csi = ''driver.longhorn.io'' then \<lparr>br_Type = BackendTypeLonghorn, br_Details = details\<rparr>
      else \<lparr>br_Type = BackendTypeCSI, br_Details = details\<rparr>)"

definition extractBackendFromPV :: "StorageClassProvider \<Rightarrow> PersistentVolume \<Rightarrow> string \<Rightarrow> go_error + BackendReference" where
  "extractBackendFromPV p pv namespace =
     (let subPath = ''/modelrepositories/'' @ mr_Name (prov_modelRepo p);
          src = pv_Source (pv_Spec pv);
          claim = [(''pvcName'', prov_pvcName p), (''pvcNamespace'', namespace)]
      in case pvs_NFS src of
        Some nfs \<Rightarrow> Inr \<lparr>br_Type = BackendTypeNFS, br_Details =
          [(''filesystemID'', ''nfs://'' @ nfs_Server nfs @ nfs_Path nfs), (''server'', nfs_Server nfs),
           (''exportPath'', nfs_Path nfs), (''subPath'', subPath)] @ claim\<rparr>
      | None \<Rightarrow> (case pvs_CSI src of
        Some csi \<Rightarrow> Inr (csi_backend p namespace subPath csi)
      | None \<Rightarrow> (case pvs_AWSElasticBlockStore src of
        Some (volumeID, fsType) \<Rightarrow> Inr \<lparr>br_Type = ''ebs'', br_Details =
          [(''volumeID'', volumeID), (''fsType'', fsType)] @ claim\<rparr>
      | None \<Rightarrow> (case pvs_GCEPersistentDisk src of
        Some (pdName, fsType) \<Rightarrow> Inr \<lparr>br_Type = ''gce-pd'', br_Details =
          [(''pdName'', pdName), (''fsType'', fsType)] @ claim\<rparr>
      | None \<Rightarrow> (case pvs_AzureDisk src of
        Some (diskName, diskURI) \<Rightarrow> Inr \<lparr>br_Type = ''azure-disk'', br_Details =
          [(''diskName'', diskName), (''diskURI'', diskURI)] @ claim\<rparr>
      | None \<Rightarrow> (case pvs_CephFS src of
        Some ceph \<Rightarrow>
          (let monitors = (case ceph_Monitors ceph of [] \<Rightarrow> [] | m # _ \<Rightarrow> m)
           in Inr \<lparr>br_Type = BackendTypeCephFS, br_Details =
             [(''filesystemID'', ''ceph://'' @ monitors @ ceph_Path ceph), (''monitors'', monitors),
              (''path'', ceph_Path ceph), (''subPath'', subPath)] @ claim\<rparr>)
      | None \<Rightarrow> (case pvs_Glusterfs src of
        Some (endpoints, path) \<Rightarrow> Inr \<lparr>br_Type = ''glusterfs'', br_Details =
          [(''filesystemID'', ''gluster://'' @ endpoints @ ''/'' @ path), (''endpoints'', endpoints),
           (''path'', path), (''subPath'', subPath)] @ claim\<rparr>
      | None \<Rightarrow> (case pvs_HostPath src of
        Some hp \<Rightarrow> Inr \<lparr>br_Type = BackendTypeHostPath, br_Details = [(''path'', hp_Path hp)] @ claim\<rparr>
      | None \<Rightarrow> Inl (new_error (''unable to determine backend type for PV '' @ om_Name (pv_Meta pv) @
                        '' (no recognized volume source found)''))))))))))"

definition GetStorageStatus :: "'w reconciler \<Rightarrow> StorageClassProvider \<Rightarrow> string \<Rightarrow> ('w, go_error + StorageStatus) kio" where
  "GetStorageStatus r p namespace = do {
     g \<leftarrow> api_Get OnPVC (cl_PVC (r_Client r)) (namespace, prov_pvcName p);
     case g of
       Inl err \<Rightarrow> ret (Inl err)
     | Inr pvc \<Rightarrow>
         if pvc_Phase pvc \<noteq> ClaimBound \<or> pvc_VolumeName pvc = [] then
           ret (Inl (new_error (''PVC '' @ namespace @ ''/'' @ prov_pvcName p @ '' is not bound yet (phase: '' @ pvc_Phase pvc @ '')'')))
         else do {
           g' \<leftarrow> api_Get OnPV (cl_PV (r_Client r)) ([], pvc_VolumeName pvc);
           case g' of
             Inl err \<Rightarrow> ret (Inl (wrap_error (''failed to get PV '' @ pvc_VolumeName pvc @ '': '') err))
           | Inr pv \<Rightarrow>
               (case extractBackendFromPV p pv namespace of
                  Inl err \<Rightarrow> ret (Inl (wrap_error (''failed to extract backend from PV '' @ pvc_VolumeName pvc @ '': '') err))
                | Inr backendRef \<Rightarrow> ret (Inr
                    \<lparr>ss_StorageClass = sci_Name (prov_detectedSCInfo p),
                     ss_AccessMode = sci_AccessMode (prov_detectedSCInfo p),
                     ss_VolumeMode = ''Filesystem'',
                     ss_BackendRef = Some backendRef,
                     ss_BoundNodeName = (if sci_AccessMode (prov_detectedSCInfo p) = ReadWriteOnce then extractNodeNameFromPV pv else []),
                     ss_Capacity = (case pvc_Capacity pvc of Some c \<Rightarrow> c | None \<Rightarrow> [])\<rparr>)) } }"

section \<open>Lemmas\<close>

lemma desired_claim_defined: "ValidateConfig L p = None \<Longrightarrow> \<exists>pvc. desired_claim L p ns = Some pvc"
  by (auto simp: ValidateConfig_def desired_claim_def MustParse_def split: if_splits sum.splits)

lemma desired_claim_meta:
  "desired_claim L p ns = Some pvc \<Longrightarrow>
     om_Name (pvc_Meta pvc) = prov_pvcName p \<and> om_Namespace (pvc_Meta pvc) = ns \<and>
     om_Finalizers (pvc_Meta pvc) = lib_AddFinalizer L [] StorageProtectionFinalizer \<and>
     pvc_AccessModes pvc = [sci_AccessMode (prov_detectedSCInfo p)]"
  by (auto simp: desired_claim_def bind_eq_Some_conv)

lemma map_of_put_all_other:
  "k \<notin> fst ` set src \<Longrightarrow> map_of (map_put_all dst src) k = map_of dst k"
  by (induction src arbitrary: dst) auto

lemma map_of_put_all_prefixed:
  "map_of (map_put_all dst (map (\<lambda>(k, v). (pre @ k, v)) attrs)) k = map_of dst k" if "\<not> HasPrefix k pre"
  using that by (intro map_of_put_all_other) (auto simp: HasPrefix_def)

lemma csi_details_lookup:
  "\<not> HasPrefix k ''csi.'' \<Longrightarrow> map_of (csi_details p ns sub csi) k =
     map_of [(''driver'', csi_Driver csi), (''volumeID'', csi_VolumeHandle csi), (''subPath'', sub),
        (''pvcName'', prov_pvcName p), (''pvcNamespace'', ns)] k"
  unfolding csi_details_def by (rule map_of_put_all_prefixed)

lemma csi_backend_claim:
  "map_of (br_Details (csi_backend p ns sub csi)) ''pvcName'' = Some (prov_pvcName p) \<and>
   map_of (br_Details (csi_backend p ns sub csi)) ''pvcNamespace'' = Some ns"
  by (auto simp: csi_backend_def csi_details_lookup HasPrefix_def Let_def split: option.splits)

section \<open>Properties\<close>

definition creates_claim_once :: "k8s_lib \<Rightarrow> StorageClassProvider \<Rightarrow> string \<Rightarrow> event list \<Rightarrow> bool" where
  "creates_claim_once L p ns evs = (\<exists>ans. evs = [OnPVC (Get (ns, prov_pvcName p) ans)] \<or>
     (\<exists>err pvc e. ans = Inl err \<and> IsNotFound err \<and>
        evs = [OnPVC (Get (ns, prov_pvcName p) ans), OnPVC (Create pvc e)] \<and>
        om_Name (pvc_Meta pvc) = prov_pvcName p \<and> om_Namespace (pvc_Meta pvc) = ns \<and>
        om_Finalizers (pvc_Meta pvc) = lib_AddFinalizer L [] StorageProtectionFinalizer \<and>
        pvc_AccessModes pvc = [sci_AccessMode (prov_detectedSCInfo p)]))"

text \<open>
  (C25) CreateStorage after a successful validation: it does not panic, it looks at exactly one
  claim, and creates it (protected by the finalizer, with the access mode of the chosen
  StorageClass) only when the server answered that it does not exist; an existing claim is
  left alone.
\<close>

theorem CreateStorage_creates_once:
  assumes "ValidateConfig (r_Lib r) p = None"
  shows "spec (CreateStorage r p ns) (\<lambda>res evs. res \<noteq> None \<and> creates_claim_once (r_Lib r) p ns evs)"
proof -
  from assms obtain pvc where "desired_claim (r_Lib r) p ns = Some pvc"
    using desired_claim_defined by blast
  with desired_claim_meta [OF this] show ?thesis
    unfolding CreateStorage_def creates_claim_once_def
    by (simp, intro spec_intros) auto
qed

theorem CreateStorage_creates_once_witness:
  "spec (CreateStorage mem_reconciler (NewStorageClassProvider sample_repo (categorizeStorageClass
      \<lparr>sc_Meta = emptyMeta, sc_Provisioner = ''driver.longhorn.io''\<rparr>)) ''aitrigram-system'')
    (\<lambda>res evs. res \<noteq> None \<and> creates_claim_once mem_lib (NewStorageClassProvider sample_repo (categorizeStorageClass
      \<lparr>sc_Meta = emptyMeta, sc_Provisioner = ''driver.longhorn.io''\<rparr>)) ''aitrigram-system'' evs)"
  using CreateStorage_creates_once [of mem_reconciler]
  by (simp add: ValidateConfig_def NewStorageClassProvider_def sample_repo_def mem_lib_def)

definition status_of_bound_claim :: "StorageClassProvider \<Rightarrow> string \<Rightarrow> StorageStatus \<Rightarrow> event list \<Rightarrow> bool" where
  "status_of_bound_claim p ns st evs = (\<exists>pvc pv br.
     evs = [OnPVC (Get (ns, prov_pvcName p) (Inr pvc)), OnPV (Get ([], pvc_VolumeName pvc) (Inr pv))] \<and>
     pvc_Phase pvc = ClaimBound \<and> pvc_VolumeName pvc \<noteq> [] \<and>
     extractBackendFromPV p pv ns = Inr br \<and> ss_BackendRef st = Some br \<and>
     ss_AccessMode st = sci_AccessMode (prov_detectedSCInfo p) \<and>
     ss_BoundNodeName st = (if sci_AccessMode (prov_detectedSCInfo p) = ReadWriteOnce then extractNodeNameFromPV pv else []))"

text \<open>
  A storage status is reported only for a claim that the server answered is bound: the
  run reads the claim and then its volume, and the backend reference is the one extracted
  from that volume.
\<close>

lemma GetStorageStatus_bound:
  "spec (GetStorageStatus r p ns) (\<lambda>res evs. case res of
     Inl err \<Rightarrow> list_all (\<lambda>e. case e of OnPVC (Get _ _) \<Rightarrow> True | OnPV (Get _ _) \<Rightarrow> True | _ \<Rightarrow> False) evs
   | Inr st \<Rightarrow> status_of_bound_claim p ns st evs)"
  unfolding GetStorageStatus_def status_of_bound_claim_def
  by (intro spec_intros) auto

text \<open>
  Every backend reference names the claim it came from, whatever the volume's source and
  whatever the volume attributes of a CSI driver are called.
\<close>

lemma extractBackendFromPV_names_claim:
  assumes "extractBackendFromPV p pv ns = Inr br"
  shows "map_of (br_Details br) ''pvcName'' = Some (prov_pvcName p) \<and>
    map_of (br_Details br) ''pvcNamespace'' = Some ns"
  using assms csi_backend_claim
  by (auto simp: extractBackendFromPV_def Let_def split: option.splits prod.splits)

lemma extractBackendFromPV_names_claim_witness:
  "map_of [(''path'', ''/mnt/models''), (''pvcName'', ''llama-storage''), (''pvcNamespace'', ''aitrigram-system'')] ''pvcName''
     = Some ''llama-storage''"
  using extractBackendFromPV_names_claim [of
      "NewStorageClassProvider sample_repo (categorizeStorageClass \<lparr>sc_Meta = emptyMeta, sc_Provisioner = ''local''\<rparr>)"
      "\<lparr>pv_Meta = emptyMeta, pv_Spec = \<lparr>pv_Capacity = ''10Gi'', pv_AccessModes = [], pv_VolumeMode = None,
         pv_Source = noVolumeSource\<lparr>pvs_HostPath := Some \<lparr>hp_Path = ''/mnt/models'', hp_Type = None\<rparr>\<rparr>,
         pv_ClaimRef = None, pv_ReclaimPolicy = [], pv_NodeAffinity = None\<rparr>\<rparr>" "''aitrigram-system''"
      "\<lparr>br_Type = ''hostpath'', br_Details =
         [(''path'', ''/mnt/models''), (''pvcName'', ''llama-storage''), (''pvcNamespace'', ''aitrigram-system'')]\<rparr>"]
  by (simp add: extractBackendFromPV_def noVolumeSource_def NewStorageClassProvider_def sample_repo_def emptyMeta_def)

definition cleans_claim :: "k8s_lib \<Rightarrow> okey \<Rightarrow> event list \<Rightarrow> bool" where
  "cleans_claim L k evs = (\<exists>ans. hd evs = OnPVC (Get k ans) \<and>
     (case ans of
        Inl _ \<Rightarrow> \<exists>e. tl evs = [OnPVC (Delete k False e)]
      | Inr pvc \<Rightarrow> \<exists>u. hd (tl evs) = OnPVC (Update (pvc\<lparr>pvc_Meta := (pvc_Meta pvc)\<lparr>om_Finalizers :=
            lib_RemoveFinalizer L (om_Finalizers (pvc_Meta pvc)) StorageProtectionFinalizer\<rparr>\<rparr>) u) \<and>
          (case u of Inl _ \<Rightarrow> tl (tl evs) = [] | Inr _ \<Rightarrow> \<exists>e. tl (tl evs) = [OnPVC (Delete k False e)])))"

text \<open>
  Cleanup touches only the repository's own claim, and it deletes the claim only after the
  server accepted the removal of its protection finalizer, or when the claim was not found.
\<close>

lemma Cleanup_own_claim:
  "spec (Cleanup r p ns) (\<lambda>res evs. cleans_claim (r_Lib r) (ns, prov_pvcName p) evs)"
  unfolding Cleanup_def delete_claim_def
  by (intro spec_intros) (auto simp: cleans_claim_def)

end
