(* ===== verification/Engine_Storage.thy ===== *)
theory Engine_Storage
  imports Storage_Provider Names
begin

text \<open>
  \<^verbatim>\<open>internal/controller/storage/llmengine_storage.go\<close>: for every model of an engine a read-only
  volume and claim in the engine's namespace that mirror the repository's backend. A result
  \<open>None\<close> is a panic (of a name, or of \<^verbatim>\<open>resource.MustParse\<close>).
\<close>

section \<open>Model\<close>

record LLMEngineStorageResult =
  lsr_PVCName :: string
  lsr_MountPath :: string

text \<open>\<^verbatim>\<open>for k, v := range details { if strings.HasPrefix(k, "csi.") ... }\<close>\<close>

definition csi_attributes :: "smap \<Rightarrow> smap" where
  "csi_attributes details =
     map_put_all [] (map (\<lambda>(k, v). (TrimPrefix k ''csi.'', v)) (filter (\<lambda>(k, v). HasPrefix k ''csi.'') details))"

text \<open>The volume source of the mirrored volume, and its node affinity.\<close>

definition mirror_source :: "BackendReference \<Rightarrow> StorageStatus \<Rightarrow> go_error + PersistentVolumeSource \<times> NodeSelector option option" where
  "mirror_source backendRef st =
     (let details = br_Details backendRef in
      if br_Type backendRef = BackendTypeNFS then
        (let server = smap_get details ''server''; exportPath = smap_get details ''exportPath'' in
         if server = [] \<or> exportPath = [] then Inl (new_error ''NFS backend missing server or exportPath'')
         else Inr (noVolumeSource\<lparr>pvs_NFS := Some \<lparr>nfs_Server = server, nfs_Path = exportPath, nfs_ReadOnly = True\<rparr>\<rparr>, None))
      else if br_Type backendRef = BackendTypeHostPath then
        (let path = smap_get details ''path'' in
         if path = [] then Inl (new_error ''hostpath backend missing path'')
         else Inr (noVolumeSource\<lparr>pvs_HostPath := Some \<lparr>hp_Path = path, hp_Type = Some ''Directory''\<rparr>\<rparr>,
                   if ss_BoundNodeName st \<noteq> [] then Some (Some (hostname_selector (ss_BoundNodeName st))) else None))
      else if br_Type backendRef = BackendTypeCephFS then
        (let monitors = smap_get details ''monitors''; path = smap_get details ''path'' in
         if monitors = [] then Inl (new_error ''cephfs backend missing monitors'')
         else Inr (noVolumeSource\<lparr>pvs_CephFS := Some \<lparr>ceph_Monitors = [monitors], ceph_Path = path, ceph_ReadOnly = True\<rparr>\<rparr>, None))
      else if br_Type backendRef = BackendTypeLonghorn \<or> br_Type backendRef = BackendTypeCSI then
        (let driver = smap_get details ''driver''; volumeID = smap_get details ''volumeID'' in
         if driver = [] \<or> volumeID = [] then Inl (new_error ''CSI backend missing driver or volumeID'')
         else Inr (noVolumeSource\<lparr>pvs_CSI := Some \<lparr>csi_Driver = driver, csi_VolumeHandle = volumeID, csi_ReadOnly = True,
                     csi_VolumeAttributes = csi_attributes details\<rparr>\<rparr>, None))
      else Inl (new_error (''unsupported backend type: '' @ br_Type backendRef)))"

definition buildReadOnlyPVSpec :: "k8s_lib \<Rightarrow> BackendReference \<Rightarrow> StorageStatus \<Rightarrow> (go_error + PersistentVolumeSpec) option" where
  "buildReadOnlyPVSpec L backendRef st = do {
     let capacity = (if ss_Capacity st = [] then ''10Gi'' else ss_Capacity st);
     q \<leftarrow> MustParse L capacity;
     case mirror_source backendRef st of
       Inl err \<Rightarrow> Some (Inl err)
     | Inr (src, affinity) \<Rightarrow> Some (Inr
         \<lparr>pv_Capacity = q, pv_AccessModes = [ReadOnlyMany], pv_VolumeMode = Some ''Filesystem'', pv_Source = src,
          pv_ClaimRef = None, pv_ReclaimPolicy = [], pv_NodeAffinity = affinity\<rparr>) }"

definition engine_storage_labels :: "LLMEngine \<Rightarrow> string \<Rightarrow> smap" where
  "engine_storage_labels le repo =
     [(''app.kubernetes.io/managed-by'', ''aitrigram-operator''),
      (''llmengine.aitrigram.cliver-project.github.io'', le_Name le),
      (''aitrigram.io/model-repo'', repo)]"

definition engine_pv :: "k8s_lib \<Rightarrow> LLMEngine \<Rightarrow> string \<Rightarrow> string \<Rightarrow> string \<Rightarrow> PersistentVolumeSpec \<Rightarrow> PersistentVolume" where
  "engine_pv L le repo pvName pvcName pvSpec =
     \<lparr>pv_Meta = emptyMeta\<lparr>om_Name := pvName, om_Labels := engine_storage_labels le repo,
        om_Finalizers := lib_AddFinalizer L [] LLMEngineStorageFinalizer\<rparr>,
      pv_Spec = pvSpec\<lparr>pv_ClaimRef := Some (le_Namespace le, pvcName), pv_ReclaimPolicy := ''Retain''\<rparr>\<rparr>"

definition engine_pvc :: "k8s_lib \<Rightarrow> LLMEngine \<Rightarrow> string \<Rightarrow> string \<Rightarrow> string \<Rightarrow> quantity \<Rightarrow> PersistentVolumeClaim" where
  "engine_pvc L le repo pvName pvcName q =
     \<lparr>pvc_Meta = emptyMeta\<lparr>om_Name := pvcName, om_Namespace := le_Namespace le,
        om_Labels := engine_storage_labels le repo,
        om_Finalizers := lib_AddFinalizer L [] LLMEngineStorageFinalizer\<rparr>,
      pvc_AccessModes = [ReadOnlyMany], pvc_StorageClassName = None, pvc_VolumeName = pvName,
      pvc_StorageRequest = q, pvc_Phase = [], pvc_Capacity = None\<rparr>"

definition ensure_pv :: "'w reconciler \<Rightarrow> PersistentVolume \<Rightarrow> ('w, go_error option) kio" where
  "ensure_pv r pv = do {
     existing \<leftarrow> api_Get OnPV (cl_PV (r_Client r)) ([], om_Name (pv_Meta pv));
     case existing of
       Inr _ \<Rightarrow> ret None
     | Inl err \<Rightarrow>
         if \<not> IsNotFound err then ret (Some (wrap_error (''failed to check PV '' @ om_Name (pv_Meta pv) @ '': '') err))
         else do {
           e \<leftarrow> api_Create OnPV (cl_PV (r_Client r)) pv;
           ret (map_option (wrap_error (''failed to create PV '' @ om_Name (pv_Meta pv) @ '': '')) e) } }"

definition ensure_pvc :: "'w reconciler \<Rightarrow> PersistentVolumeClaim \<Rightarrow> string \<Rightarrow> ('w, go_error + LLMEngineStorageResult) kio" where
  "ensure_pvc r pvc mountPath = (let pvcName = om_Name (pvc_Meta pvc); namespace = om_Namespace (pvc_Meta pvc) in do {
     existing \<leftarrow> api_Get OnPVC (cl_PVC (r_Client r)) (namespace, pvcName);
     case existing of
       Inl err \<Rightarrow>
         if \<not> IsNotFound err then ret (Inl (wrap_error (''failed to check PVC '' @ pvcName @ '': '') err))
         else do {
           e \<leftarrow> api_Create OnPVC (cl_PVC (r_Client r)) pvc;
           case e of
             Some err \<Rightarrow> ret (Inl (wrap_error (''failed to create PVC '' @ pvcName @ '': '') err))
           | None \<Rightarrow> ret (Inl (new_error (''PVC '' @ namespace @ ''/'' @ pvcName @ '' created, waiting for binding''))) }
     | Inr existingPVC \<Rightarrow>
         if pvc_Phase existingPVC \<noteq> ClaimBound then
           ret (Inl (new_error (''PVC '' @ namespace @ ''/'' @ pvcName @ '' not bound yet (phase: '' @ pvc_Phase existingPVC @ '')'')))
         else ret (Inr \<lparr>lsr_PVCName = pvcName, lsr_MountPath = mountPath\<rparr>) })"

text \<open>
  \<open>EnsureLLMEngineStorage\<close>: the request of the claim is parsed after the volume was created, so
  that panic leaves the volume behind.
\<close>

definition EnsureLLMEngineStorage ::
  "'w reconciler \<Rightarrow> LLMEngine \<Rightarrow> ModelRepository \<Rightarrow> ('w, (go_error + LLMEngineStorageResult) option) kio" where
  "EnsureLLMEngineStorage r le mr =
     (case mst_Storage (mr_Status mr) of
        None \<Rightarrow> ret (Some (Inl (new_error (''ModelRepository '' @ mr_Name mr @ '' storage status not available''))))
      | Some st \<Rightarrow> (case ss_BackendRef st of
          None \<Rightarrow> ret (Some (Inl (new_error (''ModelRepository '' @ mr_Name mr @ '' storage status not available''))))
        | Some backendRef \<Rightarrow>
            or_panic (llmEnginePVName (le_Name le) (mr_Name mr)) (\<lambda>pvName.
            or_panic (llmEnginePVCName (le_Name le) (mr_Name mr)) (\<lambda>pvcName.
            or_panic (buildReadOnlyPVSpec (r_Lib r) backendRef st) (\<lambda>built.
              case built of
                Inl err \<Rightarrow> ret (Some (Inl (wrap_error (''unsupported backend type \"'' @ br_Type backendRef @ ''\": '') err)))
              | Inr pvSpec \<Rightarrow> do {
                  e \<leftarrow> ensure_pv r (engine_pv (r_Lib r) le (mr_Name mr) pvName pvcName pvSpec);
                  case e of
                    Some err \<Rightarrow> ret (Some (Inl err))
                  | None \<Rightarrow>
                      or_panic (MustParse (r_Lib r) (ss_Capacity st)) (\<lambda>q. do {
                        res \<leftarrow> ensure_pvc r (engine_pvc (r_Lib r) le (mr_Name mr) pvName pvcName q)
                                 (getOrDefaultMountPath (ms_MountPath (mrs_Storage (mr_Spec mr))));
                        ret (Some res) }) })))))"

definition release_pvc :: "'w reconciler \<Rightarrow> okey \<Rightarrow> ('w, go_error option) kio" where
  "release_pvc r k = do {
     existing \<leftarrow> api_Get OnPVC (cl_PVC (r_Client r)) k;
     case existing of
       Inl _ \<Rightarrow> ret None
     | Inr pvc \<Rightarrow> do {
         u \<leftarrow> api_Update OnPVC (cl_PVC (r_Client r))
                (pvc\<lparr>pvc_Meta := (pvc_Meta pvc)\<lparr>om_Finalizers :=
                   lib_RemoveFinalizer (r_Lib r) (om_Finalizers (pvc_Meta pvc)) LLMEngineStorageFinalizer\<rparr>\<rparr>);
         case u of
           Inl err \<Rightarrow> ret (Some (wrap_error (''failed to remove finalizer from PVC '' @ snd k @ '': '') err))
         | Inr _ \<Rightarrow> do {
             e \<leftarrow> api_Delete OnPVC (cl_PVC (r_Client r)) k False;
             case e of
               Some err \<Rightarrow> if IsNotFound err then ret None
                 else ret (Some (wrap_error (''failed to delete PVC '' @ fst k @ ''/'' @ snd k @ '': '') err))
             | None \<Rightarrow> ret None } } }"

definition release_pv :: "'w reconciler \<Rightarrow> string \<Rightarrow> ('w, go_error option) kio" where
  "release_pv r pvName = do {
     existing \<leftarrow> api_Get OnPV (cl_PV (r_Client r)) ([], pvName);
     case existing of
       Inl _ \<Rightarrow> ret None
     | Inr pv \<Rightarrow> do {
         u \<leftarrow> api_Update OnPV (cl_PV (r_Client r))
                (pv\<lparr>pv_Meta := (pv_Meta pv)\<lparr>om_Finalizers :=
                   lib_RemoveFinalizer (r_Lib r) (om_Finalizers (pv_Meta pv)) LLMEngineStorageFinalizer\<rparr>\<rparr>);
         case u of
           Inl err \<Rightarrow> ret (Some (wrap_error (''failed to remove finalizer from PV '' @ pvName @ '': '') err))
         | Inr _ \<Rightarrow> do {
             e \<leftarrow> api_Delete OnPV (cl_PV (r_Client r)) ([], pvName) False;
             case e of
               Some err \<Rightarrow> if IsNotFound err then ret None
                 else ret (Some (wrap_error (''failed to delete PV '' @ pvName @ '': '') err))
             | None \<Rightarrow> ret None } } }"

definition CleanupLLMEngineStorage :: "'w reconciler \<Rightarrow> LLMEngine \<Rightarrow> string \<Rightarrow> ('w, go_error option option) kio" where
  "CleanupLLMEngineStorage r le repo =
     or_panic (llmEnginePVName (le_Name le) repo) (\<lambda>pvName.
     or_panic (llmEnginePVCName (le_Name le) repo) (\<lambda>pvcName. do {
       e \<leftarrow> release_pvc r (le_Namespace le, pvcName);
       case e of
         Some err \<Rightarrow> ret (Some (Some err))
       | None \<Rightarrow> do { e' \<leftarrow> release_pv r pvName; ret (Some e') } }))"

section \<open>Attributes survive the detour through the backend reference\<close>

lemma inj_csi_key: "inj_on (\<lambda>k. TrimPrefix k ''csi.'') {k. HasPrefix k ''csi.''}"
proof (rule inj_onI)
  fix a b
  assume "a \<in> {k. HasPrefix k ''csi.''}" "b \<in> {k. HasPrefix k ''csi.''}"
  then obtain a' b' where "a = ''csi.'' @ a'" "b = ''csi.'' @ b'"
    by (auto simp: HasPrefix_def prefix_def)
  moreover assume "TrimPrefix a ''csi.'' = TrimPrefix b ''csi.''"
  ultimately show "a = b" by (simp only: TrimPrefix_append)
qed

lemma wf_csi_source:
  "wf_map d \<Longrightarrow> wf_map (map (\<lambda>(k, v). (TrimPrefix k ''csi.'', v)) (filter (\<lambda>(k, v). HasPrefix k ''csi.'') d))"
proof -
  assume "wf_map d"
  let ?d = "filter (\<lambda>(k, v). HasPrefix k ''csi.'') d"
  have fst_eq: "fst \<circ> (\<lambda>(k, v). (TrimPrefix k ''csi.'', v)) = (\<lambda>k. TrimPrefix k ''csi.'') \<circ> fst"
    by auto
  have "distinct (map fst ?d)"
    using \<open>wf_map d\<close> by (simp add: wf_map_def distinct_map_filter)
  moreover have "inj_on (\<lambda>k. TrimPrefix k ''csi.'') (set (map fst ?d))"
    by (rule inj_on_subset [OF inj_csi_key]) auto
  ultimately have "distinct (map (\<lambda>k. TrimPrefix k ''csi.'') (map fst ?d))"
    by (simp only: distinct_map simp_thms)
  then show ?thesis by (simp only: wf_map_def map_map fst_eq)
qed

lemma map_of_csi_source:
  "map_of (map (\<lambda>(k, v). (TrimPrefix k ''csi.'', v)) (filter (\<lambda>(k, v). HasPrefix k ''csi.'') d)) k =
   map_of d (''csi.'' @ k)"
proof (induction d)
  case (Cons kv d)
  obtain k' v where kv: "kv = (k', v)" by (cases kv)
  show ?case
  proof (cases "HasPrefix k' ''csi.''")
    case True
    then obtain k'' where "k' = ''csi.'' @ k''" by (auto simp: HasPrefix_def prefix_def)
    then show ?thesis using Cons.IH by (simp add: kv HasPrefix_def TrimPrefix_def)
  next
    case False
    then have "k' \<noteq> ''csi.'' @ k" by (auto simp: HasPrefix_def)
    with False Cons.IH show ?thesis by (simp add: kv)
  qed
qed simp

lemma csi_attributes_lookup: "wf_map d \<Longrightarrow> map_of (csi_attributes d) k = map_of d (''csi.'' @ k)"
  by (simp add: csi_attributes_def map_of_map_put_all wf_csi_source map_of_csi_source)

lemma wf_csi_details: "wf_map (csi_details p ns sub csi)"
  unfolding csi_details_def by (rule wf_map_map_put_all) (simp add: wf_map_def)

lemma wf_prefixed: "wf_map attrs \<Longrightarrow> wf_map (map (\<lambda>(k, v). (pre @ k, v)) attrs)"
  by (induction attrs) (auto simp: wf_map_def image_iff)

lemma map_of_prefixed: "map_of (map (\<lambda>(k, v). (pre @ k, v)) attrs) (pre @ k) = map_of attrs k"
  by (induction attrs) auto

lemma csi_details_attribute:
  assumes "wf_map (csi_VolumeAttributes csi)"
  shows "map_of (csi_details p ns sub csi) (''csi.'' @ k) = map_of (csi_VolumeAttributes csi) k"
  using wf_prefixed [OF assms, of "''csi.''"] map_of_prefixed [of "''csi.''" "csi_VolumeAttributes csi" k]
  by (simp add: csi_details_def map_of_map_put_all map_add_def split: option.splits)

lemma csi_roundtrip_attributes:
  "wf_map (csi_VolumeAttributes csi) \<Longrightarrow>
     map_of (csi_attributes (csi_details p ns sub csi)) = map_of (csi_VolumeAttributes csi)"
  by (simp only: fun_eq_iff csi_attributes_lookup [OF wf_csi_details] csi_details_attribute simp_thms)

lemma csi_backend_server:
  assumes "csi_Driver csi = ''nfs.csi.k8s.io''"
  shows "br_Type (csi_backend p ns sub csi) = BackendTypeNFS"
    and "map_of (br_Details (csi_backend p ns sub csi)) ''server'' =
      (if map_of (csi_VolumeAttributes csi) ''share'' = None then None else map_of (csi_VolumeAttributes csi) ''server'')"
    and "map_of (br_Details (csi_backend p ns sub csi)) ''exportPath'' =
      (if map_of (csi_VolumeAttributes csi) ''server'' = None then None else map_of (csi_VolumeAttributes csi) ''share'')"
  using assms by (auto simp: csi_backend_def csi_details_lookup HasPrefix_def Let_def split: option.splits)

lemma csi_backend_ceph:
  assumes "csi_Driver csi = ''cephfs.csi.ceph.com''"
  shows "br_Type (csi_backend p ns sub csi) = BackendTypeCephFS"
    and "map_of (br_Details (csi_backend p ns sub csi)) ''monitors'' = None"
  using assms by (simp_all add: csi_backend_def csi_details_lookup HasPrefix_def Let_def)

lemma csi_backend_plain:
  assumes "csi_Driver csi \<noteq> ''nfs.csi.k8s.io''" "csi_Driver csi \<noteq> ''cephfs.csi.ceph.com''"
  shows "br_Type (csi_backend p ns sub csi) \<in> {BackendTypeLonghorn, BackendTypeCSI}"
    and "br_Details (csi_backend p ns sub csi) = csi_details p ns sub csi"
  using assms by (simp_all add: csi_backend_def Let_def)

lemma mirror_csi_backend:
  "mirror_source (csi_backend p ns sub csi) st =
     (if csi_Driver csi = ''nfs.csi.k8s.io'' then
        (case (map_of (csi_VolumeAttributes csi) ''server'', map_of (csi_VolumeAttributes csi) ''share'') of
           (Some (c # server), Some (d # share)) \<Rightarrow>
              Inr (noVolumeSource\<lparr>pvs_NFS := Some \<lparr>nfs_Server = c # server, nfs_Path = d # share, nfs_ReadOnly = True\<rparr>\<rparr>, None)
         | _ \<Rightarrow> Inl (new_error ''NFS backend missing server or exportPath''))
      else if csi_Driver csi = ''cephfs.csi.ceph.com'' then Inl (new_error ''cephfs backend missing monitors'')
      else if csi_Driver csi = [] \<or> csi_VolumeHandle csi = [] then Inl (new_error ''CSI backend missing driver or volumeID'')
      else Inr (noVolumeSource\<lparr>pvs_CSI := Some \<lparr>csi_Driver = csi_Driver csi, csi_VolumeHandle = csi_VolumeHandle csi,
              csi_ReadOnly = True, csi_VolumeAttributes = csi_attributes (csi_details p ns sub csi)\<rparr>\<rparr>, None))"
proof (cases "csi_Driver csi = ''nfs.csi.k8s.io''")
  case True
  then show ?thesis
    by (auto simp: mirror_source_def csi_backend_server smap_get_def Let_def split: option.splits list.splits)
next
  case nfs: False
  show ?thesis
  proof (cases "csi_Driver csi = ''cephfs.csi.ceph.com''")
    case True
    then show ?thesis by (simp add: mirror_source_def csi_backend_ceph smap_get_def Let_def)
  next
    case False
    with nfs csi_backend_plain [OF nfs False, of p ns sub] show ?thesis
      by (auto simp: mirror_source_def csi_details_lookup HasPrefix_def smap_get_def Let_def)
  qed
qed

text \<open>The branches of \<open>extractBackendFromPV\<close>, with the backend reference of each that a mirror can read.\<close>

lemma extractBackend_cases:
  assumes "extractBackendFromPV p pv ns = Inr br"
  obtains
    (nfs) nfs where "pvs_NFS (pv_Source (pv_Spec pv)) = Some nfs" "br_Type br = BackendTypeNFS"
      "map_of (br_Details br) ''server'' = Some (nfs_Server nfs)" "map_of (br_Details br) ''exportPath'' = Some (nfs_Path nfs)"
  | (csi) csi where "pvs_NFS (pv_Source (pv_Spec pv)) = None" "pvs_CSI (pv_Source (pv_Spec pv)) = Some csi"
      "br = csi_backend p ns (''/modelrepositories/'' @ mr_Name (prov_modelRepo p)) csi"
  | (disk) "pvs_NFS (pv_Source (pv_Spec pv)) = None" "pvs_CSI (pv_Source (pv_Spec pv)) = None"
      "\<not> (pvs_AWSElasticBlockStore (pv_Source (pv_Spec pv)) = None \<and>
          pvs_GCEPersistentDisk (pv_Source (pv_Spec pv)) = None \<and> pvs_AzureDisk (pv_Source (pv_Spec pv)) = None)"
      "br_Type br \<in> {''ebs'', ''gce-pd'', ''azure-disk''}"
  | (ceph) ceph where "pvs_NFS (pv_Source (pv_Spec pv)) = None" "pvs_CSI (pv_Source (pv_Spec pv)) = None"
      "pvs_AWSElasticBlockStore (pv_Source (pv_Spec pv)) = None" "pvs_GCEPersistentDisk (pv_Source (pv_Spec pv)) = None"
      "pvs_AzureDisk (pv_Source (pv_Spec pv)) = None" "pvs_CephFS (pv_Source (pv_Spec pv)) = Some ceph"
      "br_Type br = BackendTypeCephFS" "map_of (br_Details br) ''path'' = Some (ceph_Path ceph)"
      "map_of (br_Details br) ''monitors'' = Some (case ceph_Monitors ceph of [] \<Rightarrow> [] | m # _ \<Rightarrow> m)"
  | (gluster) "pvs_NFS (pv_Source (pv_Spec pv)) = None" "pvs_CSI (pv_Source (pv_Spec pv)) = None"
      "pvs_CephFS (pv_Source (pv_Spec pv)) = None" "pvs_Glusterfs (pv_Source (pv_Spec pv)) \<noteq> None" "br_Type br = ''glusterfs''"
  | (hostpath) hp where "pvs_NFS (pv_Source (pv_Spec pv)) = None" "pvs_CSI (pv_Source (pv_Spec pv)) = None"
      "pvs_AWSElasticBlockStore (pv_Source (pv_Spec pv)) = None" "pvs_GCEPersistentDisk (pv_Source (pv_Spec pv)) = None"
      "pvs_AzureDisk (pv_Source (pv_Spec pv)) = None" "pvs_CephFS (pv_Source (pv_Spec pv)) = None"
      "pvs_Glusterfs (pv_Source (pv_Spec pv)) = None" "pvs_HostPath (pv_Source (pv_Spec pv)) = Some hp"
      "br_Type br = BackendTypeHostPath" "map_of (br_Details br) ''path'' = Some (hp_Path hp)"
  using assms unfolding extractBackendFromPV_def Let_def
  by (simp split: option.split_asm prod.split_asm) (drule sym, simp)+

section \<open>Properties\<close>

text \<open>The volumes that an engine can mount, by their source.\<close>

definition mountable_csi :: "CSIVolumeSource \<Rightarrow> bool" where
  "mountable_csi csi =
     (if csi_Driver csi = ''nfs.csi.k8s.io'' then
        smap_get (csi_VolumeAttributes csi) ''server'' \<noteq> [] \<and> smap_get (csi_VolumeAttributes csi) ''share'' \<noteq> []
      else csi_Driver csi \<noteq> ''cephfs.csi.ceph.com'' \<and> csi_Driver csi \<noteq> [] \<and> csi_VolumeHandle csi \<noteq> [])"

definition mountable :: "PersistentVolumeSource \<Rightarrow> bool" where
  "mountable src =
     (case pvs_NFS src of Some nfs \<Rightarrow> nfs_Server nfs \<noteq> [] \<and> nfs_Path nfs \<noteq> []
      | None \<Rightarrow> (case pvs_CSI src of Some csi \<Rightarrow> mountable_csi csi
      | None \<Rightarrow>
          pvs_AWSElasticBlockStore src = None \<and> pvs_GCEPersistentDisk src = None \<and> pvs_AzureDisk src = None \<and>
          (case pvs_CephFS src of Some ceph \<Rightarrow> ceph_Monitors ceph \<noteq> [] \<and> hd (ceph_Monitors ceph) \<noteq> []
           | None \<Rightarrow> pvs_Glusterfs src = None \<and>
               (case pvs_HostPath src of Some hp \<Rightarrow> hp_Path hp \<noteq> [] | None \<Rightarrow> False))))"

lemma mirror_csi_mountable: "isl (mirror_source (csi_backend p ns sub csi) st) \<longleftrightarrow> \<not> mountable_csi csi"
  by (auto simp: mirror_csi_backend mountable_csi_def smap_get_def split: option.splits list.splits)

text \<open>
  (C36) Exactly which volumes an engine can mount: for a backend reference extracted from a volume,
  a read-only mirror can be built if and only if the volume is NFS with server and path, a CSI
  volume with driver and handle (for the NFS driver with server and share attributes), CephFS
  with a first monitor, or a host path. In particular a volume of the CephFS CSI driver, a cloud
  disk or GlusterFS yields a backend reference that no engine can ever mount.
\<close>

theorem mirror_exists_iff_mountable:
  assumes "extractBackendFromPV p pv ns = Inr br"
  shows "(\<exists>src aff. mirror_source br st = Inr (src, aff)) \<longleftrightarrow> mountable (pv_Source (pv_Spec pv))"
  using assms
proof (cases rule: extractBackend_cases)
  case (csi csi)
  with mirror_csi_mountable [of p ns "''/modelrepositories/'' @ mr_Name (prov_modelRepo p)" csi st] show ?thesis
    by (cases "mirror_source br st") (simp_all add: mountable_def)
next
  case (ceph ceph)
  then show ?thesis by (cases "ceph_Monitors ceph") (simp_all add: mountable_def mirror_source_def smap_get_def Let_def)
next
  case disk
  from disk(4) have "isl (mirror_source br st)"
    by (elim insertE emptyE) (simp_all add: mirror_source_def)
  moreover from disk(1,2,3) have "\<not> mountable (pv_Source (pv_Spec pv))"
    by (auto simp: mountable_def)
  ultimately show ?thesis by (cases "mirror_source br st") simp_all
qed (simp_all add: mountable_def mirror_source_def smap_get_def Let_def)

definition sample_volume :: "PersistentVolumeSource \<Rightarrow> PersistentVolume" where
  "sample_volume src = \<lparr>pv_Meta = emptyMeta\<lparr>om_Name := ''pv-1''\<rparr>, pv_Spec = \<lparr>pv_Capacity = ''10Gi'',
     pv_AccessModes = [ReadWriteMany], pv_VolumeMode = None, pv_Source = src, pv_ClaimRef = None,
     pv_ReclaimPolicy = [], pv_NodeAffinity = None\<rparr>\<rparr>"

definition sample_provider :: StorageClassProvider where
  "sample_provider = NewStorageClassProvider sample_repo
     (categorizeStorageClass \<lparr>sc_Meta = emptyMeta\<lparr>om_Name := ''ceph''\<rparr>, sc_Provisioner = ''cephfs.csi.ceph.com''\<rparr>)"

definition ceph_csi_source :: PersistentVolumeSource where
  "ceph_csi_source = noVolumeSource\<lparr>pvs_CSI := Some \<lparr>csi_Driver = ''cephfs.csi.ceph.com'', csi_VolumeHandle = ''vol-7'',
     csi_ReadOnly = False, csi_VolumeAttributes = [(''clusterID'', ''rook'')]\<rparr>\<rparr>"

definition ceph_csi_backend :: BackendReference where
  "ceph_csi_backend = csi_backend sample_provider ''aitrigram-system'' (''/modelrepositories/'' @ mr_Name sample_repo)
     (the (pvs_CSI ceph_csi_source))"

definition sample_status :: StorageStatus where
  "sample_status = \<lparr>ss_StorageClass = ''ceph'', ss_AccessMode = ReadWriteMany, ss_VolumeMode = ''Filesystem'',
     ss_BackendRef = Some ceph_csi_backend, ss_BoundNodeName = [], ss_Capacity = ''10Gi''\<rparr>"

theorem mirror_exists_iff_mountable_witness:
  "extractBackendFromPV sample_provider (sample_volume ceph_csi_source) ''aitrigram-system'' = Inr ceph_csi_backend \<and>
   \<not> (\<exists>src aff. mirror_source ceph_csi_backend sample_status = Inr (src, aff))"
proof -
  have br: "extractBackendFromPV sample_provider (sample_volume ceph_csi_source) ''aitrigram-system'' = Inr ceph_csi_backend"
    by (simp add: extractBackendFromPV_def sample_volume_def ceph_csi_source_def ceph_csi_backend_def noVolumeSource_def
        sample_provider_def NewStorageClassProvider_def)
  with mirror_exists_iff_mountable [OF br, of sample_status] show ?thesis
    by (simp add: sample_volume_def ceph_csi_source_def noVolumeSource_def mountable_def mountable_csi_def)
qed

text \<open>
  The mirror reads the same storage, read-only: the source is the same in every field but the
  read-only flag, the order of the attributes, the type of a host path, and all but the first
  monitor of CephFS.
\<close>

definition reads_same :: "PersistentVolumeSource \<Rightarrow> PersistentVolumeSource \<Rightarrow> bool" where
  "reads_same src mirror =
     (case pvs_NFS src of Some nfs \<Rightarrow> mirror = noVolumeSource\<lparr>pvs_NFS := Some (nfs\<lparr>nfs_ReadOnly := True\<rparr>)\<rparr>
      | None \<Rightarrow> (case pvs_CSI src of
          Some csi \<Rightarrow> (\<exists>attrs. map_of attrs = map_of (csi_VolumeAttributes csi) \<and>
            mirror = noVolumeSource\<lparr>pvs_CSI := Some (csi\<lparr>csi_ReadOnly := True, csi_VolumeAttributes := attrs\<rparr>)\<rparr>)
        | None \<Rightarrow> (case pvs_CephFS src of
            Some ceph \<Rightarrow> mirror = noVolumeSource\<lparr>pvs_CephFS :=
              Some \<lparr>ceph_Monitors = [hd (ceph_Monitors ceph)], ceph_Path = ceph_Path ceph, ceph_ReadOnly = True\<rparr>\<rparr>
          | None \<Rightarrow> (\<exists>hp. pvs_HostPath src = Some hp \<and>
              mirror = noVolumeSource\<lparr>pvs_HostPath := Some \<lparr>hp_Path = hp_Path hp, hp_Type = Some ''Directory''\<rparr>\<rparr>))))"

text \<open>A volume of the NFS driver, which is mirrored in another way: by a plain NFS volume.\<close>

definition nfs_driver :: "PersistentVolumeSource \<Rightarrow> CSIVolumeSource option" where
  "nfs_driver src = (case (pvs_NFS src, pvs_CSI src) of
     (None, Some csi) \<Rightarrow> if csi_Driver csi = ''nfs.csi.k8s.io'' then Some csi else None
   | _ \<Rightarrow> None)"

definition plain_nfs_mirror :: "CSIVolumeSource \<Rightarrow> PersistentVolumeSource" where
  "plain_nfs_mirror csi = noVolumeSource\<lparr>pvs_NFS := Some \<lparr>nfs_Server = smap_get (csi_VolumeAttributes csi) ''server'',
     nfs_Path = smap_get (csi_VolumeAttributes csi) ''share'', nfs_ReadOnly = True\<rparr>\<rparr>"

text \<open>
  Of a volume of the NFS driver nothing but server and share survives: two volumes that are
  different directories (\<^verbatim>\<open>subdir\<close>) of a share have the same mirror, the root of the share.
\<close>

lemma plain_nfs_mirror_loses_subdir:
  "plain_nfs_mirror (csi\<lparr>csi_VolumeAttributes := (''subdir'', a) # attrs\<rparr>) = plain_nfs_mirror (csi\<lparr>csi_VolumeAttributes := (''subdir'', b) # attrs\<rparr>)"
  by (simp add: plain_nfs_mirror_def smap_get_def)

definition wf_source :: "PersistentVolumeSource \<Rightarrow> bool" where
  "wf_source src = (case pvs_CSI src of Some csi \<Rightarrow> wf_map (csi_VolumeAttributes csi) | None \<Rightarrow> True)"

lemma mirror_csi_reads_same:
  assumes "mirror_source (csi_backend p ns sub csi) st = Inr (m, aff)"
    and "wf_map (csi_VolumeAttributes csi)" and "pvs_NFS src = None" "pvs_CSI src = Some csi"
  shows "case nfs_driver src of Some csi \<Rightarrow> m = plain_nfs_mirror csi | None \<Rightarrow> reads_same src m"
proof (cases "csi_Driver csi = ''nfs.csi.k8s.io''")
  case True
  with assms show ?thesis
    by (auto simp: nfs_driver_def plain_nfs_mirror_def mirror_csi_backend smap_get_def split: option.splits list.splits)
next
  case False
  with assms(1) have "m = noVolumeSource\<lparr>pvs_CSI := Some (csi\<lparr>csi_ReadOnly := True,
      csi_VolumeAttributes := csi_attributes (csi_details p ns sub csi)\<rparr>)\<rparr>"
    by (cases csi) (auto simp: mirror_csi_backend split: if_splits)
  with False assms csi_roundtrip_attributes [OF assms(2), of p ns sub] show ?thesis
    by (auto simp: nfs_driver_def reads_same_def)
qed

text \<open>
  (C19) What an engine mounts is what the repository was downloaded to, but for one driver: through
  extraction to a backend reference and rebuilding of a volume source, the server and path of NFS,
  the driver, handle and every volume attribute of CSI, the path and first monitor of CephFS and
  the path of a host path come back unchanged, and where the source has a read-only flag it is
  set. The exception are CSI volumes of the driver \<^verbatim>\<open>nfs.csi.k8s.io\<close>: of them only the server and
  the share survive, in a plain NFS volume; driver, handle and all other attributes, among them the
  directory of the volume in the share, are lost.
\<close>

theorem mirror_reads_same:
  assumes "extractBackendFromPV p pv ns = Inr br" and "wf_source (pv_Source (pv_Spec pv))"
    and "mirror_source br st = Inr (m, aff)"
  shows "case nfs_driver (pv_Source (pv_Spec pv)) of
    Some csi \<Rightarrow> m = plain_nfs_mirror csi | None \<Rightarrow> reads_same (pv_Source (pv_Spec pv)) m"
  using assms(1)
proof (cases rule: extractBackend_cases)
  case (csi csi)
  with assms mirror_csi_reads_same show ?thesis by (fastforce simp: wf_source_def)
next
  case disk
  with assms(3) show ?thesis by (elim insertE emptyE) (simp_all add: mirror_source_def)
next
  case (ceph ceph)
  with assms(3) show ?thesis
    by (cases "ceph_Monitors ceph") (auto simp: nfs_driver_def reads_same_def mirror_source_def smap_get_def Let_def split: if_splits)
next
  case (nfs nfs)
  with assms(3) show ?thesis
    by (cases nfs) (auto simp: nfs_driver_def reads_same_def mirror_source_def smap_get_def Let_def split: if_splits)
qed (use assms(3) in \<open>simp_all add: nfs_driver_def reads_same_def mirror_source_def smap_get_def Let_def split: if_splits\<close>)

definition longhorn_source :: PersistentVolumeSource where
  "longhorn_source = noVolumeSource\<lparr>pvs_CSI := Some \<lparr>csi_Driver = ''driver.longhorn.io'', csi_VolumeHandle = ''pvc-1'',
     csi_ReadOnly = False, csi_VolumeAttributes = [(''share'', ''true'')]\<rparr>\<rparr>"

definition longhorn_backend :: BackendReference where
  "longhorn_backend = \<lparr>br_Type = ''longhorn'', br_Details =
     [(''driver'', ''driver.longhorn.io''), (''volumeID'', ''pvc-1''), (''subPath'', ''/modelrepositories/llama''),
      (''pvcName'', ''llama-storage''), (''pvcNamespace'', ''aitrigram-system''), (''csi.share'', ''true'')]\<rparr>"

theorem mirror_reads_same_witness:
  "reads_same longhorn_source (noVolumeSource\<lparr>pvs_CSI := Some \<lparr>csi_Driver = ''driver.longhorn.io'',
     csi_VolumeHandle = ''pvc-1'', csi_ReadOnly = True, csi_VolumeAttributes = [(''share'', ''true'')]\<rparr>\<rparr>)"
proof -
  have "extractBackendFromPV sample_provider (sample_volume longhorn_source) ''aitrigram-system'' = Inr longhorn_backend"
    by code_simp
  moreover have "wf_source (pv_Source (pv_Spec (sample_volume longhorn_source)))" by code_simp
  moreover have "mirror_source longhorn_backend sample_status = Inr (noVolumeSource\<lparr>pvs_CSI := Some \<lparr>csi_Driver = ''driver.longhorn.io'',
     csi_VolumeHandle = ''pvc-1'', csi_ReadOnly = True, csi_VolumeAttributes = [(''share'', ''true'')]\<rparr>\<rparr>, None)"
    by code_simp
  ultimately have "case nfs_driver (pv_Source (pv_Spec (sample_volume longhorn_source))) of
      Some csi \<Rightarrow> noVolumeSource\<lparr>pvs_CSI := Some \<lparr>csi_Driver = ''driver.longhorn.io'', csi_VolumeHandle = ''pvc-1'',
        csi_ReadOnly = True, csi_VolumeAttributes = [(''share'', ''true'')]\<rparr>\<rparr> = plain_nfs_mirror csi
    | None \<Rightarrow> reads_same (pv_Source (pv_Spec (sample_volume longhorn_source))) (noVolumeSource\<lparr>pvs_CSI :=
        Some \<lparr>csi_Driver = ''driver.longhorn.io'', csi_VolumeHandle = ''pvc-1'', csi_ReadOnly = True,
          csi_VolumeAttributes = [(''share'', ''true'')]\<rparr>\<rparr>)"
    by (rule mirror_reads_same)
  moreover have "nfs_driver longhorn_source = None" by code_simp
  ultimately show ?thesis by (simp add: sample_volume_def)
qed

text \<open>What a run of \<open>EnsureLLMEngineStorage\<close> may do: read the two objects, and create them in this shape.\<close>

definition engine_storage_event :: "k8s_lib \<Rightarrow> LLMEngine \<Rightarrow> string \<Rightarrow> event \<Rightarrow> bool" where
  "engine_storage_event L le name e = (case e of
     OnPV (Get k _) \<Rightarrow> k = ([], name)
   | OnPV (Create pv _) \<Rightarrow> om_Name (pv_Meta pv) = name \<and> pv_AccessModes (pv_Spec pv) = [ReadOnlyMany] \<and>
       pv_ReclaimPolicy (pv_Spec pv) = ''Retain'' \<and> pv_ClaimRef (pv_Spec pv) = Some (le_Namespace le, name) \<and>
       om_Finalizers (pv_Meta pv) = lib_AddFinalizer L [] LLMEngineStorageFinalizer
   | OnPVC (Get k _) \<Rightarrow> k = (le_Namespace le, name)
   | OnPVC (Create pvc _) \<Rightarrow> om_Name (pvc_Meta pvc) = name \<and> om_Namespace (pvc_Meta pvc) = le_Namespace le \<and>
       pvc_AccessModes pvc = [ReadOnlyMany] \<and> pvc_VolumeName pvc = name \<and>
       om_Finalizers (pvc_Meta pvc) = lib_AddFinalizer L [] LLMEngineStorageFinalizer
   | _ \<Rightarrow> False)"

definition storage_outcome :: "LLMEngine \<Rightarrow> string \<Rightarrow> (go_error + LLMEngineStorageResult) option \<Rightarrow> event list \<Rightarrow> bool" where
  "storage_outcome le name res evs = (case res of
     Some (Inr out) \<Rightarrow> lsr_PVCName out = name \<and> evs \<noteq> [] \<and>
       (\<exists>pvc. last evs = OnPVC (Get (le_Namespace le, name) (Inr pvc)) \<and> pvc_Phase pvc = ClaimBound)
   | _ \<Rightarrow> True)"

lemma buildReadOnlyPVSpec_modes:
  "buildReadOnlyPVSpec L br st = Some (Inr pvSpec) \<Longrightarrow> pv_AccessModes pvSpec = [ReadOnlyMany]"
  by (cases "mirror_source br st") (auto simp: buildReadOnlyPVSpec_def bind_eq_Some_conv Let_def)

lemma PVC_name_eq: "llmEnginePVCName e m = llmEnginePVName e m"
  by (simp add: llmEnginePVCName_def llmEnginePVName_def)

text \<open>
  (C20) EnsureLLMEngineStorage only reads and creates: the volume and the claim of this engine and
  repository, both read-only-many, protected by the finalizer, the volume retained and reserved
  for the claim. It reports a claim as usable only when the last answer of the API server was
  that this claim is bound.
\<close>

theorem EnsureLLMEngineStorage_safe:
  "spec (EnsureLLMEngineStorage r le mr) (\<lambda>res evs. case llmEnginePVName (le_Name le) (mr_Name mr) of
     None \<Rightarrow> evs = [] \<and> (\<forall>out. res \<noteq> Some (Inr out))
   | Some name \<Rightarrow> list_all (engine_storage_event (r_Lib r) le name) evs \<and> storage_outcome le name res evs)"
  unfolding EnsureLLMEngineStorage_def ensure_pv_def ensure_pvc_def Let_def
  by (intro spec_intros)
    (auto simp: engine_storage_event_def storage_outcome_def engine_pv_def engine_pvc_def PVC_name_eq
      dest!: buildReadOnlyPVSpec_modes split: option.splits)

fun created_pv :: "event \<Rightarrow> bool" where
  "created_pv (OnPV (Create pv None)) = True"
| "created_pv _ = False"

text \<open>
  (C37) A repository that reports no capacity cannot be mounted: the read-only volume falls back to
  a default size, but the claim parses the empty capacity, so once the volume exists the
  operator panics, and no run ever returns a usable claim.
\<close>

theorem EnsureLLMEngineStorage_empty_capacity:
  assumes "mst_Storage (mr_Status mr) = Some st" and "ss_Capacity st = []"
    and "lib_ParseQuantity (r_Lib r) [] = Inl err"
  shows "spec (EnsureLLMEngineStorage r le mr) (\<lambda>res evs. (\<forall>out. res \<noteq> Some (Inr out)) \<and>
    (list_ex created_pv evs \<longrightarrow> res = None))"
  using assms unfolding EnsureLLMEngineStorage_def ensure_pv_def ensure_pvc_def Let_def
  by (intro spec_intros) (auto simp: MustParse_def)

definition bare_repo :: ModelRepository where
  "bare_repo = sample_repo\<lparr>mr_Status := (mr_Status sample_repo)\<lparr>mst_Storage :=
     Some (sample_status\<lparr>ss_BackendRef := Some longhorn_backend, ss_Capacity := []\<rparr>)\<rparr>\<rparr>"

theorem EnsureLLMEngineStorage_empty_capacity_witness:
  "case run_state (EnsureLLMEngineStorage mem_reconciler sample_engine bare_repo) \<lparr>world = empty_cluster, trace = []\<rparr> of
     (res, s) \<Rightarrow> res = None \<and> length (k_PV (world s)) = 1"
proof -
  let ?s = "\<lparr>world = empty_cluster, trace = []\<rparr> :: (cluster, event) sys"
  obtain res s where run: "run_state (EnsureLLMEngineStorage mem_reconciler sample_engine bare_repo) ?s = (res, s)"
    by fastforce
  have "length (k_PV (world (snd (run_state (EnsureLLMEngineStorage mem_reconciler sample_engine bare_repo) ?s)))) = 1 \<and>
    list_ex created_pv
      (trace (snd (run_state (EnsureLLMEngineStorage mem_reconciler sample_engine bare_repo) ?s)))"
    by code_simp
  then have "length (k_PV (world s)) = 1" and "list_ex created_pv (trace s)"
    by (simp_all add: run)
  moreover have "spec (EnsureLLMEngineStorage mem_reconciler sample_engine bare_repo) (\<lambda>res evs.
      (\<forall>out. res \<noteq> Some (Inr out)) \<and> (list_ex created_pv evs \<longrightarrow> res = None))"
    by (rule EnsureLLMEngineStorage_empty_capacity
        [where st = "sample_status\<lparr>ss_BackendRef := Some longhorn_backend, ss_Capacity := []\<rparr>"])
      (simp_all add: bare_repo_def mem_lib_def)
  ultimately show ?thesis using spec_run [OF _ run] by (auto simp: run)
qed

text \<open>Removing one object: its own finalizer first, then the object, nothing else.\<close>

definition releases_pvc :: "k8s_lib \<Rightarrow> okey \<Rightarrow> event list \<Rightarrow> bool" where
  "releases_pvc L k evs = (\<exists>ans rest. evs = OnPVC (Get k ans) # rest \<and>
     (case ans of
        Inl _ \<Rightarrow> rest = []
      | Inr pvc \<Rightarrow> \<exists>u rest'. rest = OnPVC (Update (pvc\<lparr>pvc_Meta := (pvc_Meta pvc)\<lparr>om_Finalizers :=
            lib_RemoveFinalizer L (om_Finalizers (pvc_Meta pvc)) LLMEngineStorageFinalizer\<rparr>\<rparr>) u) # rest' \<and>
          (case u of Inl _ \<Rightarrow> rest' = [] | Inr _ \<Rightarrow> \<exists>e. rest' = [OnPVC (Delete k False e)])))"

definition releases_pv :: "k8s_lib \<Rightarrow> string \<Rightarrow> event list \<Rightarrow> bool" where
  "releases_pv L name evs = (\<exists>ans rest. evs = OnPV (Get ([], name) ans) # rest \<and>
     (case ans of
        Inl _ \<Rightarrow> rest = []
      | Inr pv \<Rightarrow> \<exists>u rest'. rest = OnPV (Update (pv\<lparr>pv_Meta := (pv_Meta pv)\<lparr>om_Finalizers :=
            lib_RemoveFinalizer L (om_Finalizers (pv_Meta pv)) LLMEngineStorageFinalizer\<rparr>\<rparr>) u) # rest' \<and>
          (case u of Inl _ \<Rightarrow> rest' = [] | Inr _ \<Rightarrow> \<exists>e. rest' = [OnPV (Delete ([], name) False e)])))"

lemma spec_release_pvc: "spec (release_pvc r k) (\<lambda>res evs. releases_pvc (r_Lib r) k evs)"
  unfolding release_pvc_def by (intro spec_intros) (auto simp: releases_pvc_def)

lemma spec_release_pv: "spec (release_pv r name) (\<lambda>res evs. releases_pv (r_Lib r) name evs)"
  unfolding release_pv_def by (intro spec_intros) (auto simp: releases_pv_def)

text \<open>
  CleanupLLMEngineStorage removes the engine's claim and then its volume, each after its
  protection finalizer was taken off; a failure on the claim leaves the volume alone, and nothing
  else in the cluster is touched.
\<close>

lemma CleanupLLMEngineStorage_own_objects:
  "spec (CleanupLLMEngineStorage r le repo) (\<lambda>res evs.
     case llmEnginePVName (le_Name le) repo of
       None \<Rightarrow> res = None \<and> evs = []
     | Some name \<Rightarrow> (\<exists>claim volume. evs = claim @ volume \<and> releases_pvc (r_Lib r) (le_Namespace le, name) claim \<and>
         (releases_pv (r_Lib r) name volume \<or> volume = [] \<and> (\<exists>err. res = Some (Some err)))))"
proof (cases "llmEnginePVName (le_Name le) repo")
  case None
  then show ?thesis by (simp add: CleanupLLMEngineStorage_def PVC_name_eq spec_return)
next
  case (Some name)
  then show ?thesis
    by (auto simp: CleanupLLMEngineStorage_def PVC_name_eq intro!: spec_bind [OF spec_release_pvc]
        spec_bind [OF spec_release_pv] spec_return split: option.split)
      (blast, metis append_Nil2)
qed

end
