(* ===== verification/Vllm_Config.thy ===== *)
theory Vllm_Config
  imports Sample_Cluster Go_Json
begin

text \<open>
  The vLLM configuration of \<^verbatim>\<open>internal/controller/adapters/llmengine_utils.go\<close>: defaults by
  hardware, command-line arguments turned into a nested configuration, and the recursive merge.
  The values are what \<^verbatim>\<open>interface{}\<close> holds there (\<open>cfg\<close>); integers, floats and JSON in the text of
  an argument are read by the functions of Go's library modelled in \<open>Go_Float\<close> and \<open>Go_Json\<close>.
\<close>

section \<open>Model\<close>

definition tryParseInt :: "string \<Rightarrow> int option" where
  "tryParseInt s = Atoi s"

definition tryParseFloat :: "string \<Rightarrow> float64 option" where
  "tryParseFloat s = ParseFloat s"

definition createNestedMap :: "string list \<Rightarrow> cfg \<Rightarrow> cfg gomap" where
  "createNestedMap keys v = (case foldr (\<lambda>k c. CMap [(k, c)]) keys v of CMap m \<Rightarrow> m | _ \<Rightarrow> [])"

fun recursiveMerge :: "cfg gomap \<Rightarrow> cfg gomap \<Rightarrow> cfg gomap" where
  "recursiveMerge dst [] = dst"
| "recursiveMerge dst ((k, v) # src) =
     recursiveMerge
       (case v of
          CMap srcMap \<Rightarrow> (case map_of dst k of
              Some (CMap dstMap) \<Rightarrow> map_set dst k (CMap (recursiveMerge dstMap srcMap))
            | _ \<Rightarrow> map_set dst k v)
        | _ \<Rightarrow> map_set dst k v) src"

definition isJSONSyntax :: "string \<Rightarrow> bool" where
  "isJSONSyntax value = (let t = TrimSpace value in
     HasPrefix t ''{'' \<and> HasSuffix t ''}'' \<or> HasPrefix t ''['' \<and> HasSuffix t '']'')"

definition parse_value :: "string \<Rightarrow> cfg" where
  "parse_value value =
     (if isJSONSyntax value then (case Unmarshal value of None \<Rightarrow> CStr value | Some c \<Rightarrow> c)
      else case tryParseInt value of
        Some i \<Rightarrow> CInt i
      | None \<Rightarrow> (case tryParseFloat value of
          Some f \<Rightarrow> CFloat f
        | None \<Rightarrow> if value = ''true'' \<or> value = ''false'' then CBool (value = ''true'') else CStr value))"

text \<open>Storing a parsed value under its key: dotted keys are nested, maps are merged.\<close>

definition set_value :: "cfg gomap \<Rightarrow> string \<Rightarrow> cfg \<Rightarrow> cfg gomap" where
  "set_value config key parsed =
     (if Contains key ''.'' then recursiveMerge config (createNestedMap (Split CHR ''.'' key) parsed)
      else case map_of config key of
        Some (CMap existingMap) \<Rightarrow>
          (case parsed of
             CMap parsedMap \<Rightarrow> map_set config key (CMap (recursiveMerge existingMap parsedMap))
           | _ \<Rightarrow> map_set config key parsed)
      | _ \<Rightarrow> map_set config key parsed)"

abbreviation underscored :: "string \<Rightarrow> string" where
  "underscored \<equiv> replace_char CHR ''-'' CHR ''_''"

text \<open>The loop over the arguments, with the configuration built so far.\<close>

fun convert_args :: "cfg gomap \<Rightarrow> string list \<Rightarrow> cfg gomap" where
  "convert_args config [] = config"
| "convert_args config (arg # rest) =
     (if \<not> HasPrefix arg ''--'' then convert_args config rest
      else if Contains arg ''='' then
        (case SplitN2 CHR ''='' arg of (k, v) \<Rightarrow>
           convert_args (set_value config (underscored (TrimPrefix k ''--'')) (parse_value v)) rest)
      else
        (let key = underscored (TrimPrefix arg ''--'') in
         case rest of
           [] \<Rightarrow> map_set config key (CBool True)
         | v # rest' \<Rightarrow>
             if HasPrefix v ''--'' then convert_args (map_set config key (CBool True)) rest
             else convert_args (set_value config key (parse_value v)) rest'))"

definition ConvertArgsToVLLMConfig :: "string list \<Rightarrow> cfg gomap" where
  "ConvertArgsToVLLMConfig args = convert_args [] args"

text \<open>The constant \<^verbatim>\<open>0.9\<close> as a 64-bit float.\<close>

definition nine_tenths :: float64 where
  "nine_tenths = FFin False 8106479329266893 (- 53)"

definition default_config :: "string \<Rightarrow> string \<Rightarrow> bool \<Rightarrow> int \<Rightarrow> cfg gomap" where
  "default_config modelId revision requestGPU gpuCount =
     (let config = (if requestGPU then
             [(''dtype'', CStr ''auto''), (''gpu_memory_utilization'', CFloat nine_tenths)] @
             (if gpuCount > 1 then [(''tensor_parallel_size'', CInt gpuCount)] else [])
           else [(''dtype'', CStr ''half''), (''max_num_batched_tokens'', CInt 2048), (''max_model_len'', CInt 2048),
                 (''enforce_eager'', CBool True)]);
          config = map_set config ''model'' (CStr modelId);
          config = (if revision \<noteq> [] then map_set config ''revision'' (CStr revision) else config)
      in map_set config ''trust_remote_code'' (CBool False))"

definition BuildVLLMConfig :: "string \<Rightarrow> string \<Rightarrow> bool \<Rightarrow> int \<Rightarrow> string list \<Rightarrow> cfg gomap" where
  "BuildVLLMConfig modelId revision requestGPU gpuCount userArgs =
     (if userArgs \<noteq> [] then map_put_all (default_config modelId revision requestGPU gpuCount) (ConvertArgsToVLLMConfig userArgs)
      else default_config modelId revision requestGPU gpuCount)"

text \<open>\<^verbatim>\<open>yaml.Marshal\<close> is a parameter.\<close>

definition MarshalVLLMConfig :: "(cfg gomap \<Rightarrow> go_error + string) \<Rightarrow> cfg gomap \<Rightarrow> go_error + string" where
  "MarshalVLLMConfig marshal config = (case marshal config of
     Inl err \<Rightarrow> Inl (wrap_error ''failed to marshal vLLM config to YAML: '' err) | Inr y \<Rightarrow> Inr y)"

section \<open>Paths of a configuration\<close>

fun cfg_at :: "cfg \<Rightarrow> string list \<Rightarrow> cfg option" where
  "cfg_at c [] = Some c"
| "cfg_at (CMap m) (k # ks) = (case map_of m k of None \<Rightarrow> None | Some c \<Rightarrow> cfg_at c ks)"
| "cfg_at c (k # ks) = None"

definition is_map :: "cfg \<Rightarrow> bool" where
  "is_map c = (case c of CMap _ \<Rightarrow> True | _ \<Rightarrow> False)"

text \<open>The overlay says nothing about a path: where it leaves the path it has no value on it.\<close>

fun untouched :: "cfg gomap \<Rightarrow> string list \<Rightarrow> bool" where
  "untouched m [] = False"
| "untouched m (k # ks) = (case map_of m k of None \<Rightarrow> True | Some (CMap s) \<Rightarrow> untouched s ks | Some _ \<Rightarrow> False)"

definition merge_value :: "cfg option \<Rightarrow> cfg \<Rightarrow> cfg" where
  "merge_value old v = (case v of
     CMap s \<Rightarrow> (case old of Some (CMap d) \<Rightarrow> CMap (recursiveMerge d s) | _ \<Rightarrow> v) | _ \<Rightarrow> v)"

lemma recursiveMerge_Cons:
  "recursiveMerge dst ((k, v) # src) = recursiveMerge (map_set dst k (merge_value (map_of dst k) v)) src"
  by (auto simp: merge_value_def split: cfg.splits option.splits)

lemma recursiveMerge_lookup:
  "wf_map src \<Longrightarrow> map_of (recursiveMerge dst src) k =
     (case map_of src k of None \<Rightarrow> map_of dst k | Some v \<Rightarrow> Some (merge_value (map_of dst k) v))"
proof (induction src arbitrary: dst)
  case (Cons kv src)
  obtain k' v where kv: "kv = (k', v)" by (cases kv)
  with Cons.prems have "wf_map src" "map_of src k' = None"
    by (auto simp: wf_map_def map_of_eq_None_iff)
  with Cons.IH kv show ?case by (auto simp: recursiveMerge_Cons simp del: recursiveMerge.simps split: option.splits)
qed simp

lemma wf_map_recursiveMerge [simp]: "wf_map dst \<Longrightarrow> wf_map (recursiveMerge dst src)"
  by (induction src arbitrary: dst)
    (auto simp: recursiveMerge_Cons simp del: recursiveMerge.simps(2) split: prod.splits)

lemma recursiveMerge_wins_at:
  assumes "wf_cfg (CMap src)" "cfg_at (CMap src) ks = Some v" "\<not> is_map v"
  shows "cfg_at (CMap (recursiveMerge dst src)) ks = Some v"
  using assms
proof (induction ks arbitrary: dst src)
  case Nil
  then show ?case by (auto simp: is_map_def)
next
  case (Cons k ks)
  from Cons.prems(2) obtain c where c: "map_of src k = Some c" "cfg_at c ks = Some v"
    by (auto split: option.splits)
  have "wf_cfg c" using wf_cfg_lookup [OF Cons.prems(1) c(1)] .
  have "cfg_at (merge_value (map_of dst k) c) ks = Some v"
    using c(2) Cons.IH [of _ _] Cons.prems(3) \<open>wf_cfg c\<close>
    by (auto simp: merge_value_def split: cfg.splits option.splits)
  with c Cons.prems(1) show ?case by (simp add: recursiveMerge_lookup)
qed

lemma recursiveMerge_keeps_at:
  assumes "wf_cfg (CMap src)" "untouched src ks" "cfg_at (CMap dst) ks = Some v"
  shows "cfg_at (CMap (recursiveMerge dst src)) ks = Some v"
  using assms
proof (induction ks arbitrary: dst src)
  case (Cons k ks)
  show ?case
  proof (cases "map_of src k")
    case None
    with Cons.prems show ?thesis by (simp add: recursiveMerge_lookup)
  next
    case (Some c)
    with Cons.prems(2) obtain s where s: "c = CMap s" "untouched s ks" by (auto split: cfg.splits)
    from s(2) have "ks \<noteq> []" by (cases ks) auto
    from Cons.prems(3) obtain d' where d': "map_of dst k = Some d'" "cfg_at d' ks = Some v"
      by (auto split: option.splits)
    with \<open>ks \<noteq> []\<close> obtain d where d: "d' = CMap d" by (cases d'; cases ks) auto
    have "wf_cfg (CMap s)" using wf_cfg_lookup [OF Cons.prems(1) Some] s(1) by simp
    with Cons.IH s(2) d d'(2) have "cfg_at (CMap (recursiveMerge d s)) ks = Some v" by blast
    with Some s(1) d d'(1) Cons.prems(1) show ?thesis
      by (simp add: recursiveMerge_lookup merge_value_def)
  qed
qed simp

section \<open>Text that is not JSON\<close>

lemma JSON_has_bracket: "isJSONSyntax s \<Longrightarrow> CHR ''{'' \<in> set s \<or> CHR ''['' \<in> set s"
proof -
  have "set (TrimSpace s) \<subseteq> set s" unfolding TrimSpace_def by (auto dest!: set_dropWhileD)
  moreover assume "isJSONSyntax s"
  then have "CHR ''{'' \<in> set (TrimSpace s) \<or> CHR ''['' \<in> set (TrimSpace s)"
    by (auto simp: isJSONSyntax_def Let_def HasPrefix_def prefix_def)
  ultimately show ?thesis by auto
qed

lemma not_JSON_plain: "\<forall>c \<in> set s. is_digit c \<or> c \<in> {CHR ''-'', CHR ''+'', CHR ''e'', CHR ''N'', CHR ''a'', CHR ''I'', CHR ''n'', CHR ''f''} \<Longrightarrow> \<not> isJSONSyntax s"
  by (auto dest!: JSON_has_bracket simp: is_digit_def digit_value_def byte_def)

lemma show_nat_is_digit: "c \<in> set (show_nat n) \<Longrightarrow> is_digit c"
  using show_nat_digits [of n] by (simp add: list_all_iff)

lemma not_JSON_show_int: "\<not> isJSONSyntax (show_int i)"
  by (rule not_JSON_plain) (auto simp: show_int_def dest: show_nat_is_digit)

lemma not_JSON_show_float: "\<not> isJSONSyntax (show_float f)"
  by (rule not_JSON_plain, cases f) (auto simp: show_magnitude_def dest: show_nat_is_digit split: if_splits)

lemma nine_tenths: "tryParseFloat ''0.9'' = Some nine_tenths"
  by code_simp

section \<open>Configurations have each key once\<close>

lemma recursiveMerge_wf:
  "wf_cfg (CMap dst) \<Longrightarrow> wf_cfg (CMap src) \<Longrightarrow> wf_cfg (CMap (recursiveMerge dst src))"
proof (induction dst src rule: recursiveMerge.induct)
  case (2 dst k v src)
  have v: "wf_cfg v" "wf_cfg (CMap src)" using "2.prems"(2) by (simp_all add: wf_map_def)
  have merged: "wf_cfg (merge_value (map_of dst k) v)"
  proof (cases "\<exists>src' dst'. v = CMap src' \<and> map_of dst k = Some (CMap dst')")
    case True
    then obtain src' dst' where "v = CMap src'" "map_of dst k = Some (CMap dst')" by blast
    with "2.IH"(1) v(1) wf_cfg_lookup [OF "2.prems"(1)] show ?thesis by (simp add: merge_value_def del: wf_cfg.simps)
  next
    case False
    then have "merge_value (map_of dst k) v = v" by (auto simp: merge_value_def split: cfg.split option.split)
    with v(1) show ?thesis by simp
  qed
  have step: "(case v of
      CMap srcMap \<Rightarrow> (case map_of dst k of
          Some (CMap dstMap) \<Rightarrow> map_set dst k (CMap (recursiveMerge dstMap srcMap)) | _ \<Rightarrow> map_set dst k v)
    | _ \<Rightarrow> map_set dst k v) = map_set dst k (merge_value (map_of dst k) v)"
    by (auto simp: merge_value_def split: cfg.split option.split)
  show ?case
    using "2.IH"(2) [unfolded step, OF wf_cfg_map_set [OF "2.prems"(1) merged] v(2)]
    unfolding recursiveMerge_Cons .
qed simp

lemma parse_value_wf: "wf_cfg (parse_value s)"
proof (cases "Unmarshal s")
  case (Some v)
  with Unmarshal_wf [OF Some] show ?thesis
    by (cases "tryParseInt s"; cases "tryParseFloat s") (simp_all add: parse_value_def)
qed (cases "tryParseInt s"; cases "tryParseFloat s"; simp add: parse_value_def)

section \<open>Arguments\<close>

lemma wf_map_set_value [simp]: "wf_map config \<Longrightarrow> wf_map (set_value config key v)"
  by (auto simp: set_value_def split: option.splits cfg.splits)

lemma wf_map_convert_args: "wf_map config \<Longrightarrow> wf_map (convert_args config args)"
  by (induction config args rule: convert_args.induct) (auto simp: Let_def split: prod.splits list.splits)

lemma Contains_char: "Contains s [c] \<longleftrightarrow> c \<in> set s"
  by (induction s) auto

lemma convert_args_append:
  "HasPrefix arg ''--'' \<Longrightarrow> convert_args config (args @ arg # rest) = convert_args (convert_args config args) (arg # rest)"
proof (induction config args rule: convert_args.induct)
  case (2 config a args)
  note step = convert_args.simps(2) [of config a]
  show ?case
    unfolding append_Cons step [of "args @ arg # rest"] step [of args]
    using "2.IH" "2.prems" by (cases args) (simp_all del: convert_args.simps(2) add: Let_def split: prod.split)
qed simp

lemma createNestedMap_Cons: "createNestedMap (k # ks) v = [(k, foldr (\<lambda>k c. CMap [(k, c)]) ks v)]"
  by (simp add: createNestedMap_def)

lemma cfg_at_nested: "cfg_at (foldr (\<lambda>k c. CMap [(k, c)]) ks v) ks = Some v"
  by (induction ks) auto

lemma wf_nested: "wf_cfg v \<Longrightarrow> wf_cfg (foldr (\<lambda>k c. CMap [(k, c)]) ks v)"
  by (induction ks) (auto simp: wf_map_def)

lemma createNestedMap_at: "ks \<noteq> [] \<Longrightarrow> cfg_at (CMap (createNestedMap ks v)) ks = Some v"
  by (cases ks) (simp_all add: createNestedMap_Cons cfg_at_nested)

lemma wf_createNestedMap: "ks \<noteq> [] \<Longrightarrow> wf_cfg v \<Longrightarrow> wf_cfg (CMap (createNestedMap ks v))"
  by (cases ks) (simp_all add: createNestedMap_Cons wf_nested wf_map_def)

lemma set_value_at:
  "\<not> is_map v \<Longrightarrow> wf_cfg v \<Longrightarrow> cfg_at (CMap (set_value config key v)) (Split CHR ''.'' key) = Some v"
proof (cases "CHR ''.'' \<in> set key")
  case True
  moreover assume "\<not> is_map v" "wf_cfg v"
  ultimately show ?thesis using True
    by (simp add: set_value_def Contains_char recursiveMerge_wins_at createNestedMap_at wf_createNestedMap
        del: wf_cfg.simps)
next
  case False
  assume "\<not> is_map v"
  with False show ?thesis
    by (auto simp: set_value_def Contains_char Split_single is_map_def split: option.splits cfg.splits)
qed

lemma set_value_wf: "wf_cfg (CMap config) \<Longrightarrow> wf_cfg v \<Longrightarrow> wf_cfg (CMap (set_value config key v))"
proof -
  assume wf: "wf_cfg (CMap config)" "wf_cfg v"
  note set = wf_cfg_map_set [OF wf(1)]
  show ?thesis
  proof (cases "\<exists>old new. map_of config key = Some (CMap old) \<and> v = CMap new")
    case True
    then obtain old new where m: "map_of config key = Some (CMap old)" "v = CMap new" by blast
    with wf recursiveMerge_wf wf_cfg_lookup [OF wf(1) m(1)] have "wf_cfg (CMap (recursiveMerge old new))" by blast
    with m wf set recursiveMerge_wf wf_createNestedMap show ?thesis by (simp add: set_value_def del: wf_cfg.simps)
  next
    case False
    then have "set_value config key v = (if Contains key ''.'' then recursiveMerge config (createNestedMap (Split CHR ''.'' key) v)
        else map_set config key v)"
      by (auto simp: set_value_def split: option.split cfg.split)
    with wf set recursiveMerge_wf wf_createNestedMap show ?thesis by (simp del: wf_cfg.simps)
  qed
qed

lemma convert_args_wf: "wf_cfg (CMap config) \<Longrightarrow> wf_cfg (CMap (convert_args config args))"
proof (induction config args rule: convert_args.induct)
  case (2 config arg rest)
  have bool: "wf_cfg (CBool True)" by simp
  note set = set_value_wf [OF "2.prems" parse_value_wf] wf_cfg_map_set [OF "2.prems" bool]
  consider "\<not> HasPrefix arg ''--''" | "HasPrefix arg ''--''" "Contains arg ''=''"
    | "HasPrefix arg ''--''" "\<not> Contains arg ''=''" "rest = []"
    | v r where "HasPrefix arg ''--''" "\<not> Contains arg ''=''" "rest = v # r"
    by (cases rest) blast+
  then show ?case
  proof cases
    case 2
    with "2.IH"(2) set show ?thesis by (simp del: wf_cfg.simps split: prod.split)
  next
    case (4 v r)
    let ?key = "underscored (TrimPrefix arg ''--'')"
    have "convert_args config (arg # v # r) =
        (if HasPrefix v ''--'' then convert_args (map_set config ?key (CBool True)) (v # r)
         else convert_args (set_value config ?key (parse_value v)) r)"
      using 4(1,2) by (subst convert_args.simps(2)) (simp only: Let_def list.case if_False if_True not_True_eq_False)
    with "2.IH"(3,4) [OF _ _ refl 4(3)] 4 set show ?thesis by (simp del: wf_cfg.simps(1) convert_args.simps)
  qed (use "2.IH"(1) "2.prems" set in \<open>simp_all add: Let_def del: wf_cfg.simps\<close>)
qed simp

lemma ConvertArgs_wf: "wf_cfg (CMap (ConvertArgsToVLLMConfig args))"
  unfolding ConvertArgsToVLLMConfig_def by (rule convert_args_wf) simp

lemma convert_args_pair:
  assumes "CHR ''='' \<notin> set key"
  shows "convert_args config ((''--'' @ key @ ''='' @ value) # rest) =
    convert_args (set_value config (underscored key) (parse_value value)) rest"
proof -
  have "SplitN2 CHR ''='' ((''--'' @ key) @ CHR ''='' # value) = (''--'' @ key, value)"
    by (rule SplitN2_append) (use assms in auto)
  moreover have "TrimPrefix (''--'' @ key) ''--'' = key" by (rule TrimPrefix_append)
  ultimately show ?thesis by (simp add: HasPrefix_def Contains_char)
qed

lemma wf_map_default_config: "wf_map (default_config modelId revision gpu n)"
  by (auto simp: default_config_def Let_def wf_map_def map_set_def distinct_update)

section \<open>Properties\<close>

text \<open>
  (C27) Merging nested configuration, both directions: a value that the overlay gives at a path is
  the value of the result there, and a path on which the overlay has nothing keeps its value.
\<close>

theorem recursiveMerge_paths:
  assumes "wf_cfg (CMap src)"
  shows "(\<not> is_map v \<longrightarrow> cfg_at (CMap src) path = Some v \<longrightarrow>
      cfg_at (CMap (recursiveMerge dst src)) path = Some v) \<and>
    (untouched src path \<longrightarrow> cfg_at (CMap dst) path = Some v \<longrightarrow>
      cfg_at (CMap (recursiveMerge dst src)) path = Some v)"
  using recursiveMerge_wins_at [OF assms] recursiveMerge_keeps_at [OF assms] by blast

theorem recursiveMerge_paths_witness:
  "cfg_at (CMap (recursiveMerge [(''a'', CMap [(''x'', CInt 1), (''y'', CInt 2)])] [(''a'', CMap [(''x'', CInt 3)])]))
     [''a'', ''x''] = Some (CInt 3) \<and>
   cfg_at (CMap (recursiveMerge [(''a'', CMap [(''x'', CInt 1), (''y'', CInt 2)])] [(''a'', CMap [(''x'', CInt 3)])]))
     [''a'', ''y''] = Some (CInt 2)"
  using recursiveMerge_paths [of "[(''a'', CMap [(''x'', CInt 3)])]" "CInt 3" "[''a'', ''x'']"
      "[(''a'', CMap [(''x'', CInt 1), (''y'', CInt 2)])]"]
    recursiveMerge_paths [of "[(''a'', CMap [(''x'', CInt 3)])]" "CInt 2" "[''a'', ''y'']"
      "[(''a'', CMap [(''x'', CInt 1), (''y'', CInt 2)])]"]
  by (simp add: wf_map_def is_map_def)

text \<open>
  A later argument wins: after any list of arguments, one more of the form --key=value
  leaves the parsed value at the path that the key's dots spell (hyphens read as underscores),
  whatever the earlier arguments stored there.
\<close>

lemma ConvertArgs_last_wins:
  assumes "CHR ''='' \<notin> set key" and "\<not> is_map (parse_value value)"
  shows "cfg_at (CMap (ConvertArgsToVLLMConfig (args @ [''--'' @ key @ ''='' @ value])))
    (Split CHR ''.'' (underscored key)) = Some (parse_value value)"
proof -
  have "HasPrefix (''--'' @ key @ ''='' @ value) ''--''" by (rule HasPrefix_append)
  then have "ConvertArgsToVLLMConfig (args @ [''--'' @ key @ ''='' @ value]) =
      set_value (convert_args [] args) (underscored key) (parse_value value)"
    unfolding ConvertArgsToVLLMConfig_def convert_args_append [OF \<open>HasPrefix _ _\<close>] convert_args_pair [OF assms(1)]
    by (simp only: convert_args.simps)
  with set_value_at [OF assms(2) parse_value_wf] show ?thesis by simp
qed

lemma ConvertArgs_last_wins_witness:
  "cfg_at (CMap (ConvertArgsToVLLMConfig [''--compilation-config.mode=1'', ''--compilation-config.mode=3'']))
     [''compilation_config'', ''mode''] = Some (CInt 3)"
proof -
  have v: "parse_value ''3'' = CInt 3" by code_simp
  have k: "Split CHR ''.'' (underscored ''compilation-config.mode'') = [''compilation_config'', ''mode'']" by code_simp
  from ConvertArgs_last_wins [of "''compilation-config.mode''" "''3''" "[''--compilation-config.mode=1'']"]
  show ?thesis by (simp add: v k is_map_def)
qed

text \<open>The words that \<open>ParseFloat\<close> reads as infinities and not-a-number, which JSON does not have.\<close>

fun nonfinite :: "cfg \<Rightarrow> bool" where
  "nonfinite (CFloat f) = (case f of FFin _ _ _ \<Rightarrow> False | _ \<Rightarrow> True)"
| "nonfinite (CArr vs) = list_ex nonfinite vs"
| "nonfinite (CMap m) = list_ex (\<lambda>(k, v). nonfinite v) m"
| "nonfinite _ = False"

lemma nonfinite_at: "cfg_at c ks = Some v \<Longrightarrow> nonfinite v \<Longrightarrow> nonfinite c"
proof (induction c ks rule: cfg_at.induct)
  case (2 m k ks)
  then obtain c where "map_of m k = Some c" "nonfinite c" by (auto split: option.splits)
  then show ?case by (auto simp: list_ex_iff dest: map_of_SomeD)
qed auto

lemma lower_word:
  assumes "ToLower t \<in> {''inf'', ''infinity'', ''nan''}"
  shows "\<exists>c u. t = c # u \<and> \<not> is_digit c \<and> c \<noteq> CHR ''-'' \<and> c \<noteq> CHR ''+''" "CHR ''{'' \<notin> set t" "CHR ''['' \<notin> set t"
proof -
  have low: "lower_char CHR ''{'' = CHR ''{''" "lower_char CHR ''['' = CHR ''[''" "lower_char CHR ''-'' = CHR ''-''"
    "lower_char CHR ''+'' = CHR ''+''" by (simp_all add: lower_char_def)
  from assms obtain c u where t: "t = c # u" "lower_char c \<in> {CHR ''i'', CHR ''n''}" by (cases t) (auto simp: ToLower_def)
  then have "\<not> is_digit c" using digit_not_plain(6,8,9) [of c] by auto
  with t low show "\<exists>c u. t = c # u \<and> \<not> is_digit c \<and> c \<noteq> CHR ''-'' \<and> c \<noteq> CHR ''+''" by auto
  have "set (ToLower t) \<subseteq> set ''infinityna''" using assms by auto
  then have "lower_char ` set t \<subseteq> set ''infinityna''" by (simp add: ToLower_def)
  then have "c \<in> set t \<Longrightarrow> lower_char c \<in> set ''infinityna''" for c by blast
  from this [of "CHR ''{''"] this [of "CHR ''[''"] low(1,2)
  show "CHR ''{'' \<notin> set t" "CHR ''['' \<notin> set t" by auto
qed

lemma parse_special: "special s = Some f \<Longrightarrow> parse_value s = CFloat f \<and> nonfinite (CFloat f)"
proof -
  assume special: "special s = Some f"
  obtain negative t where sign: "sign_of s = (negative, t)" by (cases "sign_of s")
  consider "ToLower t \<in> {''inf'', ''infinity''}" "f = FInf negative" | "ToLower s = ''nan''" "f = FNaN"
    using special by (auto simp: special_def sign split: if_splits)
  then have "(\<exists>c u. t = c # u \<and> \<not> is_digit c) \<and> CHR ''{'' \<notin> set s \<and> CHR ''['' \<notin> set s \<and> nonfinite (CFloat f)"
  proof cases
    case 1
    then have t: "ToLower t \<in> {''inf'', ''infinity'', ''nan''}" by blast
    have "s = t \<or> s = CHR ''-'' # t \<or> s = CHR ''+'' # t" using sign by (cases s) (auto simp: sign_of_def split: if_splits)
    then have "set s \<subseteq> {CHR ''-'', CHR ''+''} \<union> set t" by auto
    then have "CHR ''{'' \<notin> set s" "CHR ''['' \<notin> set s" using lower_word(2,3) [OF t] by auto
    with lower_word(1) [OF t] 1(2) show ?thesis by auto
  next
    case 2
    then have word: "ToLower s \<in> {''inf'', ''infinity'', ''nan''}" by blast
    from lower_word(1) [OF this] obtain c u where c: "s = c # u" "\<not> is_digit c" "c \<noteq> CHR ''-''" "c \<noteq> CHR ''+''" by blast
    with sign have "t = s" by (simp add: sign_of_def)
    with c 2(2) lower_word(2,3) [OF word] show ?thesis by auto
  qed
  then have "(\<exists>c u. t = c # u \<and> \<not> is_digit c) \<and> \<not> isJSONSyntax s \<and> nonfinite (CFloat f)"
    using JSON_has_bracket by blast
  moreover from this have "Atoi s = None" by (auto simp: Atoi_def sign is_digit_def)
  ultimately show ?thesis using special by (simp add: parse_value_def tryParseInt_def tryParseFloat_def ParseFloat_def)
qed

text \<open>The key that an argument sets at the top of the configuration, and that arguments with other keys leave it.\<close>

definition arg_root :: "string \<Rightarrow> string" where
  "arg_root arg = hd (Split CHR ''.'' (underscored (TrimPrefix (fst (SplitN2 CHR ''='' arg)) ''--'')))"

lemma SplitN2_none: "d \<notin> set s \<Longrightarrow> SplitN2 d s = (s, [])"
  by (induction s) auto

lemma hd_Split_plain: "d \<notin> set (hd (Split d s))"
  by (induction s) (auto split: list.splits)

lemma set_value_other:
  assumes "hd (Split CHR ''.'' key) \<noteq> top_key" and "CHR ''.'' \<notin> set top_key"
  shows "map_of (set_value config key v) top_key = map_of config top_key"
proof (cases "CHR ''.'' \<in> set key")
  case True
  obtain k ks where ks: "Split CHR ''.'' key = k # ks" by (meson Split_not_Nil list.exhaust)
  with True assms show ?thesis
    by (simp add: set_value_def Contains_char createNestedMap_Cons recursiveMerge_lookup wf_map_def del: recursiveMerge.simps)
next
  case False
  with assms show ?thesis by (auto simp: set_value_def Contains_char Split_single split: option.splits cfg.splits)
qed

lemma other_key: "hd (Split CHR ''.'' key) \<noteq> top_key \<Longrightarrow> CHR ''.'' \<notin> set top_key \<Longrightarrow> key \<noteq> top_key"
  by (auto simp: Split_single)

lemma convert_args_other:
  assumes "\<forall>a \<in> set args. HasPrefix a ''--'' \<longrightarrow> arg_root a \<noteq> top_key" and "CHR ''.'' \<notin> set top_key"
  shows "map_of (convert_args config args) top_key = map_of config top_key"
  using assms(1)
proof (induction config args rule: convert_args.induct)
  case (2 config arg rest)
  consider "\<not> HasPrefix arg ''--''" | "HasPrefix arg ''--''" "Contains arg ''=''"
    | "HasPrefix arg ''--''" "\<not> Contains arg ''=''"
    by blast
  then show ?case
  proof cases
    case 1
    with 2 show ?thesis by simp
  next
    case 2
    obtain k v where kv: "SplitN2 CHR ''='' arg = (k, v)" by (cases "SplitN2 CHR ''='' arg")
    with 2 "2.prems" have "hd (Split CHR ''.'' (underscored (TrimPrefix k ''--''))) \<noteq> top_key" by (simp add: arg_root_def)
    with 2 "2.IH"(2) "2.prems" kv show ?thesis by (simp add: set_value_other [OF _ assms(2)])
  next
    case 3
    then have "SplitN2 CHR ''='' arg = (arg, [])" by (simp add: Contains_char SplitN2_none)
    with 3 "2.prems" have "hd (Split CHR ''.'' (underscored (TrimPrefix arg ''--''))) \<noteq> top_key" by (simp add: arg_root_def)
    note other = set_value_other [OF this assms(2)] other_key [OF this assms(2)]
    show ?thesis
    proof (cases rest)
      case Nil
      with 3 other(2) show ?thesis by simp
    next
      case (Cons v rest')
      with "2.IH"(3,4) [OF _ 3(2) refl Cons] 3 "2.prems" other show ?thesis
        by (subst convert_args.simps) (auto simp: Let_def simp del: convert_args.simps)
    qed
  qed
qed simp

lemma special_value: "special s = Some f \<Longrightarrow> \<not> HasPrefix s ''--''"
proof
  assume special: "special s = Some f" and "HasPrefix s ''--''"
  then obtain u where s: "s = ''--'' @ u" by (auto simp: HasPrefix_def prefix_def)
  then have "sign_of s = (True, CHR ''-'' # u)" by (simp add: sign_of_def)
  with special have "ToLower (CHR ''-'' # u) \<in> {''inf'', ''infinity'', ''nan''} \<or> ToLower s \<in> {''inf'', ''infinity'', ''nan''}"
    by (auto simp: special_def split: if_splits)
  with s show False by (auto simp: ToLower_def lower_char_def)
qed

text \<open>The two ways to give a value, and what they store.\<close>

definition gives :: "string \<Rightarrow> string \<Rightarrow> string list \<Rightarrow> bool" where
  "gives key value args = (CHR ''='' \<notin> set key \<and> (args = [''--'' @ key @ ''='' @ value] \<or> args = [''--'' @ key, value]))"

lemma convert_args_gives:
  assumes "gives key word given" and "\<not> HasPrefix word ''--''"
  shows "convert_args config (given @ rest) = convert_args (set_value config (underscored key) (parse_value word)) rest"
proof -
  have key: "CHR ''='' \<notin> set key" using assms(1) by (simp add: gives_def)
  from assms(1) consider "given = [''--'' @ key @ ''='' @ word]" | "given = [''--'' @ key, word]" by (auto simp: gives_def)
  then show ?thesis
  proof cases
    case 1
    with convert_args_pair [OF key] show ?thesis by simp
  next
    case 2
    have "convert_args config (arg # word # rest) = convert_args (set_value config (underscored key) (parse_value word)) rest"
      if "HasPrefix arg ''--''" "TrimPrefix arg ''--'' = key" "CHR ''='' \<notin> set arg" for arg
      using that assms(2) by (simp add: Contains_char)
    note space_form = this [of "''--'' @ key", OF HasPrefix_append TrimPrefix_append]
    have "CHR ''='' \<notin> set (''--'' @ key)" using key by simp
    from space_form [OF this] show ?thesis unfolding 2 append_Cons append_Nil .
  qed
qed

lemma arg_root_key: "CHR ''='' \<notin> set key \<Longrightarrow> arg_root (''--'' @ key) = hd (Split CHR ''.'' (underscored key))"
proof -
  assume "CHR ''='' \<notin> set key"
  then have "SplitN2 CHR ''='' (''--'' @ key) = (''--'' @ key, [])" by (intro SplitN2_none) simp
  then show ?thesis by (simp only: arg_root_def fst_conv TrimPrefix_append)
qed

text \<open>
  An argument with such a word as its value puts it into the configuration, where it stays unless
  a later argument has the same key.
\<close>

lemma BuildVLLMConfig_nonfinite:
  assumes "args = before @ given @ after" and "gives key word given" and "special word = Some f"
    and "\<forall>a \<in> set after. HasPrefix a ''--'' \<longrightarrow> arg_root a \<noteq> arg_root (''--'' @ key)"
  shows "nonfinite (CMap (BuildVLLMConfig modelId revision gpu n args))"
proof -
  note v = parse_special [OF assms(3)]
  let ?c = "set_value (convert_args [] before) (underscored key) (CFloat f)"
  obtain k ks where ks: "Split CHR ''.'' (underscored key) = k # ks" by (meson Split_not_Nil list.exhaust)
  obtain arg rest where given: "given = arg # rest" "HasPrefix arg ''--''"
    using assms(2) HasPrefix_append by (auto simp: gives_def HasPrefix_def)
  have "ConvertArgsToVLLMConfig args = convert_args ?c after"
    unfolding ConvertArgsToVLLMConfig_def assms(1)
    using convert_args_gives [OF assms(2) special_value [OF assms(3)]] convert_args_append [OF given(2)] given(1) v by simp
  moreover have "cfg_at (CMap ?c) (k # ks) = Some (CFloat f)"
    using set_value_at [of "CFloat f" "convert_args [] before" "underscored key"] ks by (simp add: is_map_def)
  moreover have "map_of (convert_args ?c after) k = map_of ?c k"
    using assms(4) arg_root_key [of key] assms(2) hd_Split_plain [of "CHR ''.''" "underscored key"] ks by (intro convert_args_other) (simp_all add: gives_def)
  ultimately obtain c where c: "map_of (ConvertArgsToVLLMConfig args) k = Some c" "cfg_at c ks = Some (CFloat f)"
    by (auto split: option.splits)
  have "map_of (BuildVLLMConfig modelId revision gpu n args) k = Some c"
    using c(1) put_all.lookup_merge [OF wf_map_default_config, of "ConvertArgsToVLLMConfig args" modelId revision gpu n] assms(1) given
    by (simp add: BuildVLLMConfig_def ConvertArgsToVLLMConfig_def wf_map_convert_args)
  with nonfinite_at [OF c(2)] v show ?thesis by (auto simp: list_ex_iff dest: map_of_SomeD)
qed

text \<open>Arguments that print a configuration: scalars as they are, arrays and objects as JSON.\<close>

definition show_value :: "cfg \<Rightarrow> string" where
  "show_value v = (case v of CStr s \<Rightarrow> s | _ \<Rightarrow> show_json v)"

definition show_args :: "cfg gomap \<Rightarrow> string list" where
  "show_args m = map (\<lambda>(k, v). ''--'' @ k @ ''='' @ show_value v) m"

definition plain_key :: "string \<Rightarrow> bool" where
  "plain_key k = (CHR ''='' \<notin> set k \<and> CHR ''-'' \<notin> set k \<and> CHR ''.'' \<notin> set k)"

text \<open>
  A value that reads back as what it prints: a 64-bit integer, a boolean, a finite float that does
  not print as an integer, a string that is none of the other forms, and any array or object that
  JSON can carry.
\<close>

fun readable :: "cfg \<Rightarrow> bool" where
  "readable CNull = False"
| "readable (CInt i) = in_int64 i"
| "readable (CBool b) = True"
| "readable (CFloat f) = (finite_float f \<and> Atoi (show_float f) = None)"
| "readable (CStr s) = (\<not> isJSONSyntax s \<and> Atoi s = None \<and> ParseFloat s = None \<and> s \<noteq> ''true'' \<and> s \<noteq> ''false'')"
| "readable v = (json_value v \<and> nesting v \<le> max_nesting_depth)"

lemma JSON_show_container: "is_container v \<Longrightarrow> isJSONSyntax (show_json v)"
proof -
  assume "is_container v"
  then obtain a b u where v: "show_json v = a # u @ [b]" "(a, b) \<in> {(CHR ''{'', CHR ''}''), (CHR ''['', CHR '']'')}"
    by (cases v) (auto simp: is_container_def)
  then have "TrimSpace (show_json v) = show_json v" by (auto simp: TrimSpace_def is_space_def)
  moreover have "HasSuffix (show_json v) [b]" using suffixI [of "show_json v" "a # u" "[b]"] v(1) by (simp add: HasSuffix_def)
  ultimately show ?thesis using v by (auto simp: isJSONSyntax_def Let_def HasPrefix_def)
qed

lemma parse_show_bool: "parse_value (show_value (CBool b)) = CBool b"
proof -
  have "parse_value ''true'' = CBool True" "parse_value ''false'' = CBool False" by code_simp+
  then show ?thesis by (cases b) (simp_all add: show_value_def)
qed

lemma parse_show_value: "readable v \<Longrightarrow> parse_value (show_value v) = v"
proof (cases "is_container v")
  case True
  assume "readable v"
  with True have "json_value v" "nesting v \<le> max_nesting_depth" by (cases v; simp add: is_container_def)+
  with True JSON_show_container [OF True] Unmarshal_show_json [of v] show ?thesis
    by (cases v) (simp_all add: parse_value_def show_value_def is_container_def)
next
  case False
  assume "readable v"
  with False parse_show_bool show ?thesis
    by (cases v)
      (simp_all add: parse_value_def show_value_def is_container_def tryParseInt_def tryParseFloat_def
        Atoi_show_int not_JSON_show_int not_JSON_show_float ParseFloat_show_float)
qed

lemma underscored_plain: "plain_key k \<Longrightarrow> underscored k = k"
  by (auto simp: plain_key_def replace_char_def intro!: map_idI)

lemma set_value_fresh:
  "plain_key k \<Longrightarrow> map_of m k = None \<Longrightarrow> set_value m k v = m @ [(k, v)]"
  by (simp add: set_value_def plain_key_def Contains_char map_set_fresh)

lemma convert_show_args:
  assumes "list_all (\<lambda>(k, v). plain_key k \<and> readable v) m" and "wf_map (m0 @ m)"
  shows "convert_args m0 (show_args m) = m0 @ m"
  using assms
proof (induction m arbitrary: m0)
  case (Cons kv m)
  obtain k v where kv: "kv = (k, v)" by (cases kv)
  from Cons.prems(2) have "map_of m0 k = None" by (auto simp: kv wf_map_def map_of_eq_None_iff)
  with Cons.prems(1) have "set_value m0 (underscored k) (parse_value (show_value v)) = m0 @ [(k, v)]"
    by (simp add: kv parse_show_value underscored_plain set_value_fresh)
  moreover have "convert_args (m0 @ [(k, v)]) (show_args m) = (m0 @ [(k, v)]) @ m"
    using Cons.prems by (intro Cons.IH) (simp_all add: kv)
  moreover have "CHR ''='' \<notin> set k" using Cons.prems(1) by (simp add: kv plain_key_def)
  ultimately show ?case
    by (simp add: kv show_args_def convert_args_pair del: convert_args.simps append.simps)
qed (simp add: show_args_def)

text \<open>
  (C28) Printing a nested configuration as arguments and converting the arguments back gives the
  same configuration: 64-bit integers, booleans, floats, strings that do not read as something
  else, and arrays and objects printed as JSON, at any depth the JSON decoder accepts.
\<close>

theorem ConvertArgs_show_args:
  assumes "list_all (\<lambda>(k, v). plain_key k \<and> readable v) m" and "wf_map m"
  shows "ConvertArgsToVLLMConfig (show_args m) = m"
  unfolding ConvertArgsToVLLMConfig_def using convert_show_args [of m "[]"] assms by simp

text \<open>In JSON the mode 3 is a float; as an argument of its own it would be an integer.\<close>

definition sample_config :: "cfg gomap" where
  "sample_config = [(''max_num_seqs'', CInt 64), (''dtype'', CStr ''float16''), (''enforce_eager'', CBool False),
     (''compilation_config'', CMap [(''mode'', CFloat (FFin False 6755399441055744 (- 51))), (''passes'', CArr [CStr ''a\"b'', CNull])])]"

theorem ConvertArgs_show_args_witness:
  "ConvertArgsToVLLMConfig [''--max_num_seqs=64'', ''--dtype=float16'', ''--enforce_eager=false'',
     ''--compilation_config={\"mode\":3,\"passes\":[\"a'' @ [backslash] @ ''\"b\",null]}''] = sample_config"
proof -
  have "list_all (\<lambda>(k, v). plain_key k \<and> readable v) sample_config \<and> wf_map sample_config" by code_simp
  then have "ConvertArgsToVLLMConfig (show_args sample_config) = sample_config" by (intro ConvertArgs_show_args) simp_all
  moreover have "show_args sample_config = [''--max_num_seqs=64'', ''--dtype=float16'', ''--enforce_eager=false'',
     ''--compilation_config={\"mode\":3,\"passes\":[\"a'' @ [backslash] @ ''\"b\",null]}'']" by code_simp
  ultimately show ?thesis by simp
qed

text \<open>
  The configuration of an engine: every key of the user's arguments overrides, every other
  key keeps its default. So the setting trust_remote_code, documented as always disabled, is
  disabled exactly when no argument sets it to anything else.
\<close>

lemma BuildVLLMConfig_layers:
  "map_of (BuildVLLMConfig modelId revision gpu n args) =
     map_of (default_config modelId revision gpu n) ++ map_of (ConvertArgsToVLLMConfig args) \<and>
   (map_of (BuildVLLMConfig modelId revision gpu n args) ''trust_remote_code'' = Some (CBool False) \<longleftrightarrow>
      map_of (ConvertArgsToVLLMConfig args) ''trust_remote_code'' \<in> {None, Some (CBool False)}) \<and>
   map_of (BuildVLLMConfig modelId revision gpu n [''--trust-remote-code'']) ''trust_remote_code'' = Some (CBool True)"
proof -
  have wf: "wf_map (ConvertArgsToVLLMConfig a)" for a
    by (simp add: ConvertArgsToVLLMConfig_def wf_map_convert_args)
  have eq: "map_of (BuildVLLMConfig modelId revision gpu n a) =
      map_of (default_config modelId revision gpu n) ++ map_of (ConvertArgsToVLLMConfig a)" for a
    using put_all.lookup_merge [OF wf_map_default_config wf]
    by (cases "a = []") (simp_all add: BuildVLLMConfig_def ConvertArgsToVLLMConfig_def)
  have flag: "ConvertArgsToVLLMConfig [''--trust-remote-code''] = [(''trust_remote_code'', CBool True)]"
    by (simp add: ConvertArgsToVLLMConfig_def HasPrefix_def Contains_char TrimPrefix_def replace_char_def map_set_def)
  have off: "map_of (default_config modelId revision gpu n) ''trust_remote_code'' = Some (CBool False)"
    by (simp add: default_config_def Let_def)
  show ?thesis
    by (intro conjI, rule eq) (auto simp: eq off flag map_add_def split: option.splits)
qed

end
