(* ===== verification/Assets.thy ===== *)
theory Assets
  imports Sample_Cluster
begin

text \<open>
  \<^verbatim>\<open>internal/controller/assets\<close>: the embedded templates and scripts and how they are looked up.
  The bytes of the embedded files and the decoder of manifests are parameters (\<open>assets\<close>); the
  paths that the loaders ask for are modelled, with \<^verbatim>\<open>path.Join\<close>, \<^verbatim>\<open>fs.ValidPath\<close> and \<^verbatim>\<open>fs.Sub\<close>
  of the standard library.
\<close>

section \<open>Paths\<close>

text \<open>\<^verbatim>\<open>path.Clean\<close>: the components kept so far, last one first.\<close>

fun clean_components :: "bool \<Rightarrow> string list \<Rightarrow> string list \<Rightarrow> string list" where
  "clean_components rooted acc [] = rev acc"
| "clean_components rooted acc (c # cs) =
     (if c = [] \<or> c = ''.'' then clean_components rooted acc cs
      else if c = ''..'' then
        (case acc of
           [] \<Rightarrow> if rooted then clean_components rooted [] cs else clean_components rooted [c] cs
         | a # acc' \<Rightarrow> if a = ''..'' then clean_components rooted (c # acc) cs else clean_components rooted acc' cs)
      else clean_components rooted (c # acc) cs)"

definition path_Clean :: "string \<Rightarrow> string" where
  "path_Clean p =
     (if p = [] then ''.''
      else (let rooted = HasPrefix p ''/''; cs = clean_components rooted [] (Split CHR ''/'' p)
            in if rooted then ''/'' @ Join cs ''/'' else if cs = [] then ''.'' else Join cs ''/''))"

definition path_Join :: "string list \<Rightarrow> string" where
  "path_Join elems = (let es = filter (\<lambda>e. e \<noteq> []) elems in if es = [] then [] else path_Clean (Join es ''/''))"

definition ValidPath :: "string \<Rightarrow> bool" where
  "ValidPath name = (name = ''.'' \<or> list_all (\<lambda>c. c \<noteq> [] \<and> c \<noteq> ''.'' \<and> c \<noteq> ''..'') (Split CHR ''/'' name))"

section \<open>Model\<close>

record assets =
  as_LLMEngine :: "string \<Rightarrow> string option"
  as_ModelRepository :: "string \<Rightarrow> string option"
  as_DecodeDeployment :: "string \<Rightarrow> go_error + Deployment"
  as_DecodeService :: "string \<Rightarrow> go_error + Service"
  as_DecodeJob :: "string \<Rightarrow> go_error + Job"

definition ReadFile :: "(string \<Rightarrow> string option) \<Rightarrow> string \<Rightarrow> go_error + string" where
  "ReadFile files name =
     (if \<not> ValidPath name then Inl (new_error (''open '' @ name @ '': invalid argument''))
      else case files name of
        None \<Rightarrow> Inl (new_error (''open '' @ name @ '': file does not exist''))
      | Some data \<Rightarrow> Inr data)"

text \<open>The two loaders of manifests, over the file system and the decoder of the target's type.\<close>

definition load_manifest ::
  "(string \<Rightarrow> string option) \<Rightarrow> (string \<Rightarrow> go_error + 'o) \<Rightarrow> string \<Rightarrow> go_error + 'o" where
  "load_manifest files decode filePath =
     (case ReadFile files filePath of
        Inl err \<Rightarrow> Inl (wrap_error (''failed to read '' @ filePath @ '': '') err)
      | Inr data \<Rightarrow> (case decode data of
          Inl err \<Rightarrow> Inl (wrap_error (''failed to decode '' @ filePath @ '': '') err)
        | Inr x \<Rightarrow> Inr x))"

definition loadLLMEngineManifestInto ::
  "assets \<Rightarrow> (string \<Rightarrow> go_error + 'o) \<Rightarrow> string \<Rightarrow> string \<Rightarrow> go_error + 'o" where
  "loadLLMEngineManifestInto A decode engineType fileName =
     load_manifest (as_LLMEngine A) decode (path_Join [''llmengine'', engineType, fileName])"

definition LoadLLMEngineDeploymentManifest :: "assets \<Rightarrow> string \<Rightarrow> go_error + Deployment" where
  "LoadLLMEngineDeploymentManifest A engineType =
     loadLLMEngineManifestInto A (as_DecodeDeployment A) engineType ''deployment.yaml''"

definition LoadLLMEngineServiceManifest :: "assets \<Rightarrow> string \<Rightarrow> go_error + Service" where
  "LoadLLMEngineServiceManifest A engineType =
     loadLLMEngineManifestInto A (as_DecodeService A) engineType ''service.yaml''"

definition loadModelRepositoryManifestInto ::
  "assets \<Rightarrow> (string \<Rightarrow> go_error + 'o) \<Rightarrow> string \<Rightarrow> string \<Rightarrow> go_error + 'o" where
  "loadModelRepositoryManifestInto A decode origin fileName =
     load_manifest (as_ModelRepository A) decode (path_Join [''modelrepository'', origin, fileName])"

definition LoadModelRepositoryJobManifest :: "assets \<Rightarrow> string \<Rightarrow> string \<Rightarrow> go_error + Job" where
  "LoadModelRepositoryJobManifest A origin jobType =
     loadModelRepositoryManifestInto A (as_DecodeJob A) origin (jobType @ ''.yaml'')"

text \<open>\<^verbatim>\<open>fs.Sub\<close>: the directory of an origin, as the prefix of its files' paths.\<close>

definition GetModelRepositoryOriginAssets :: "string \<Rightarrow> go_error + string" where
  "GetModelRepositoryOriginAssets origin =
     (let dir = ''modelrepository/'' @ origin in
      if \<not> ValidPath dir then Inl (new_error (''sub '' @ dir @ '': invalid argument'')) else Inr dir)"

definition LoadModelRepositoryScript :: "assets \<Rightarrow> string \<Rightarrow> string \<Rightarrow> go_error + string" where
  "LoadModelRepositoryScript A origin scriptFile =
     (case GetModelRepositoryOriginAssets origin of
        Inl err \<Rightarrow> Inl (wrap_error (''failed to get assets for origin '' @ origin @ '': '') err)
      | Inr dir \<Rightarrow>
          (case (if \<not> ValidPath scriptFile then Inl (new_error (''open '' @ scriptFile @ '': invalid argument''))
                 else ReadFile (as_ModelRepository A) (path_Join [dir, scriptFile])) of
             Inl err \<Rightarrow> Inl (wrap_error (''failed to read script '' @ scriptFile @ '': '') err)
           | Inr script \<Rightarrow> Inr script))"

section \<open>The files that the repository embeds\<close>

text \<open>The paths under \<^verbatim>\<open>llmengine/*/*\<close> and \<^verbatim>\<open>modelrepository/*/*\<close>.\<close>

definition embedded :: "assets \<Rightarrow> bool" where
  "embedded A =
     (list_all (\<lambda>p. as_LLMEngine A p \<noteq> None)
        [''llmengine/ollama/deployment.yaml'', ''llmengine/ollama/service.yaml'',
         ''llmengine/vllm/deployment.yaml'', ''llmengine/vllm/service.yaml''] \<and>
      list_all (\<lambda>p. as_ModelRepository A p \<noteq> None)
        [''modelrepository/huggingface/cleanup.py'', ''modelrepository/huggingface/cleanup_job.yaml'',
         ''modelrepository/huggingface/download.py'', ''modelrepository/huggingface/download_job.yaml'',
         ''modelrepository/ollama/cleanup.sh'', ''modelrepository/ollama/cleanup_job.yaml'',
         ''modelrepository/ollama/download.sh'', ''modelrepository/ollama/download_job.yaml''])"

text \<open>The paths the loaders build are those paths.\<close>

lemma embedded_paths [simp]:
  "path_Join [''llmengine'', ''vllm'', ''deployment.yaml''] = ''llmengine/vllm/deployment.yaml''"
  "path_Join [''llmengine'', ''ollama'', ''deployment.yaml''] = ''llmengine/ollama/deployment.yaml''"
  "path_Join [''llmengine'', ''vllm'', ''service.yaml''] = ''llmengine/vllm/service.yaml''"
  "path_Join [''llmengine'', ''ollama'', ''service.yaml''] = ''llmengine/ollama/service.yaml''"
  "path_Join [''modelrepository'', ''huggingface'', ''download_job.yaml''] = ''modelrepository/huggingface/download_job.yaml''"
  "path_Join [''modelrepository'', ''huggingface'', ''cleanup_job.yaml''] = ''modelrepository/huggingface/cleanup_job.yaml''"
  "path_Join [''modelrepository'', ''ollama'', ''download_job.yaml''] = ''modelrepository/ollama/download_job.yaml''"
  "path_Join [''modelrepository'', ''ollama'', ''cleanup_job.yaml''] = ''modelrepository/ollama/cleanup_job.yaml''"
  "path_Join [''modelrepository/huggingface'', ''download.py''] = ''modelrepository/huggingface/download.py''"
  "path_Join [''modelrepository/huggingface'', ''cleanup.py''] = ''modelrepository/huggingface/cleanup.py''"
  "path_Join [''modelrepository/ollama'', ''download.sh''] = ''modelrepository/ollama/download.sh''"
  "path_Join [''modelrepository/ollama'', ''cleanup.sh''] = ''modelrepository/ollama/cleanup.sh''"
  by code_simp+

lemma embedded_valid [simp]:
  "ValidPath ''llmengine/vllm/deployment.yaml''" "ValidPath ''llmengine/ollama/deployment.yaml''"
  "ValidPath ''llmengine/vllm/service.yaml''" "ValidPath ''llmengine/ollama/service.yaml''"
  "ValidPath ''modelrepository/huggingface/download_job.yaml''" "ValidPath ''modelrepository/huggingface/cleanup_job.yaml''"
  "ValidPath ''modelrepository/ollama/download_job.yaml''" "ValidPath ''modelrepository/ollama/cleanup_job.yaml''"
  "ValidPath ''modelrepository/huggingface/download.py''" "ValidPath ''modelrepository/huggingface/cleanup.py''"
  "ValidPath ''modelrepository/ollama/download.sh''" "ValidPath ''modelrepository/ollama/cleanup.sh''"
  "ValidPath ''modelrepository/huggingface''" "ValidPath ''modelrepository/ollama''"
  "ValidPath ''download.py''" "ValidPath ''cleanup.py''" "ValidPath ''download.sh''" "ValidPath ''cleanup.sh''"
  by code_simp+

lemma ReadFile_embedded: "ValidPath name \<Longrightarrow> files name = Some data \<Longrightarrow> ReadFile files name = Inr data"
  by (simp add: ReadFile_def)

end
