(* ===== verification/Engine_Adapters.thy ===== *)
theory Engine_Adapters
  imports Vllm_Config Storage_Provider Names
begin

text \<open>
  \<^verbatim>\<open>internal/controller/adapters\<close>: what the operator makes of the templates for one engine and one
  model. Environment, resources and node selectors are merged in layers; the merges are instances
  of the interface \<open>layered_merge\<close>. An adapter returns \<open>None\<close> where the Go code panics (an index
  into an empty list of containers or ports, a name).
\<close>

section \<open>Model: settings\<close>

abbreviation DefaultGPUResourceType :: string where "DefaultGPUResourceType \<equiv> ''nvidia.com/gpu''"

abbreviation DefaultVLLMImage :: string where "DefaultVLLMImage \<equiv> ''vllm/vllm-openai:latest''"

abbreviation DefaultOllamaImage :: string where "DefaultOllamaImage \<equiv> ''ollama/ollama:latest''"

abbreviation VLLMConfigMapKeyName :: string where "VLLMConfigMapKeyName \<equiv> ''vllm-config.yaml''"

abbreviation VLLMConfigFilePath :: string where "VLLMConfigFilePath \<equiv> ''/etc/vllm/vllm-config.yaml''"

definition GetStoragePaths :: "LLMEngine \<Rightarrow> ModelRepository option \<Rightarrow> string \<times> smap" where
  "GetStoragePaths le repo =
     (let modelPath = (case repo of
            Some mr \<Rightarrow> if ms_MountPath (mrs_Storage (mr_Spec mr)) \<noteq> [] then ms_MountPath (mrs_Storage (mr_Spec mr))
                       else DefaultModelStoragePath
          | None \<Rightarrow> DefaultModelStoragePath)
      in (modelPath,
          if les_EngineType (le_Spec le) = LLMEngineTypeVLLM then
            (case repo of
               Some mr \<Rightarrow> if src_Origin (mrs_Source (mr_Spec mr)) = ModelOriginHuggingFace
                 then [(''HF_HOME'', modelPath)] else []
             | None \<Rightarrow> [])
          else if les_EngineType (le_Spec le) = LLMEngineTypeOllama then [(''OLLAMA_MODELS'', modelPath)]
          else []))"

definition DetectGPURequest :: "LLMEngine \<Rightarrow> bool" where
  "DetectGPURequest le = (case les_GPU (le_Spec le) of Some g \<Rightarrow> gpu_Enabled g | None \<Rightarrow> False)"

definition sortedEnvFromMap :: "smap \<Rightarrow> EnvVar list" where
  "sortedEnvFromMap envPaths = map (\<lambda>k. env_var k (smap_get envPaths k)) (sort (map fst envPaths))"

definition MergeEnvVars :: "EnvVar list \<Rightarrow> EnvVar list \<Rightarrow> EnvVar list" where
  "MergeEnvVars defaultEnv userEnv =
     userEnv @ filter (\<lambda>e. \<not> list_ex (\<lambda>u. ev_Name u = ev_Name e) userEnv) defaultEnv"

definition BuildOllamaEnv :: "LLMEngine \<Rightarrow> ModelRepository option \<Rightarrow> bool \<Rightarrow> EnvVar list" where
  "BuildOllamaEnv le repo requestGPU =
     (let commonEnv = [env_var ''OLLAMA_HOST'' ''0.0.0.0'', env_var ''OLLAMA_ORIGINS'' ''*'',
                       env_var ''OLLAMA_MAX_LOADED_MODELS'' ''1''] @ sortedEnvFromMap (snd (GetStoragePaths le repo));
          specificEnv = (if requestGPU then
              [env_var ''OLLAMA_NUM_PARALLEL'' ''4'', env_var ''OLLAMA_FLASH_ATTENTION'' ''1'',
               env_var ''CUDA_VISIBLE_DEVICES'' ''0'', env_var ''OLLAMA_GPU_OVERHEAD'' ''0.05'']
            else [env_var ''OLLAMA_NUM_PARALLEL'' ''2'', env_var ''OLLAMA_NUM_GPU'' ''0'', env_var ''OMP_NUM_THREADS'' ''8''])
      in MergeEnvVars (commonEnv @ specificEnv) (les_Env (le_Spec le)))"

text \<open>The reference to the HuggingFace token, under the name that the reader of it expects.\<close>

definition token_env :: "string \<Rightarrow> ModelSource \<Rightarrow> EnvVar list" where
  "token_env name src =
     (if src_HFTokenSecret src \<noteq> [] then
        [\<lparr>ev_Name = name, ev_Value = [], ev_ValueFrom = Some (SecretKeyRef (src_HFTokenSecret src)
            (if src_HFTokenSecretKey src = [] then ''HFToken'' else src_HFTokenSecretKey src))\<rparr>]
      else [])"

definition BuildVLLMEnv :: "LLMEngine \<Rightarrow> ModelRepository option \<Rightarrow> bool \<Rightarrow> EnvVar list" where
  "BuildVLLMEnv le repo requestGPU =
     (let commonEnv = [env_var ''VLLM_LOGGING_LEVEL'' ''WARNING'', env_var ''VLLM_WORKER_MULTIPROC_METHOD'' ''spawn''] @
            (case repo of
               Some mr \<Rightarrow> if src_Origin (mrs_Source (mr_Spec mr)) = ModelOriginHuggingFace
                 then token_env ''HUGGING_FACE_HUB_TOKEN'' (mrs_Source (mr_Spec mr)) else []
             | None \<Rightarrow> []) @
            sortedEnvFromMap (snd (GetStoragePaths le repo));
          specificEnv = (if requestGPU then [] else [env_var ''OMP_NUM_THREADS'' ''8'', env_var ''MKL_NUM_THREADS'' ''8''])
      in MergeEnvVars (commonEnv @ specificEnv) (les_Env (le_Spec le)))"

definition GetPodPort :: "LLMEngine \<Rightarrow> int" where
  "GetPodPort le =
     (if les_Port (le_Spec le) \<noteq> 0 then les_Port (le_Spec le)
      else if les_EngineType (le_Spec le) = LLMEngineTypeOllama then 11434
      else if les_EngineType (le_Spec le) = LLMEngineTypeVLLM then 8000
      else 8080)"

definition GetServicePort :: "LLMEngine \<Rightarrow> int" where
  "GetServicePort le = (if les_ServicePort (le_Spec le) \<noteq> 0 then les_ServicePort (le_Spec le) else 8080)"

definition BuildGPUResources :: "k8s_lib \<Rightarrow> GPUConfig \<Rightarrow> ResourceRequirements" where
  "BuildGPUResources L g =
     (let gpuType = (if gpu_Type g = [] then DefaultGPUResourceType else gpu_Type g);
          gpuCount = (if gpu_Count g = 0 then 1 else gpu_Count g)
      in \<lparr>rr_Limits = [(gpuType, lib_NewQuantity L gpuCount)], rr_Requests = [(gpuType, lib_NewQuantity L gpuCount)]\<rparr>)"

definition MergeResourceRequirements :: "ResourceRequirements \<Rightarrow> ResourceRequirements \<Rightarrow> ResourceRequirements" where
  "MergeResourceRequirements base additional =
     \<lparr>rr_Limits = map_put_all (map_put_all [] (rr_Limits base)) (rr_Limits additional),
      rr_Requests = map_put_all (map_put_all [] (rr_Requests base)) (rr_Requests additional)\<rparr>"

definition GetDefaultGPUNodeSelector :: "string \<Rightarrow> smap" where
  "GetDefaultGPUNodeSelector t =
     (let gpuType = (if t = [] then DefaultGPUResourceType else t)
      in if gpuType = DefaultGPUResourceType then [(DefaultGPUResourceType @ ''.present'', ''true'')]
         else if gpuType = ''amd.com/gpu'' then [(''amd.com/gpu.present'', ''true'')]
         else [])"

definition BuildGPUNodeSelector :: "GPUConfig \<Rightarrow> LLMEngine \<Rightarrow> smap" where
  "BuildGPUNodeSelector g le =
     map_put_absent (map_put_all (map_put_all [] (les_NodeSelector (le_Spec le))) (gpu_NodeSelector g))
       (GetDefaultGPUNodeSelector (gpu_Type g))"

definition GetDefaultGPUTolerations :: "string \<Rightarrow> Toleration list" where
  "GetDefaultGPUTolerations t =
     (let gpuType = (if t = [] then DefaultGPUResourceType else t);
          tolerate = (\<lambda>key. \<lparr>tol_Key = key, tol_Operator = ''Exists'', tol_Effect = ''NoSchedule''\<rparr>)
      in if gpuType = DefaultGPUResourceType then [tolerate DefaultGPUResourceType]
         else if gpuType = ''amd.com/gpu'' then [tolerate ''amd.com/gpu'']
         else [])"

definition BuildGPUTolerations :: "GPUConfig \<Rightarrow> Toleration list" where
  "BuildGPUTolerations g = (if gpu_Tolerations g \<noteq> [] then gpu_Tolerations g else GetDefaultGPUTolerations (gpu_Type g))"

section \<open>Model: adapters\<close>

record LLMEngineContext =
  ctx_LLMEngine :: LLMEngine
  ctx_ModelRepo :: ModelRepository
  ctx_Namespace :: string
  ctx_ModelPVCName :: string

definition setDeploymentLabels :: "Deployment \<Rightarrow> string \<Rightarrow> string \<Rightarrow> string \<Rightarrow> Deployment" where
  "setDeploymentLabels d engineName modelName engineType =
     (let labels = [(''app'', engineName), (''model'', modelName), (''engine-type'', engineType)]
      in d\<lparr>dep_Meta := (dep_Meta d)\<lparr>om_Labels := map_put_all (om_Labels (dep_Meta d)) labels\<rparr>,
           dep_MatchLabels := [(''app'', engineName), (''model'', modelName)],
           dep_Template := (dep_Template d)\<lparr>pt_Labels := map_put_all (pt_Labels (dep_Template d)) labels\<rparr>\<rparr>)"

definition buildVLLMArgs :: "int \<Rightarrow> string list" where
  "buildVLLMArgs port = [''--config'', VLLMConfigFilePath, ''--host'', ''0.0.0.0'', ''--port'', show_int port]"

text \<open>The first volume of that name that is a ConfigMap gets the engine's ConfigMap.\<close>

fun set_config_volume :: "string \<Rightarrow> Volume list \<Rightarrow> Volume list" where
  "set_config_volume cm [] = []"
| "set_config_volume cm (v # vs) =
     (case v_Source v of
        ConfigMapSource _ \<Rightarrow> if v_Name v = ''vllm-config'' then v\<lparr>v_Source := ConfigMapSource cm\<rparr> # vs
                              else v # set_config_volume cm vs
      | _ \<Rightarrow> v # set_config_volume cm vs)"

text \<open>The container: image, port, mount, environment, arguments, resources.\<close>

definition adapt_container :: "k8s_lib \<Rightarrow> LLMEngine \<Rightarrow> ModelRepository \<Rightarrow> Container \<Rightarrow> Container option" where
  "adapt_container L le mr c =
     (case ct_Ports c of
        [] \<Rightarrow> None
      | _ # ports \<Rightarrow>
          (let spec = le_Spec le;
               podPort = GetPodPort le;
               requestGPU = DetectGPURequest le;
               image = (if les_Image spec \<noteq> [] then les_Image spec
                        else if les_EngineType spec = LLMEngineTypeOllama then DefaultOllamaImage
                        else DefaultVLLMImage);
               envs = (if les_EngineType spec = LLMEngineTypeOllama then BuildOllamaEnv le (Some mr) requestGPU
                       else BuildVLLMEnv le (Some mr) requestGPU);
               args = (if les_EngineType spec = LLMEngineTypeVLLM then buildVLLMArgs podPort
                       else if les_Args spec \<noteq> [] then les_Args spec else ct_Args c);
               resources = (case les_Resources spec of
                   Some res \<Rightarrow> MergeResourceRequirements (ct_Resources c) res | None \<Rightarrow> ct_Resources c);
               resources = (if requestGPU then
                   (case les_GPU spec of Some g \<Rightarrow> MergeResourceRequirements resources (BuildGPUResources L g) | None \<Rightarrow> resources)
                 else resources)
           in Some (c\<lparr>ct_Image := image, ct_Ports := podPort # ports,
                ct_VolumeMounts := ct_VolumeMounts c @ [\<lparr>vm_Name = ''model-storage'',
                   vm_MountPath = fst (GetStoragePaths le (Some mr)), vm_ReadOnly = True\<rparr>],
                ct_Env := MergeEnvVars (ct_Env c) envs, ct_Args := args, ct_Resources := resources\<rparr>)))"

definition storage_node_selector :: "ModelRepository \<Rightarrow> smap" where
  "storage_node_selector mr =
     (if RequiresNodeAffinity mr \<and> GetBoundNodeName mr \<noteq> [] then [(''kubernetes.io/hostname'', GetBoundNodeName mr)] else [])"

text \<open>The pod: volumes, node selector, tolerations, host IPC.\<close>

definition adapt_pod :: "LLMEngineContext \<Rightarrow> PodSpec \<Rightarrow> PodSpec" where
  "adapt_pod ctx pod =
     (let le = ctx_LLMEngine ctx; mr = ctx_ModelRepo ctx; requestGPU = DetectGPURequest le;
          volumes = ps_Volumes pod @ [\<lparr>v_Name = ''model-storage'', v_Source = PVCSource (ctx_ModelPVCName ctx) True\<rparr>];
          volumes = (if les_EngineType (le_Spec le) = LLMEngineTypeVLLM
                     then set_config_volume (GetVLLMConfigMapName (le_Name le) (mr_Name mr)) volumes else volumes);
          nodeSelector = storage_node_selector mr;
          nodeSelector = (case (requestGPU, les_GPU (le_Spec le)) of
              (True, Some g) \<Rightarrow> map_put_absent nodeSelector (BuildGPUNodeSelector g le) | _ \<Rightarrow> nodeSelector)
      in pod\<lparr>ps_Volumes := volumes,
             ps_NodeSelector := (if nodeSelector \<noteq> [] then nodeSelector else ps_NodeSelector pod),
             ps_Tolerations := (case (requestGPU, les_GPU (le_Spec le)) of
                 (True, Some g) \<Rightarrow> BuildGPUTolerations g | _ \<Rightarrow> ps_Tolerations pod),
             ps_HostIPC := (les_HostIPC (le_Spec le) \<or> ps_HostIPC pod)\<rparr>)"

definition AdaptDeployment :: "k8s_lib \<Rightarrow> LLMEngineContext \<Rightarrow> Deployment \<Rightarrow> (go_error + Deployment) option" where
  "AdaptDeployment L ctx deployment =
     (let le = ctx_LLMEngine ctx; mr = ctx_ModelRepo ctx in do {
        name \<leftarrow> ComponentName (le_Name le) (mr_Name mr);
        let d = deployment\<lparr>dep_Meta := (dep_Meta deployment)\<lparr>om_Name := name\<rparr>\<rparr>;
        let d = setDeploymentLabels d (le_Name le) (mr_Name mr) (les_EngineType (le_Spec le));
        let d = (case les_Replicas (le_Spec le) of Some n \<Rightarrow> d\<lparr>dep_Replicas := Some n\<rparr> | None \<Rightarrow> d);
        let pod = pt_Spec (dep_Template d);
        case ps_Containers pod of
          [] \<Rightarrow> None
        | c # cs \<Rightarrow> do {
            c' \<leftarrow> adapt_container L le mr c;
            Some (Inr (d\<lparr>dep_Template := (dep_Template d)\<lparr>pt_Spec := adapt_pod ctx (pod\<lparr>ps_Containers := c' # cs\<rparr>)\<rparr>\<rparr>)) } })"

definition AdaptService :: "LLMEngineContext \<Rightarrow> Service \<Rightarrow> (go_error + Service) option" where
  "AdaptService ctx service =
     (let le = ctx_LLMEngine ctx; mr = ctx_ModelRepo ctx;
          labels = [(''app'', le_Name le), (''model'', mr_Name mr)] in do {
        name \<leftarrow> ComponentName (le_Name le) (mr_Name mr);
        case svc_Ports service of
          [] \<Rightarrow> None
        | _ # ports \<Rightarrow> Some (Inr (service\<lparr>svc_Meta := (svc_Meta service)\<lparr>om_Name := name, om_Labels := labels\<rparr>,
            svc_Selector := labels, svc_Ports := (GetServicePort le, PortNumber (GetPodPort le)) # ports\<rparr>)) })"

text \<open>The configuration of a vLLM engine, from the first reference to the repository.\<close>

definition vllm_config :: "LLMEngine \<Rightarrow> ModelRepository \<Rightarrow> cfg gomap" where
  "vllm_config le mr =
     (let revision = (case find (\<lambda>ref. mref_Name ref = mr_Name mr) (les_ModelRefs (le_Spec le)) of
            Some ref \<Rightarrow> mref_Revision ref | None \<Rightarrow> []);
          requestGPU = DetectGPURequest le;
          gpuCount = (case (requestGPU, les_GPU (le_Spec le)) of
              (True, Some g) \<Rightarrow> if gpu_Count g = 0 then 1 else gpu_Count g | _ \<Rightarrow> 0)
      in BuildVLLMConfig (src_ModelId (mrs_Source (mr_Spec mr))) revision requestGPU gpuCount (les_Args (le_Spec le)))"

definition AdaptVLLMConfigMap ::
  "(cfg gomap \<Rightarrow> go_error + string) \<Rightarrow> LLMEngineContext \<Rightarrow> ConfigMap \<Rightarrow> go_error + ConfigMap" where
  "AdaptVLLMConfigMap marshal ctx cm =
     (let le = ctx_LLMEngine ctx; mr = ctx_ModelRepo ctx in
      case MarshalVLLMConfig marshal (vllm_config le mr) of
        Inl err \<Rightarrow> Inl (wrap_error ''failed to marshal vLLM config to YAML: '' err)
      | Inr yamlData \<Rightarrow> Inr (cm
          \<lparr>cm_Meta := (cm_Meta cm)\<lparr>om_Name := GetVLLMConfigMapName (le_Name le) (mr_Name mr), om_Namespace := le_Namespace le,
             om_Labels := map_set (map_set (map_set (om_Labels (cm_Meta cm)) ''app'' (le_Name le)) ''model'' (mr_Name mr))
               ''engine-type'' (les_EngineType (le_Spec le))\<rparr>,
           cm_Data := map_set (cm_Data cm) VLLMConfigMapKeyName yamlData\<rparr>))"

definition IsVLLMEngine :: "LLMEngineContext \<Rightarrow> go_error + bool" where
  "IsVLLMEngine ctx = Inr (les_EngineType (le_Spec (ctx_LLMEngine ctx)) = ''vllm'')"

section \<open>The merges are layered merges\<close>

definition env_lookup :: "EnvVar list \<Rightarrow> string \<Rightarrow> EnvVar option" where
  "env_lookup env = map_of (map (\<lambda>e. (ev_Name e, e)) env)"

definition distinct_env :: "EnvVar list \<Rightarrow> bool" where
  "distinct_env env = distinct (map ev_Name env)"

lemma env_lookup_None: "env_lookup env n = None \<longleftrightarrow> n \<notin> ev_Name ` set env"
  by (auto simp: env_lookup_def map_of_eq_None_iff image_image)

lemma env_lookup_filter:
  "env_lookup (filter (\<lambda>e. P (ev_Name e)) env) n = (if P n then env_lookup env n else None)"
  by (induction env) (auto simp: env_lookup_def)

lemma MergeEnvVars_lookup: "env_lookup (MergeEnvVars d u) = env_lookup d ++ env_lookup u"
proof
  fix n
  have "list_ex (\<lambda>x. ev_Name x = m) u \<longleftrightarrow> m \<in> ev_Name ` set u" for m
    by (auto simp: list_ex_iff)
  then have "env_lookup (MergeEnvVars d u) = env_lookup (filter (\<lambda>e. ev_Name e \<notin> ev_Name ` set u) d) ++ env_lookup u"
    by (simp add: MergeEnvVars_def env_lookup_def)
  then show "env_lookup (MergeEnvVars d u) n = (env_lookup d ++ env_lookup u) n"
    using env_lookup_None [of u n]
    by (auto simp: map_add_def env_lookup_filter [where P = "\<lambda>n. n \<notin> ev_Name ` set u"] split: option.splits)
qed

lemma distinct_MergeEnvVars: "distinct_env d \<Longrightarrow> distinct_env u \<Longrightarrow> distinct_env (MergeEnvVars d u)"
  by (auto simp: distinct_env_def MergeEnvVars_def list_ex_iff distinct_map_filter)

interpretation env_merge: layered_merge env_lookup distinct_env MergeEnvVars
  by unfold_locales (simp_all add: MergeEnvVars_lookup distinct_MergeEnvVars)

text \<open>A resource requirement, read at a limit (\<open>True\<close>) or a request.\<close>

definition res_lookup :: "ResourceRequirements \<Rightarrow> bool \<times> string \<Rightarrow> quantity option" where
  "res_lookup r k = map_of (if fst k then rr_Limits r else rr_Requests r) (snd k)"

definition wf_resources :: "ResourceRequirements \<Rightarrow> bool" where
  "wf_resources r = (wf_map (rr_Limits r) \<and> wf_map (rr_Requests r))"

interpretation resource_merge: layered_merge res_lookup wf_resources MergeResourceRequirements
proof
  fix a b
  assume "wf_resources a" "wf_resources b"
  then show "res_lookup (MergeResourceRequirements a b) = res_lookup a ++ res_lookup b"
    by (auto simp: fun_eq_iff res_lookup_def map_add_def MergeResourceRequirements_def wf_resources_def map_of_map_put_all
        split: option.splits)
  show "wf_resources (MergeResourceRequirements a b)"
    by (simp add: wf_resources_def MergeResourceRequirements_def)
qed

lemma map_put_all_Nil_lookup: "wf_map m \<Longrightarrow> map_of (map_put_all [] m) = map_of m"
  by (simp add: map_of_map_put_all)

section \<open>What an adapted deployment is\<close>

definition dep_container :: "Deployment \<Rightarrow> Container" where
  "dep_container d = hd (ps_Containers (pt_Spec (dep_Template d)))"

definition usable_template :: "Deployment \<Rightarrow> bool" where
  "usable_template d = (ps_Containers (pt_Spec (dep_Template d)) \<noteq> [] \<and> ct_Ports (dep_container d) \<noteq> [])"

lemma adapt_pod_Containers [simp]: "ps_Containers (adapt_pod ctx pod) = ps_Containers pod"
  by (simp add: adapt_pod_def Let_def)

lemma adapt_container_cases:
  assumes "adapt_container L le mr c = Some c'"
  obtains "hd (ct_Ports c') = GetPodPort le"
    and "ct_VolumeMounts c' = ct_VolumeMounts c @
      [\<lparr>vm_Name = ''model-storage'', vm_MountPath = fst (GetStoragePaths le (Some mr)), vm_ReadOnly = True\<rparr>]"
    and "ct_Env c' = MergeEnvVars (ct_Env c) (if les_EngineType (le_Spec le) = LLMEngineTypeOllama
      then BuildOllamaEnv le (Some mr) (DetectGPURequest le) else BuildVLLMEnv le (Some mr) (DetectGPURequest le))"
    and "ct_Resources c' =
      (let res = (case les_Resources (le_Spec le) of
          Some r \<Rightarrow> MergeResourceRequirements (ct_Resources c) r | None \<Rightarrow> ct_Resources c)
       in if DetectGPURequest le then (case les_GPU (le_Spec le) of
            Some g \<Rightarrow> MergeResourceRequirements res (BuildGPUResources L g) | None \<Rightarrow> res) else res)"
  using assms by (cases "ct_Ports c") (auto simp: adapt_container_def Let_def)

lemma AdaptDeployment_cases:
  assumes "AdaptDeployment L ctx d = Some (Inr d')"
  obtains name c cs c' where "ComponentName (le_Name (ctx_LLMEngine ctx)) (mr_Name (ctx_ModelRepo ctx)) = Some name"
    and "ps_Containers (pt_Spec (dep_Template d)) = c # cs"
    and "adapt_container L (ctx_LLMEngine ctx) (ctx_ModelRepo ctx) c = Some c'"
    and "om_Name (dep_Meta d') = name" "om_Namespace (dep_Meta d') = om_Namespace (dep_Meta d)"
    and "pt_Spec (dep_Template d') = adapt_pod ctx ((pt_Spec (dep_Template d))\<lparr>ps_Containers := c' # cs\<rparr>)"
    and "dep_container d' = c'" "dep_container d = c"
    and "dep_MatchLabels d' = [(''app'', le_Name (ctx_LLMEngine ctx)), (''model'', mr_Name (ctx_ModelRepo ctx))]"
    and "pt_Labels (dep_Template d') = map_put_all (pt_Labels (dep_Template d))
      [(''app'', le_Name (ctx_LLMEngine ctx)), (''model'', mr_Name (ctx_ModelRepo ctx)),
       (''engine-type'', les_EngineType (le_Spec (ctx_LLMEngine ctx)))]"
proof -
  let ?le = "ctx_LLMEngine ctx" and ?mr = "ctx_ModelRepo ctx"
  let ?d = "\<lambda>name. (let d = setDeploymentLabels (d\<lparr>dep_Meta := (dep_Meta d)\<lparr>om_Name := name\<rparr>\<rparr>) (le_Name ?le) (mr_Name ?mr)
      (les_EngineType (le_Spec ?le))
    in case les_Replicas (le_Spec ?le) of Some n \<Rightarrow> d\<lparr>dep_Replicas := Some n\<rparr> | None \<Rightarrow> d)"
  have same: "pt_Spec (dep_Template (?d name)) = pt_Spec (dep_Template d)" for name
    by (simp add: setDeploymentLabels_def Let_def split: option.split)
  from assms obtain name where name: "ComponentName (le_Name ?le) (mr_Name ?mr) = Some name"
    by (auto simp: AdaptDeployment_def Let_def bind_eq_Some_conv)
  with assms obtain c cs c' where c: "ps_Containers (pt_Spec (dep_Template d)) = c # cs"
    "adapt_container L ?le ?mr c = Some c'"
    and d': "d' = (?d name)\<lparr>dep_Template := (dep_Template (?d name))\<lparr>pt_Spec :=
      adapt_pod ctx ((pt_Spec (dep_Template d))\<lparr>ps_Containers := c' # cs\<rparr>)\<rparr>\<rparr>"
    by (simp add: AdaptDeployment_def Let_def same [unfolded Let_def] bind_eq_Some_conv split: list.split_asm) blast
  show ?thesis
    by (rule that [OF name c])
      (simp_all add: d' c dep_container_def setDeploymentLabels_def Let_def split: option.split)
qed

lemma AdaptDeployment_total:
  assumes "usable_template d" and "ComponentName (le_Name (ctx_LLMEngine ctx)) (mr_Name (ctx_ModelRepo ctx)) = Some name"
  shows "\<exists>d'. AdaptDeployment L ctx d = Some (Inr d')"
proof -
  from assms(1) obtain c cs p ps where "ps_Containers (pt_Spec (dep_Template d)) = c # cs" "ct_Ports c = p # ps"
    by (auto simp: usable_template_def dep_container_def neq_Nil_conv)
  with assms(2) show ?thesis
    by (simp add: AdaptDeployment_def adapt_container_def setDeploymentLabels_def Let_def split: option.split)
qed

lemma sort_keys_unique:
  assumes "wf_map a" "wf_map b" "map_of a = map_of b"
  shows "sort (map fst a) = sort (map fst b)"
proof -
  have "set (map fst a) = set (map fst b)"
    using assms(3) by (metis dom_map_of_conv_image_fst set_map)
  with assms(1,2) show ?thesis
    by (intro sorted_distinct_set_unique) (simp_all add: wf_map_def)
qed

lemma sortedEnvFromMap_single [simp]:
  "sortedEnvFromMap [] = []" "sortedEnvFromMap [(k, v)] = [env_var k v]"
  by (simp_all add: sortedEnvFromMap_def smap_get_def)

lemma env_lookup_simps [simp]:
  "env_lookup [] n = None" "env_lookup (e # env) n = (if n = ev_Name e then Some e else env_lookup env n)"
  "ev_Name (env_var a b) = a"
  by (simp_all add: env_lookup_def env_var_def)

lemma BuildOllamaEnv_layers:
  "\<exists>derived. BuildOllamaEnv le (Some mr) g = MergeEnvVars derived (les_Env (le_Spec le)) \<and>
     list_all (\<lambda>(k, v). env_lookup derived k = Some (env_var k v)) (snd (GetStoragePaths le (Some mr)))"
  unfolding BuildOllamaEnv_def Let_def
  by (rule exI, rule conjI, rule refl) (simp add: GetStoragePaths_def Let_def)

lemma BuildVLLMEnv_layers:
  "\<exists>derived. BuildVLLMEnv le (Some mr) g = MergeEnvVars derived (les_Env (le_Spec le)) \<and>
     list_all (\<lambda>(k, v). env_lookup derived k = Some (env_var k v)) (snd (GetStoragePaths le (Some mr)))"
  unfolding BuildVLLMEnv_def Let_def
  by (rule exI, rule conjI, rule refl) (simp add: GetStoragePaths_def token_env_def Let_def)

section \<open>Properties\<close>

definition serves :: "Service \<Rightarrow> Deployment \<Rightarrow> bool" where
  "serves s d = (om_Name (svc_Meta s) = om_Name (dep_Meta d) \<and>
     (\<forall>k v. map_of (svc_Selector s) k = Some v \<longrightarrow> map_of (pt_Labels (dep_Template d)) k = Some v) \<and>
     (\<forall>k v. map_of (dep_MatchLabels d) k = Some v \<longrightarrow> map_of (pt_Labels (dep_Template d)) k = Some v) \<and>
     snd (hd (svc_Ports s)) = PortNumber (hd (ct_Ports (dep_container d))))"

text \<open>
  (C29) The service reaches the pods: from usable templates both adapters succeed, the service and
  the deployment get the same name, the service's selector and the deployment's selector select
  the pod template's labels, and the first service port targets the container's first port.
\<close>

theorem AdaptService_serves_deployment:
  assumes "usable_template d" and "svc_Ports s \<noteq> []"
    and "ComponentName (le_Name (ctx_LLMEngine ctx)) (mr_Name (ctx_ModelRepo ctx)) = Some name"
  shows "\<exists>d' s'. AdaptDeployment L ctx d = Some (Inr d') \<and> AdaptService ctx s = Some (Inr s') \<and> serves s' d'"
proof -
  from AdaptDeployment_total [OF assms(1,3)] obtain d' where d': "AdaptDeployment L ctx d = Some (Inr d')" by blast
  from assms(2,3) obtain s' where s': "AdaptService ctx s = Some (Inr s')" "om_Name (svc_Meta s') = name"
    "svc_Selector s' = [(''app'', le_Name (ctx_LLMEngine ctx)), (''model'', mr_Name (ctx_ModelRepo ctx))]"
    "snd (hd (svc_Ports s')) = PortNumber (GetPodPort (ctx_LLMEngine ctx))"
    by (auto simp: AdaptService_def Let_def neq_Nil_conv)
  from d' have "serves s' d'"
  proof (cases rule: AdaptDeployment_cases)
    case (1 name' c cs c')
    from 1(3) have "hd (ct_Ports c') = GetPodPort (ctx_LLMEngine ctx)" by (rule adapt_container_cases)
    with 1 s' assms(3) show ?thesis by (auto simp: serves_def map_put_all_def)
  qed
  with d' s' show ?thesis by blast
qed

text \<open>The templates of the repository, as far as the adapters look at them.\<close>

definition sample_container :: Container where
  "sample_container = \<lparr>ct_Image = ''vllm/vllm-openai:latest'', ct_Args = [], ct_Env = [env_var ''HF_HOME'' ''/data/models''],
     ct_Ports = [8000], ct_VolumeMounts = [\<lparr>vm_Name = ''vllm-config'', vm_MountPath = ''/etc/vllm'', vm_ReadOnly = True\<rparr>],
     ct_Resources = \<lparr>rr_Limits = [(''cpu'', ''8'')], rr_Requests = [(''cpu'', ''4'')]\<rparr>\<rparr>"

definition sample_template :: Deployment where
  "sample_template = \<lparr>dep_Meta = emptyMeta\<lparr>om_Name := ''placeholder'', om_Labels := [(''app'', ''placeholder'')]\<rparr>,
     dep_Replicas = Some 1, dep_MatchLabels = [(''app'', ''placeholder'')],
     dep_Template = \<lparr>pt_Labels = [(''app'', ''placeholder'')], pt_Spec = \<lparr>ps_Containers = [sample_container],
       ps_Volumes = [\<lparr>v_Name = ''vllm-config'', v_Source = ConfigMapSource ''placeholder-vllm-config''\<rparr>],
       ps_NodeSelector = [], ps_Affinity = None, ps_Tolerations = [], ps_HostIPC = False\<rparr>\<rparr>,
     dep_ReadyReplicas = 0\<rparr>"

definition sample_service :: Service where
  "sample_service = \<lparr>svc_Meta = emptyMeta\<lparr>om_Name := ''placeholder''\<rparr>, svc_Selector = [(''app'', ''placeholder'')],
     svc_Ports = [(8080, PortName ''http'')]\<rparr>"

definition sample_context :: LLMEngineContext where
  "sample_context = \<lparr>ctx_LLMEngine = sample_engine, ctx_ModelRepo = sample_repo, ctx_Namespace = ''team-a'',
     ctx_ModelPVCName = ''le-chat-llama''\<rparr>"

lemma sample_usable: "usable_template sample_template" "svc_Ports sample_service \<noteq> []"
  by (simp_all add: usable_template_def sample_template_def sample_container_def dep_container_def sample_service_def)

lemma sample_ComponentName: "ComponentName (le_Name sample_engine) (mr_Name sample_repo) = Some ''chat-llama''"
  by code_simp

theorem AdaptService_serves_deployment_witness:
  "\<exists>d' s'. AdaptDeployment mem_lib sample_context sample_template = Some (Inr d') \<and>
     AdaptService sample_context sample_service = Some (Inr s') \<and> serves s' d'"
  by (rule AdaptService_serves_deployment [OF sample_usable])
    (simp add: sample_context_def sample_ComponentName)

lemma AdaptDeployment_env:
  assumes "AdaptDeployment L ctx d = Some (Inr d')"
  shows "\<exists>derived. env_lookup (ct_Env (dep_container d')) =
      env_lookup (ct_Env (dep_container d)) ++ (env_lookup derived ++ env_lookup (les_Env (le_Spec (ctx_LLMEngine ctx)))) \<and>
    list_all (\<lambda>(k, v). env_lookup derived k = Some (env_var k v))
      (snd (GetStoragePaths (ctx_LLMEngine ctx) (Some (ctx_ModelRepo ctx))))"
  using assms
proof (cases rule: AdaptDeployment_cases)
  case (1 name c cs c')
  let ?le = "ctx_LLMEngine ctx" and ?mr = "ctx_ModelRepo ctx"
  from 1(3) have env: "ct_Env c' = MergeEnvVars (ct_Env c) (if les_EngineType (le_Spec ?le) = LLMEngineTypeOllama
      then BuildOllamaEnv ?le (Some ?mr) (DetectGPURequest ?le) else BuildVLLMEnv ?le (Some ?mr) (DetectGPURequest ?le))"
    by (rule adapt_container_cases)
  obtain derived where "ct_Env c' = MergeEnvVars (ct_Env c) (MergeEnvVars derived (les_Env (le_Spec ?le)))"
    "list_all (\<lambda>(k, v). env_lookup derived k = Some (env_var k v)) (snd (GetStoragePaths ?le (Some ?mr)))"
    using env BuildOllamaEnv_layers [of ?le ?mr "DetectGPURequest ?le"] BuildVLLMEnv_layers [of ?le ?mr "DetectGPURequest ?le"]
    by (auto split: if_splits)
  with 1 show ?thesis by (auto simp: MergeEnvVars_lookup)
qed

text \<open>
  The environment of the engine's container has three layers: what the user sets wins over
  what the operator derives from engine and model, which wins over the template. A variable
  that the user names is the user's.
\<close>

lemma AdaptDeployment_env_layers:
  assumes "AdaptDeployment L ctx d = Some (Inr d')"
  shows "\<exists>derived. env_lookup (ct_Env (dep_container d')) =
      env_lookup (ct_Env (dep_container d)) ++ (env_lookup derived ++ env_lookup (les_Env (le_Spec (ctx_LLMEngine ctx)))) \<and>
    list_all (\<lambda>(k, v). env_lookup derived k = Some (env_var k v))
      (snd (GetStoragePaths (ctx_LLMEngine ctx) (Some (ctx_ModelRepo ctx))))"
  by (rule AdaptDeployment_env [OF assms])

lemma sample_layers:
  "snd (GetStoragePaths (ctx_LLMEngine sample_context) (Some (ctx_ModelRepo sample_context))) = [(''HF_HOME'', ''/data/models'')]"
  "env_lookup (les_Env (le_Spec (ctx_LLMEngine sample_context))) = Map.empty"
  "dep_container sample_template = sample_container"
  by (simp_all add: sample_context_def sample_engine_def sample_repo_def GetStoragePaths_def env_lookup_def
      dep_container_def sample_template_def Let_def)

lemma AdaptDeployment_env_layers_witness:
  "\<exists>d' derived. AdaptDeployment mem_lib sample_context sample_template = Some (Inr d') \<and>
     env_lookup (ct_Env (dep_container d')) = env_lookup (ct_Env sample_container) ++ env_lookup derived \<and>
     env_lookup derived ''HF_HOME'' = Some (env_var ''HF_HOME'' ''/data/models'')"
proof -
  have "ComponentName (le_Name (ctx_LLMEngine sample_context)) (mr_Name (ctx_ModelRepo sample_context)) = Some ''chat-llama''"
    by (simp add: sample_context_def sample_ComponentName)
  from AdaptDeployment_total [OF sample_usable(1) this] obtain d' where
    d': "AdaptDeployment mem_lib sample_context sample_template = Some (Inr d')" by blast
  from AdaptDeployment_env_layers [OF d'] d' show ?thesis
    by (auto simp: sample_layers)
qed

text \<open>
  The environment built from a map does not depend on the order in which Go iterates it, so
  the pod template does not change from one reconciliation to the next.
\<close>

lemma sortedEnvFromMap_deterministic:
  assumes "wf_map a" and "wf_map b" and "map_of a = map_of b"
  shows "sortedEnvFromMap a = sortedEnvFromMap b"
  using sort_keys_unique [OF assms] assms(3) by (simp add: sortedEnvFromMap_def smap_get_def)

lemma sortedEnvFromMap_deterministic_witness:
  "sortedEnvFromMap [(''B'', ''1''), (''A'', ''2'')] = sortedEnvFromMap [(''A'', ''2''), (''B'', ''1'')]"
  by (rule sortedEnvFromMap_deterministic) (auto simp: wf_map_def fun_eq_iff)

text \<open>The model's claim in a deployment: mounted read-only, at the repository's path.\<close>

definition mounts_claim :: "Deployment \<Rightarrow> string \<Rightarrow> string \<Rightarrow> bool" where
  "mounts_claim d claim path =
     (\<lparr>v_Name = ''model-storage'', v_Source = PVCSource claim True\<rparr> \<in> set (ps_Volumes (pt_Spec (dep_Template d))) \<and>
      \<lparr>vm_Name = ''model-storage'', vm_MountPath = path, vm_ReadOnly = True\<rparr> \<in> set (ct_VolumeMounts (dep_container d)))"

definition config_of :: "Volume list \<Rightarrow> string option" where
  "config_of vs = (case find (\<lambda>v. v_Name v = ''vllm-config'' \<and> is_ConfigMapSource (v_Source v)) vs of
     Some v \<Rightarrow> Some (vs_ConfigMap (v_Source v)) | None \<Rightarrow> None)"

lemma set_config_volume_keeps_claim:
  "v_Source v = PVCSource c b \<Longrightarrow> v \<in> set vs \<Longrightarrow> v \<in> set (set_config_volume cm vs)"
  by (induction vs) (auto split: VolumeSource.splits)

lemma config_of_set_config_volume:
  "config_of vs \<noteq> None \<Longrightarrow> config_of (set_config_volume cm vs) = Some cm"
  by (induction vs) (auto simp: config_of_def split: VolumeSource.splits if_splits option.splits)

lemma config_of_None: "config_of vs = None \<longleftrightarrow> (\<forall>v \<in> set vs. \<not> (v_Name v = ''vllm-config'' \<and> is_ConfigMapSource (v_Source v)))"
proof -
  have "config_of vs = None \<longleftrightarrow> find (\<lambda>v. v_Name v = ''vllm-config'' \<and> is_ConfigMapSource (v_Source v)) vs = None"
    by (simp add: config_of_def split: option.split)
  then show ?thesis by (auto simp: find_None_iff)
qed

lemma config_of_append: "config_of vs \<noteq> None \<Longrightarrow> config_of (vs @ ws) \<noteq> None"
  by (auto simp only: config_of_None set_append)

lemma AdaptDeployment_mounts_claim:
  assumes "AdaptDeployment L ctx d = Some (Inr d')"
  shows "mounts_claim d' (ctx_ModelPVCName ctx)
    (getOrDefaultMountPath (ms_MountPath (mrs_Storage (mr_Spec (ctx_ModelRepo ctx)))))"
  using assms
proof (cases rule: AdaptDeployment_cases)
  case (1 name c cs c')
  from 1(3) have "ct_VolumeMounts c' = ct_VolumeMounts c @ [\<lparr>vm_Name = ''model-storage'',
      vm_MountPath = fst (GetStoragePaths (ctx_LLMEngine ctx) (Some (ctx_ModelRepo ctx))), vm_ReadOnly = True\<rparr>]"
    by (rule adapt_container_cases)
  moreover have "fst (GetStoragePaths (ctx_LLMEngine ctx) (Some (ctx_ModelRepo ctx))) =
      getOrDefaultMountPath (ms_MountPath (mrs_Storage (mr_Spec (ctx_ModelRepo ctx))))"
    by (simp add: GetStoragePaths_def getOrDefaultMountPath_def Let_def)
  ultimately show ?thesis using 1
    by (auto simp: mounts_claim_def adapt_pod_def Let_def intro: set_config_volume_keeps_claim)
qed

text \<open>
  An adapted deployment mounts the claim it was given, read-only, at the path where the
  repository keeps its models; and where a vLLM template has a configuration volume, it is
  pointed at the ConfigMap that the operator writes for this engine and model.
\<close>

lemma AdaptDeployment_mounts:
  assumes "AdaptDeployment L ctx d = Some (Inr d')"
  shows "mounts_claim d' (ctx_ModelPVCName ctx)
      (getOrDefaultMountPath (ms_MountPath (mrs_Storage (mr_Spec (ctx_ModelRepo ctx))))) \<and>
    (les_EngineType (le_Spec (ctx_LLMEngine ctx)) = LLMEngineTypeVLLM \<longrightarrow>
     config_of (ps_Volumes (pt_Spec (dep_Template d))) \<noteq> None \<longrightarrow>
     (\<forall>marshal cm cm'. AdaptVLLMConfigMap marshal ctx cm = Inr cm' \<longrightarrow>
       config_of (ps_Volumes (pt_Spec (dep_Template d'))) = Some (om_Name (cm_Meta cm'))))"
  using assms
proof (cases rule: AdaptDeployment_cases)
  case (1 name c cs c')
  with AdaptDeployment_mounts_claim [OF assms] show ?thesis
    by (auto simp: adapt_pod_def Let_def AdaptVLLMConfigMap_def
        intro!: config_of_set_config_volume config_of_append split: sum.split_asm)
qed

lemma AdaptDeployment_mounts_witness:
  "\<exists>d'. AdaptDeployment mem_lib sample_context sample_template = Some (Inr d') \<and> mounts_claim d' ''le-chat-llama'' ''/data/models''"
proof -
  have "ComponentName (le_Name (ctx_LLMEngine sample_context)) (mr_Name (ctx_ModelRepo sample_context)) = Some ''chat-llama''"
    by (simp add: sample_context_def sample_ComponentName)
  from AdaptDeployment_total [OF sample_usable(1) this] obtain d' where
    d': "AdaptDeployment mem_lib sample_context sample_template = Some (Inr d')" by blast
  moreover have "getOrDefaultMountPath (ms_MountPath (mrs_Storage (mr_Spec (ctx_ModelRepo sample_context)))) = ''/data/models''"
    "ctx_ModelPVCName sample_context = ''le-chat-llama''"
    by (simp_all add: sample_context_def sample_repo_def getOrDefaultMountPath_def)
  ultimately show ?thesis using AdaptDeployment_mounts [OF d'] by auto
qed

text \<open>
  (C30) Where the engine's pods run. With or without a GPU request, pods of node-bound storage whose
  node is known are pinned to that node, whatever template, GPU and user select. With a GPU request
  every other key is the GPU configuration's, then the engine's, then the default of the GPU
  type. The template's selector is replaced by these, and kept only where nothing is selected and
  nothing pinned.
\<close>

theorem adapt_pod_placement:
  assumes "wf_map (les_NodeSelector (le_Spec (ctx_LLMEngine ctx)))"
    and "case les_GPU (le_Spec (ctx_LLMEngine ctx)) of None \<Rightarrow> True | Some g \<Rightarrow> wf_map (gpu_NodeSelector g)"
  shows "map_of (ps_NodeSelector (adapt_pod ctx pod)) =
    (let le = ctx_LLMEngine ctx; bound = GetBoundNodeName (ctx_ModelRepo ctx);
         pin = (if RequiresNodeAffinity (ctx_ModelRepo ctx) \<and> bound \<noteq> [] then [''kubernetes.io/hostname'' \<mapsto> bound] else Map.empty);
         wanted = (case les_GPU (le_Spec le) of
             Some g \<Rightarrow> if gpu_Enabled g then map_of (GetDefaultGPUNodeSelector (gpu_Type g)) ++
               map_of (les_NodeSelector (le_Spec le)) ++ map_of (gpu_NodeSelector g) else Map.empty
           | None \<Rightarrow> Map.empty)
     in if wanted ++ pin = Map.empty then map_of (ps_NodeSelector pod) else wanted ++ pin)"
proof -
  let ?le = "ctx_LLMEngine ctx" and ?pin = "storage_node_selector (ctx_ModelRepo ctx)"
  have pin: "map_of ?pin = (if RequiresNodeAffinity (ctx_ModelRepo ctx) \<and> GetBoundNodeName (ctx_ModelRepo ctx) \<noteq> []
      then [''kubernetes.io/hostname'' \<mapsto> GetBoundNodeName (ctx_ModelRepo ctx)] else Map.empty)"
    by (simp add: storage_node_selector_def)
  have gpu: "map_of (map_put_absent ?pin (BuildGPUNodeSelector g ?le)) =
      map_of (GetDefaultGPUNodeSelector (gpu_Type g)) ++ map_of (les_NodeSelector (le_Spec ?le)) ++ map_of (gpu_NodeSelector g) ++ map_of ?pin"
    if "les_GPU (le_Spec ?le) = Some g" for g
    using assms that by (simp add: map_of_map_put_absent BuildGPUNodeSelector_def map_of_map_put_all)
  have none: "xs = [] \<longleftrightarrow> map_of xs = Map.empty" for xs :: smap by simp
  show ?thesis
  proof (cases "les_GPU (le_Spec ?le)")
    case None
    then show ?thesis by (simp add: adapt_pod_def DetectGPURequest_def Let_def none pin del: map_of_eq_empty_iff empty_eq_map_of_iff)
  next
    case (Some g)
    with gpu [OF Some] show ?thesis
      by (simp add: adapt_pod_def DetectGPURequest_def Let_def none pin del: map_of_eq_empty_iff empty_eq_map_of_iff)
  qed
qed

definition gpu_engine :: LLMEngine where
  "gpu_engine = sample_engine\<lparr>le_Spec := (le_Spec sample_engine)\<lparr>les_GPU := Some \<lparr>gpu_Enabled = True, gpu_Count = 2,
     gpu_Type = [], gpu_NodeSelector = [(''zone'', ''b'')], gpu_Tolerations = []\<rparr>,
     les_NodeSelector := [(''zone'', ''a''), (''tier'', ''gold'')]\<rparr>\<rparr>"

text \<open>A repository on local storage of one node.\<close>

definition local_repo :: ModelRepository where
  "local_repo = sample_repo\<lparr>mr_Status := (mr_Status sample_repo)\<lparr>mst_Storage :=
     Some \<lparr>ss_StorageClass = ''local'', ss_AccessMode = ReadWriteOnce, ss_VolumeMode = ''Filesystem'', ss_BackendRef = None,
       ss_BoundNodeName = ''n1'', ss_Capacity = ''10Gi''\<rparr>\<rparr>\<rparr>"

theorem adapt_pod_placement_witness:
  "map_of (ps_NodeSelector (adapt_pod (sample_context\<lparr>ctx_LLMEngine := gpu_engine, ctx_ModelRepo := local_repo\<rparr>)
       (pt_Spec (dep_Template sample_template)))) =
     map_of [(''kubernetes.io/hostname'', ''n1''), (''zone'', ''b''), (''tier'', ''gold''), (''nvidia.com/gpu.present'', ''true'')] \<and>
   map_of (ps_NodeSelector (adapt_pod (sample_context\<lparr>ctx_ModelRepo := local_repo\<rparr>) (pt_Spec (dep_Template sample_template)))) =
     map_of [(''kubernetes.io/hostname'', ''n1'')]"
proof -
  have bound: "RequiresNodeAffinity local_repo" "GetBoundNodeName local_repo = ''n1''" by code_simp+
  note placement = adapt_pod_placement [of "sample_context\<lparr>ctx_LLMEngine := gpu_engine, ctx_ModelRepo := local_repo\<rparr>"
      "pt_Spec (dep_Template sample_template)"] adapt_pod_placement [of "sample_context\<lparr>ctx_ModelRepo := local_repo\<rparr>"
      "pt_Spec (dep_Template sample_template)"]
  have ctx: "les_GPU (le_Spec sample_engine) = None" "les_NodeSelector (le_Spec sample_engine) = []" "ctx_LLMEngine sample_context = sample_engine"
    "les_NodeSelector (le_Spec gpu_engine) = [(''zone'', ''a''), (''tier'', ''gold'')]"
    "les_GPU (le_Spec gpu_engine) = Some \<lparr>gpu_Enabled = True, gpu_Count = 2, gpu_Type = [], gpu_NodeSelector = [(''zone'', ''b'')], gpu_Tolerations = []\<rparr>"
    by (simp_all add: gpu_engine_def sample_engine_def sample_context_def)
  from placement show ?thesis
    by (simp add: ctx bound wf_map_def GetDefaultGPUNodeSelector_def Let_def)
qed

text \<open>
  Without a GPU request the engine's node selector has no effect on the deployment: any
  other selector gives the same pods, although the field is documented as constraining them.
\<close>

lemma AdaptDeployment_ignores_node_selector:
  assumes "\<not> DetectGPURequest (ctx_LLMEngine ctx)"
  shows "AdaptDeployment L (ctx\<lparr>ctx_LLMEngine := (ctx_LLMEngine ctx)\<lparr>le_Spec :=
      (le_Spec (ctx_LLMEngine ctx))\<lparr>les_NodeSelector := sel\<rparr>\<rparr>\<rparr>) d = AdaptDeployment L ctx d"
proof -
  let ?le = "ctx_LLMEngine ctx"
  let ?le' = "?le\<lparr>le_Spec := (le_Spec ?le)\<lparr>les_NodeSelector := sel\<rparr>\<rparr>"
  have gpu: "DetectGPURequest ?le' = DetectGPURequest ?le" by (simp add: DetectGPURequest_def)
  have "GetStoragePaths ?le' mr = GetStoragePaths ?le mr" "GetPodPort ?le' = GetPodPort ?le" for mr
    by (simp_all add: GetStoragePaths_def GetPodPort_def Let_def)
  then have "adapt_container L ?le' mr c = adapt_container L ?le mr c" for mr c
    using assms by (cases "ct_Ports c")
      (simp_all add: adapt_container_def BuildOllamaEnv_def BuildVLLMEnv_def gpu Let_def split: option.split)
  moreover have "adapt_pod (ctx\<lparr>ctx_LLMEngine := ?le'\<rparr>) pod = adapt_pod ctx pod" for pod
    using assms by (simp add: adapt_pod_def gpu Let_def)
  ultimately show ?thesis
    by (cases "les_Replicas (le_Spec ?le)") (simp_all add: AdaptDeployment_def Let_def cong: list.case_cong)
qed

lemma AdaptDeployment_ignores_node_selector_witness:
  "AdaptDeployment mem_lib (sample_context\<lparr>ctx_LLMEngine := sample_engine\<lparr>le_Spec :=
     (le_Spec sample_engine)\<lparr>les_NodeSelector := [(''tier'', ''gold'')]\<rparr>\<rparr>\<rparr>) sample_template =
   AdaptDeployment mem_lib sample_context sample_template"
  using AdaptDeployment_ignores_node_selector [of sample_context mem_lib "[(''tier'', ''gold'')]" sample_template]
  by (simp add: sample_context_def DetectGPURequest_def sample_engine_def)

text \<open>
  A GPU request is what the container asks for: limit and request of the GPU resource are the
  requested count (one by default), whatever the template and the engine's resources say, and
  every other resource of the engine's own resource section is kept.
\<close>

lemma AdaptDeployment_gpu_resources:
  assumes "AdaptDeployment L ctx d = Some (Inr d')"
    and "DetectGPURequest (ctx_LLMEngine ctx)" and "les_GPU (le_Spec (ctx_LLMEngine ctx)) = Some g"
    and "les_Resources (le_Spec (ctx_LLMEngine ctx)) = Some user"
    and "wf_resources (ct_Resources (dep_container d))" and "wf_resources user"
  shows "res_lookup (ct_Resources (dep_container d')) =
    res_lookup (ct_Resources (dep_container d)) ++ res_lookup user ++ res_lookup (BuildGPUResources L g)"
  using assms(1)
proof (cases rule: AdaptDeployment_cases)
  case (1 name c cs c')
  have gpu: "wf_resources (BuildGPUResources L g)" by (simp add: BuildGPUResources_def wf_resources_def wf_map_def Let_def)
  from 1(3) have "ct_Resources c' = MergeResourceRequirements (MergeResourceRequirements (ct_Resources c) user) (BuildGPUResources L g)"
    using assms(2-4) by (auto elim: adapt_container_cases)
  with 1 assms(5,6) gpu show ?thesis
    by (simp add: resource_merge.lookup_merge resource_merge.valid_merge)
qed

lemma AdaptDeployment_gpu_resources_witness:
  "\<exists>d'. AdaptDeployment mem_lib (sample_context\<lparr>ctx_LLMEngine := gpu_engine\<lparr>le_Spec := (le_Spec gpu_engine)\<lparr>les_Resources :=
       Some \<lparr>rr_Limits = [(''nvidia.com/gpu'', ''9''), (''memory'', ''32Gi'')], rr_Requests = []\<rparr>\<rparr>\<rparr>\<rparr>) sample_template = Some (Inr d') \<and>
     res_lookup (ct_Resources (dep_container d')) (True, ''nvidia.com/gpu'') = Some ''2'' \<and>
     res_lookup (ct_Resources (dep_container d')) (True, ''memory'') = Some ''32Gi''"
proof -
  let ?user = "\<lparr>rr_Limits = [(''nvidia.com/gpu'', ''9''), (''memory'', ''32Gi'')], rr_Requests = []\<rparr>"
  let ?g = "\<lparr>gpu_Enabled = True, gpu_Count = 2, gpu_Type = [], gpu_NodeSelector = [(''zone'', ''b'')], gpu_Tolerations = []\<rparr>"
  let ?ctx = "sample_context\<lparr>ctx_LLMEngine := gpu_engine\<lparr>le_Spec := (le_Spec gpu_engine)\<lparr>les_Resources := Some ?user\<rparr>\<rparr>\<rparr>"
  have "ComponentName (le_Name (ctx_LLMEngine ?ctx)) (mr_Name (ctx_ModelRepo ?ctx)) = Some ''chat-llama''"
    using sample_ComponentName by (simp add: gpu_engine_def sample_context_def)
  from AdaptDeployment_total [OF sample_usable(1) this] obtain d' where
    d': "AdaptDeployment mem_lib ?ctx sample_template = Some (Inr d')" by blast
  have "res_lookup (ct_Resources (dep_container d')) =
      res_lookup (ct_Resources (dep_container sample_template)) ++ res_lookup ?user ++ res_lookup (BuildGPUResources mem_lib ?g)"
    by (rule AdaptDeployment_gpu_resources [OF d'])
      (simp_all add: gpu_engine_def DetectGPURequest_def sample_layers sample_container_def wf_resources_def wf_map_def)
  moreover have "lib_NewQuantity mem_lib 2 = ''2''" by code_simp
  ultimately show ?thesis using d'
    by (simp add: BuildGPUResources_def Let_def) (simp add: res_lookup_def map_add_def)
qed

end
