(* ===== verification/Workload.thy ===== *)
theory Workload
  imports Engine_Adapters Assets
begin

text \<open>
  \<^verbatim>\<open>internal/controller/component\<close> for engines (\<^verbatim>\<open>builder.go\<close>, \<^verbatim>\<open>workload.go\<close>,
  \<^verbatim>\<open>component.go\<close>) and \<^verbatim>\<open>adapters/llmengine_component.go\<close>: a component is built from adapters
  and reconciled by applying its manifests, its deployment and its service, in this order.
  The conversion of objects for server-side apply belongs to apimachinery and is a parameter.
\<close>

section \<open>Model\<close>

datatype kobject = ConfigMapObj ConfigMap | DeploymentObj Deployment | ServiceObj Service

fun type_name :: "kobject \<Rightarrow> string" where
  "type_name (ConfigMapObj _) = ''*v1.ConfigMap''"
| "type_name (DeploymentObj _) = ''*v1.Deployment''"
| "type_name (ServiceObj _) = ''*v1.Service''"

fun obj_meta :: "kobject \<Rightarrow> ObjectMeta" where
  "obj_meta (ConfigMapObj x) = cm_Meta x"
| "obj_meta (DeploymentObj x) = dep_Meta x"
| "obj_meta (ServiceObj x) = svc_Meta x"

fun set_meta :: "ObjectMeta \<Rightarrow> kobject \<Rightarrow> kobject" where
  "set_meta m (ConfigMapObj x) = ConfigMapObj (x\<lparr>cm_Meta := m\<rparr>)"
| "set_meta m (DeploymentObj x) = DeploymentObj (x\<lparr>dep_Meta := m\<rparr>)"
| "set_meta m (ServiceObj x) = ServiceObj (x\<lparr>svc_Meta := m\<rparr>)"

record 'w component_env =
  ce_Reconciler :: "'w reconciler"
  ce_Assets :: assets
  ce_ObjectKinds :: "string \<Rightarrow> go_error option"
  ce_ToUnstructured :: "string \<Rightarrow> go_error option"
  ce_Marshal :: "cfg gomap \<Rightarrow> go_error + string"

text \<open>A nil function is \<open>None\<close>; an adapter may panic, which is \<open>None\<close> of its result.\<close>

record ManifestAdapter =
  ma_create :: "kobject option"
  ma_adapt :: "(LLMEngineContext \<Rightarrow> kobject \<Rightarrow> go_error + kobject) option"
  ma_predicate :: "(LLMEngineContext \<Rightarrow> go_error + bool) option"

record llmEngineWorkload =
  wl_name :: string
  wl_adaptDeployment :: "(LLMEngineContext \<Rightarrow> Deployment \<Rightarrow> (go_error + Deployment) option) option"
  wl_adaptService :: "(LLMEngineContext \<Rightarrow> Service \<Rightarrow> (go_error + Service) option) option"
  wl_manifestAdapters :: "ManifestAdapter gomap"
  wl_predicate :: "(LLMEngineContext \<Rightarrow> go_error + bool) option"

text \<open>The builder has the fields of the component it builds.\<close>

type_synonym ComponentBuilder = llmEngineWorkload

definition NewLLMEngineComponent :: "string \<Rightarrow> ComponentBuilder" where
  "NewLLMEngineComponent name = \<lparr>wl_name = name, wl_adaptDeployment = None, wl_adaptService = None,
     wl_manifestAdapters = [], wl_predicate = None\<rparr>"

definition WithDeploymentAdapter ::
  "(LLMEngineContext \<Rightarrow> Deployment \<Rightarrow> (go_error + Deployment) option) \<Rightarrow> ComponentBuilder \<Rightarrow> ComponentBuilder" where
  "WithDeploymentAdapter fn b = b\<lparr>wl_adaptDeployment := Some fn\<rparr>"

definition WithServiceAdapter ::
  "(LLMEngineContext \<Rightarrow> Service \<Rightarrow> (go_error + Service) option) \<Rightarrow> ComponentBuilder \<Rightarrow> ComponentBuilder" where
  "WithServiceAdapter fn b = b\<lparr>wl_adaptService := Some fn\<rparr>"

definition WithManifestAdapter :: "string \<Rightarrow> ManifestAdapter \<Rightarrow> ComponentBuilder \<Rightarrow> ComponentBuilder" where
  "WithManifestAdapter name a b = b\<lparr>wl_manifestAdapters := map_set (wl_manifestAdapters b) name a\<rparr>"

definition WithPredicate :: "(LLMEngineContext \<Rightarrow> go_error + bool) \<Rightarrow> ComponentBuilder \<Rightarrow> ComponentBuilder" where
  "WithPredicate fn b = b\<lparr>wl_predicate := Some fn\<rparr>"

definition Build :: "ComponentBuilder \<Rightarrow> llmEngineWorkload" where
  "Build b = \<lparr>wl_name = wl_name b, wl_adaptDeployment = wl_adaptDeployment b, wl_adaptService = wl_adaptService b,
     wl_manifestAdapters = wl_manifestAdapters b, wl_predicate = wl_predicate b\<rparr>"

definition NewManifestAdapter :: "kobject \<Rightarrow> (LLMEngineContext \<Rightarrow> kobject \<Rightarrow> go_error + kobject) \<Rightarrow> ManifestAdapter" where
  "NewManifestAdapter createFn adaptFn = \<lparr>ma_create = Some createFn, ma_adapt = Some adaptFn, ma_predicate = None\<rparr>"

definition NewManifestAdapterWithPredicate ::
  "kobject \<Rightarrow> (LLMEngineContext \<Rightarrow> kobject \<Rightarrow> go_error + kobject) \<Rightarrow> (LLMEngineContext \<Rightarrow> go_error + bool) \<Rightarrow> ManifestAdapter" where
  "NewManifestAdapterWithPredicate createFn adaptFn predicateFn =
     \<lparr>ma_create = Some createFn, ma_adapt = Some adaptFn, ma_predicate = Some predicateFn\<rparr>"

definition toUnstructured :: "'w component_env \<Rightarrow> string \<Rightarrow> go_error option" where
  "toUnstructured E T = (case ce_ObjectKinds E T of
     Some err \<Rightarrow> Some (wrap_error (''failed to get GVK for '' @ T @ '': '') err)
   | None \<Rightarrow> ce_ToUnstructured E T)"

text \<open>The call that applies an object of each type.\<close>

definition api_Apply_object :: "'w reconciler \<Rightarrow> kobject \<Rightarrow> ('w, go_error option) kio" where
  "api_Apply_object r obj = (case obj of
     ConfigMapObj x \<Rightarrow> api_Apply OnConfigMap (cl_ConfigMap (r_Client r)) x
   | DeploymentObj x \<Rightarrow> api_Apply OnDeployment (cl_Deployment (r_Client r)) x
   | ServiceObj x \<Rightarrow> api_Apply OnService (cl_Service (r_Client r)) x)"

definition serverSideApply :: "'w component_env \<Rightarrow> kobject \<Rightarrow> ('w, go_error option) kio" where
  "serverSideApply E obj = (case toUnstructured E (type_name obj) of
     Some err \<Rightarrow> ret (Some (wrap_error (''failed to convert '' @ type_name obj @ '' to unstructured: '') err))
   | None \<Rightarrow> api_Apply_object (ce_Reconciler E) obj)"

text \<open>What every resource ends with: the owner reference, then the apply; the names are those of the error texts.\<close>

definition own_and_apply :: "'w component_env \<Rightarrow> LLMEngineContext \<Rightarrow> string \<Rightarrow> string \<Rightarrow> kobject \<Rightarrow> ('w, go_error option) kio" where
  "own_and_apply E ctx owned applied obj =
     (case lib_SetControllerReference (r_Lib (ce_Reconciler E)) (le_Meta (ctx_LLMEngine ctx)) (obj_meta obj) of
        Inl err \<Rightarrow> ret (Some (wrap_error (''failed to set owner reference for '' @ owned @ '': '') err))
      | Inr m \<Rightarrow> do {
          e \<leftarrow> serverSideApply E (set_meta m obj);
          ret (map_option (wrap_error (''failed to apply '' @ applied @ '': '')) e) })"

definition reconcileDeployment :: "'w component_env \<Rightarrow> llmEngineWorkload \<Rightarrow> LLMEngineContext \<Rightarrow> ('w, go_error option option) kio" where
  "reconcileDeployment E w ctx =
     (case LoadLLMEngineDeploymentManifest (ce_Assets E) (les_EngineType (le_Spec (ctx_LLMEngine ctx))) of
        Inl err \<Rightarrow> ret (Some (Some (wrap_error (''failed to load deployment manifest for '' @ wl_name w @ '': '') err)))
      | Inr d \<Rightarrow>
          (let d = d\<lparr>dep_Meta := (dep_Meta d)\<lparr>om_Namespace := ctx_Namespace ctx\<rparr>\<rparr> in
           or_panic (case wl_adaptDeployment w of Some f \<Rightarrow> f ctx d | None \<Rightarrow> Some (Inr d)) (\<lambda>adapted.
             case adapted of
               Inl err \<Rightarrow> ret (Some (Some (wrap_error (''failed to adapt deployment for '' @ wl_name w @ '': '') err)))
             | Inr d' \<Rightarrow> do { e \<leftarrow> own_and_apply E ctx (''deployment '' @ wl_name w) (''deployment for '' @ wl_name w) (DeploymentObj d'); ret (Some e) })))"

definition reconcileService :: "'w component_env \<Rightarrow> llmEngineWorkload \<Rightarrow> LLMEngineContext \<Rightarrow> ('w, go_error option option) kio" where
  "reconcileService E w ctx =
     (case LoadLLMEngineServiceManifest (ce_Assets E) (les_EngineType (le_Spec (ctx_LLMEngine ctx))) of
        Inl err \<Rightarrow> ret (Some (Some (wrap_error (''failed to load service manifest for '' @ wl_name w @ '': '') err)))
      | Inr s \<Rightarrow>
          (let s = s\<lparr>svc_Meta := (svc_Meta s)\<lparr>om_Namespace := ctx_Namespace ctx\<rparr>\<rparr> in
           or_panic (case wl_adaptService w of Some f \<Rightarrow> f ctx s | None \<Rightarrow> Some (Inr s)) (\<lambda>adapted.
             case adapted of
               Inl err \<Rightarrow> ret (Some (Some (wrap_error (''failed to adapt service for '' @ wl_name w @ '': '') err)))
             | Inr s' \<Rightarrow> do { e \<leftarrow> own_and_apply E ctx (''service '' @ wl_name w) (''service for '' @ wl_name w) (ServiceObj s'); ret (Some e) })))"

definition reconcileManifest :: "'w component_env \<Rightarrow> LLMEngineContext \<Rightarrow> string \<Rightarrow> ManifestAdapter \<Rightarrow> ('w, go_error option) kio" where
  "reconcileManifest E ctx manifestName a =
     (case (case ma_predicate a of Some p \<Rightarrow> p ctx | None \<Rightarrow> Inr True) of
        Inl err \<Rightarrow> ret (Some (wrap_error (''predicate failed for manifest '' @ manifestName @ '': '') err))
      | Inr enabled \<Rightarrow>
          if \<not> enabled then ret None
          else case ma_create a of
            None \<Rightarrow> ret (Some (new_error (''manifest adapter '' @ manifestName @ '' missing create function'')))
          | Some m \<Rightarrow>
              (let m = set_meta ((obj_meta m)\<lparr>om_Namespace := ctx_Namespace ctx\<rparr>) m in
               case (case ma_adapt a of Some f \<Rightarrow> f ctx m | None \<Rightarrow> Inr m) of
                 Inl err \<Rightarrow> ret (Some (wrap_error (''failed to adapt manifest '' @ manifestName @ '': '') err))
               | Inr m' \<Rightarrow> own_and_apply E ctx (''manifest '' @ manifestName) (''manifest '' @ manifestName) m'))"

fun reconcileManifests :: "'w component_env \<Rightarrow> LLMEngineContext \<Rightarrow> ManifestAdapter gomap \<Rightarrow> ('w, go_error option) kio" where
  "reconcileManifests E ctx [] = ret None"
| "reconcileManifests E ctx ((manifestName, a) # rest) = do {
     e \<leftarrow> reconcileManifest E ctx manifestName a;
     case e of Some err \<Rightarrow> ret (Some err) | None \<Rightarrow> reconcileManifests E ctx rest }"

definition updateResources :: "'w component_env \<Rightarrow> llmEngineWorkload \<Rightarrow> LLMEngineContext \<Rightarrow> ('w, go_error option option) kio" where
  "updateResources E w ctx = do {
     e \<leftarrow> reconcileManifests E ctx (wl_manifestAdapters w);
     case e of
       Some err \<Rightarrow> ret (Some (Some err))
     | None \<Rightarrow> do {
         e' \<leftarrow> reconcileDeployment E w ctx;
         case e' of
           None \<Rightarrow> ret None
         | Some (Some err) \<Rightarrow> ret (Some (Some err))
         | Some None \<Rightarrow> reconcileService E w ctx } }"

definition deleteResources :: "'w component_env \<Rightarrow> llmEngineWorkload \<Rightarrow> LLMEngineContext \<Rightarrow> ('w, go_error option) kio" where
  "deleteResources E w ctx = do {
     e \<leftarrow> api_Delete OnDeployment (cl_Deployment (r_Client (ce_Reconciler E))) (ctx_Namespace ctx, wl_name w) False;
     case Option.bind e IgnoreNotFound of
       Some err \<Rightarrow> ret (Some (wrap_error (''failed to delete deployment '' @ wl_name w @ '': '') err))
     | None \<Rightarrow> do {
         e' \<leftarrow> api_Delete OnService (cl_Service (r_Client (ce_Reconciler E))) (ctx_Namespace ctx, wl_name w) False;
         ret (map_option (wrap_error (''failed to delete service '' @ wl_name w @ '': '')) (Option.bind e' IgnoreNotFound)) } }"

definition wl_Reconcile :: "'w component_env \<Rightarrow> llmEngineWorkload \<Rightarrow> LLMEngineContext \<Rightarrow> ('w, go_error option option) kio" where
  "wl_Reconcile E w ctx = (case (case wl_predicate w of Some p \<Rightarrow> p ctx | None \<Rightarrow> Inr True) of
     Inl err \<Rightarrow> ret (Some (Some (wrap_error (''predicate failed for component '' @ wl_name w @ '': '') err)))
   | Inr enabled \<Rightarrow> if \<not> enabled then do { e \<leftarrow> deleteResources E w ctx; ret (Some e) } else updateResources E w ctx)"

text \<open>The adapter of the ConfigMap asserts the object's type.\<close>

definition adapt_config_object :: "'w component_env \<Rightarrow> LLMEngineContext \<Rightarrow> kobject \<Rightarrow> go_error + kobject" where
  "adapt_config_object E ctx obj = (case obj of
     ConfigMapObj cm \<Rightarrow> (case AdaptVLLMConfigMap (ce_Marshal E) ctx cm of
         Inl err \<Rightarrow> Inl err | Inr cm' \<Rightarrow> Inr (ConfigMapObj cm'))
   | _ \<Rightarrow> Inl (new_error (''expected ConfigMap, got '' @ type_name obj)))"

definition emptyConfigMap :: ConfigMap where
  "emptyConfigMap = \<lparr>cm_Meta = emptyMeta, cm_Data = []\<rparr>"

definition NewModelComponent :: "'w component_env \<Rightarrow> LLMEngine \<Rightarrow> ModelRepository \<Rightarrow> llmEngineWorkload option" where
  "NewModelComponent E le mr = do {
     componentName \<leftarrow> ComponentName (le_Name le) (mr_Name mr);
     let b = WithServiceAdapter AdaptService
               (WithDeploymentAdapter (AdaptDeployment (r_Lib (ce_Reconciler E))) (NewLLMEngineComponent componentName));
     let b = (if les_EngineType (le_Spec le) = LLMEngineTypeVLLM
              then WithManifestAdapter ''vllm-config''
                     (NewManifestAdapterWithPredicate (ConfigMapObj emptyConfigMap) (adapt_config_object E) IsVLLMEngine) b
              else b);
     Some (Build b) }"

section \<open>Lemmas\<close>

definition applied_event :: "kobject \<Rightarrow> go_error option \<Rightarrow> event" where
  "applied_event obj e = (case obj of
     ConfigMapObj x \<Rightarrow> OnConfigMap (Apply x e) | DeploymentObj x \<Rightarrow> OnDeployment (Apply x e)
   | ServiceObj x \<Rightarrow> OnService (Apply x e))"

text \<open>The object as it is applied: the adapted one with its owner.\<close>

definition owned_by :: "k8s_lib \<Rightarrow> LLMEngine \<Rightarrow> kobject \<Rightarrow> kobject \<Rightarrow> bool" where
  "owned_by L le obj obj' = (\<exists>m. lib_SetControllerReference L (le_Meta le) (obj_meta obj) = Inr m \<and> obj' = set_meta m obj)"

lemma spec_serverSideApply:
  "spec (serverSideApply E obj) (\<lambda>e evs. evs = [] \<and> e \<noteq> None \<or> evs = [applied_event obj e])"
  unfolding serverSideApply_def api_Apply_object_def api_defs
  by (cases obj) (auto intro!: spec_intros spec_perform simp: applied_event_def)

lemma spec_own_and_apply:
  "spec (own_and_apply E ctx a b obj) (\<lambda>res evs. evs = [] \<and> res \<noteq> None \<or>
     (\<exists>obj' e. evs = [applied_event obj' e] \<and> (res = None) = (e = None) \<and>
        owned_by (r_Lib (ce_Reconciler E)) (ctx_LLMEngine ctx) obj obj'))"
proof (cases "lib_SetControllerReference (r_Lib (ce_Reconciler E)) (le_Meta (ctx_LLMEngine ctx)) (obj_meta obj)")
  case (Inl err)
  then show ?thesis by (simp add: own_and_apply_def spec_return)
next
  case (Inr m)
  then have owned: "owned_by (r_Lib (ce_Reconciler E)) (ctx_LLMEngine ctx) obj (set_meta m obj)"
    by (auto simp: owned_by_def)
  show ?thesis
    unfolding own_and_apply_def Inr sum.case
    by (rule spec_bind [OF spec_serverSideApply]) (use owned in \<open>auto intro!: spec_return\<close>)
qed

section \<open>The stages of a component\<close>

definition config_stage :: "'w component_env \<Rightarrow> LLMEngineContext \<Rightarrow> event \<Rightarrow> bool" where
  "config_stage E ctx ev = (\<exists>cm e yaml. ev = OnConfigMap (Apply cm e) \<and>
     om_Name (cm_Meta cm) = GetVLLMConfigMapName (le_Name (ctx_LLMEngine ctx)) (mr_Name (ctx_ModelRepo ctx)) \<and>
     om_Namespace (cm_Meta cm) = le_Namespace (ctx_LLMEngine ctx) \<and>
     ce_Marshal E (vllm_config (ctx_LLMEngine ctx) (ctx_ModelRepo ctx)) = Inr yaml \<and>
     map_of (cm_Data cm) VLLMConfigMapKeyName = Some yaml)"

definition deployment_stage :: "LLMEngineContext \<Rightarrow> event \<Rightarrow> bool" where
  "deployment_stage ctx ev = (\<exists>d e. ev = OnDeployment (Apply d e) \<and>
     om_Namespace (dep_Meta d) = ctx_Namespace ctx \<and>
     ComponentName (le_Name (ctx_LLMEngine ctx)) (mr_Name (ctx_ModelRepo ctx)) = Some (om_Name (dep_Meta d)) \<and>
     mounts_claim d (ctx_ModelPVCName ctx)
       (getOrDefaultMountPath (ms_MountPath (mrs_Storage (mr_Spec (ctx_ModelRepo ctx))))))"

definition service_stage :: "LLMEngineContext \<Rightarrow> event \<Rightarrow> bool" where
  "service_stage ctx ev = (\<exists>s e. ev = OnService (Apply s e) \<and>
     om_Namespace (svc_Meta s) = ctx_Namespace ctx \<and>
     ComponentName (le_Name (ctx_LLMEngine ctx)) (mr_Name (ctx_ModelRepo ctx)) = Some (om_Name (svc_Meta s)) \<and>
     svc_Selector s = [(''app'', le_Name (ctx_LLMEngine ctx)), (''model'', mr_Name (ctx_ModelRepo ctx))] \<and>
     fst (hd (svc_Ports s)) = GetServicePort (ctx_LLMEngine ctx))"

fun apply_ok :: "event \<Rightarrow> bool" where
  "apply_ok (OnConfigMap (Apply _ e)) = (e = None)"
| "apply_ok (OnDeployment (Apply _ e)) = (e = None)"
| "apply_ok (OnService (Apply _ e)) = (e = None)"
| "apply_ok _ = False"

text \<open>One apply per stage, in order, stopping at the first that fails.\<close>

fun staged :: "(event \<Rightarrow> bool) list \<Rightarrow> event list \<Rightarrow> bool" where
  "staged ps [] = True"
| "staged [] (e # evs) = False"
| "staged (p # ps) (e # evs) = (p e \<and> (if apply_ok e then staged ps evs else evs = []))"

definition stages :: "'w component_env \<Rightarrow> LLMEngineContext \<Rightarrow> (event \<Rightarrow> bool) list" where
  "stages E ctx = (if les_EngineType (le_Spec (ctx_LLMEngine ctx)) = LLMEngineTypeVLLM then [config_stage E ctx] else []) @
     [deployment_stage ctx, service_stage ctx]"

text \<open>A single stage: nothing applied and no success, or one apply whose answer decides.\<close>

definition one_stage :: "(event \<Rightarrow> bool) \<Rightarrow> bool \<Rightarrow> event list \<Rightarrow> bool" where
  "one_stage p ok evs = (evs = [] \<and> \<not> ok \<or> (\<exists>e. evs = [e] \<and> p e \<and> ok = apply_ok e))"

lemma owned_metaD:
  assumes "sets_owner L" "owned_by L le obj obj'"
  shows "\<exists>refs. obj' = set_meta ((obj_meta obj)\<lparr>om_OwnerReferences := refs\<rparr>) obj"
proof -
  from assms(2) obtain m where m: "lib_SetControllerReference L (le_Meta le) (obj_meta obj) = Inr m" "obj' = set_meta m obj"
    by (auto simp: owned_by_def)
  with assms(1) have "m = (obj_meta obj)\<lparr>om_OwnerReferences := om_OwnerReferences m\<rparr>"
    by (simp add: sets_owner_def)
  with m(2) show ?thesis by (intro exI [of _ "om_OwnerReferences m"]) simp
qed

text \<open>A resource whose owned form satisfies the stage makes one stage.\<close>

lemma spec_stage:
  assumes "sets_owner (r_Lib (ce_Reconciler E))"
    and "\<And>refs e. p (applied_event (set_meta ((obj_meta obj)\<lparr>om_OwnerReferences := refs\<rparr>) obj) e)"
  shows "spec (own_and_apply E ctx a b obj) (\<lambda>res evs. one_stage p (res = None) evs)"
proof (rule spec_conseq [OF spec_own_and_apply], elim disjE exE conjE)
  fix res evs obj' e
  assume run: "evs = [applied_event obj' e]" "(res = None) = (e = None)"
    "owned_by (r_Lib (ce_Reconciler E)) (ctx_LLMEngine ctx) obj obj'"
  from owned_metaD [OF assms(1) run(3)] assms(2) have "p (applied_event obj' e)" by blast
  moreover have "apply_ok (applied_event obj' e) = (e = None)" by (cases obj') (simp_all add: applied_event_def)
  ultimately show "one_stage p (res = None) evs" using run(1,2) by (simp add: one_stage_def)
qed (simp add: one_stage_def)

lemma one_stage_none [simp]: "one_stage p False []"
  by (simp add: one_stage_def)

lemma spec_reconcileDeployment:
  assumes owner: "sets_owner (r_Lib (ce_Reconciler E))"
    and adapter: "wl_adaptDeployment w = Some (AdaptDeployment (r_Lib (ce_Reconciler E)))"
  shows "spec (reconcileDeployment E w ctx) (\<lambda>res evs. one_stage (deployment_stage ctx) (res = Some None) evs)"
proof -
  have stage: "spec (own_and_apply E ctx a b (DeploymentObj d')) (\<lambda>res evs. one_stage (deployment_stage ctx) (res = None) evs)"
    if adapted: "AdaptDeployment (r_Lib (ce_Reconciler E)) ctx d = Some (Inr d')" "om_Namespace (dep_Meta d) = ctx_Namespace ctx"
    for a b d d'
  proof (rule spec_stage [OF owner])
    fix refs e
    from adapted(1) have "om_Namespace (dep_Meta d') = ctx_Namespace ctx \<and>
        ComponentName (le_Name (ctx_LLMEngine ctx)) (mr_Name (ctx_ModelRepo ctx)) = Some (om_Name (dep_Meta d'))"
      by (rule AdaptDeployment_cases) (use adapted(2) in simp)
    with AdaptDeployment_mounts_claim [OF adapted(1)]
    show "deployment_stage ctx (applied_event (set_meta ((obj_meta (DeploymentObj d'))\<lparr>om_OwnerReferences := refs\<rparr>) (DeploymentObj d')) e)"
      by (simp add: deployment_stage_def applied_event_def mounts_claim_def dep_container_def)
  qed
  show ?thesis
    unfolding reconcileDeployment_def adapter Let_def option.case
    by (intro spec_intros spec_bind [OF stage]) (assumption | simp)+
qed

lemma AdaptService_cases:
  assumes "AdaptService ctx s = Some (Inr s')"
  shows "ComponentName (le_Name (ctx_LLMEngine ctx)) (mr_Name (ctx_ModelRepo ctx)) = Some (om_Name (svc_Meta s'))"
    and "om_Namespace (svc_Meta s') = om_Namespace (svc_Meta s)"
    and "svc_Selector s' = [(''app'', le_Name (ctx_LLMEngine ctx)), (''model'', mr_Name (ctx_ModelRepo ctx))]"
    and "fst (hd (svc_Ports s')) = GetServicePort (ctx_LLMEngine ctx)"
  using assms by (cases "svc_Ports s"; auto simp: AdaptService_def Let_def bind_eq_Some_conv)+

lemma spec_reconcileService:
  assumes owner: "sets_owner (r_Lib (ce_Reconciler E))" and adapter: "wl_adaptService w = Some AdaptService"
  shows "spec (reconcileService E w ctx) (\<lambda>res evs. one_stage (service_stage ctx) (res = Some None) evs)"
proof -
  have stage: "spec (own_and_apply E ctx a b (ServiceObj s')) (\<lambda>res evs. one_stage (service_stage ctx) (res = None) evs)"
    if "AdaptService ctx s = Some (Inr s')" "om_Namespace (svc_Meta s) = ctx_Namespace ctx" for a b s s'
    by (rule spec_stage [OF owner]) (simp add: service_stage_def applied_event_def AdaptService_cases [OF that(1)] that(2))
  show ?thesis
    unfolding reconcileService_def adapter Let_def option.case
    by (intro spec_intros spec_bind [OF stage]) (assumption | simp)+
qed

lemma spec_reconcileConfig:
  assumes owner: "sets_owner (r_Lib (ce_Reconciler E))" and vllm: "les_EngineType (le_Spec (ctx_LLMEngine ctx)) = LLMEngineTypeVLLM"
  shows "spec (reconcileManifest E ctx name (NewManifestAdapterWithPredicate (ConfigMapObj emptyConfigMap) (adapt_config_object E) IsVLLMEngine))
    (\<lambda>res evs. one_stage (config_stage E ctx) (res = None) evs)"
proof -
  have stage: "spec (own_and_apply E ctx a b (ConfigMapObj cm')) (\<lambda>res evs. one_stage (config_stage E ctx) (res = None) evs)"
    if "AdaptVLLMConfigMap (ce_Marshal E) ctx cm = Inr cm'" for a b cm cm'
    by (rule spec_stage [OF owner])
      (use that in \<open>auto simp: config_stage_def applied_event_def AdaptVLLMConfigMap_def MarshalVLLMConfig_def Let_def split: sum.split_asm\<close>)
  show ?thesis
    using stage vllm
    by (auto simp: reconcileManifest_def NewManifestAdapterWithPredicate_def IsVLLMEngine_def adapt_config_object_def Let_def
        intro!: spec_intros split: sum.split)
qed

lemma component_parts:
  assumes "NewModelComponent E le mr = Some w"
  shows "wl_adaptDeployment w = Some (AdaptDeployment (r_Lib (ce_Reconciler E)))"
    and "wl_adaptService w = Some AdaptService" and "wl_predicate w = None"
    and "wl_manifestAdapters w = (if les_EngineType (le_Spec le) = LLMEngineTypeVLLM then [(''vllm-config'',
       NewManifestAdapterWithPredicate (ConfigMapObj emptyConfigMap) (adapt_config_object E) IsVLLMEngine)] else [])"
  using assms by (auto simp: NewModelComponent_def Build_def WithServiceAdapter_def WithDeploymentAdapter_def
      WithManifestAdapter_def NewLLMEngineComponent_def bind_eq_Some_conv map_set_def Let_def)

text \<open>\<^verbatim>\<open>sigs.k8s.io/yaml\<close> prints by way of JSON, whose encoder rejects what is not a number.\<close>

definition prints_by_json :: "(cfg gomap \<Rightarrow> go_error + string) \<Rightarrow> bool" where
  "prints_by_json marshal = (\<forall>m. nonfinite (CMap m) \<longrightarrow> (\<exists>err. marshal m = Inl err))"

section \<open>Properties\<close>

text \<open>
  (C18) Reconciling the component of an engine and a model applies its resources in order, each
  only after the one before was accepted: for vLLM first the ConfigMap with the configuration of
  this engine and model, then the deployment mounting the model's claim, then the service. It
  reports success only when every stage was applied and accepted.
\<close>

theorem component_Reconcile_staged:
  assumes "NewModelComponent E (ctx_LLMEngine ctx) (ctx_ModelRepo ctx) = Some w"
    and "sets_owner (r_Lib (ce_Reconciler E))"
  shows "spec (wl_Reconcile E w ctx) (\<lambda>res evs. staged (stages E ctx) evs \<and>
    (res = Some None \<longrightarrow> length evs = length (stages E ctx) \<and> list_all apply_ok evs))"
proof -
  let ?vllm = "les_EngineType (le_Spec (ctx_LLMEngine ctx)) = LLMEngineTypeVLLM"
  note w = component_parts [OF assms(1)]
  have manifests: "spec (reconcileManifests E ctx (wl_manifestAdapters w))
      (\<lambda>res evs. if ?vllm then one_stage (config_stage E ctx) (res = None) evs else res = None \<and> evs = [])"
    using assms(2) unfolding w(4)
    by (auto intro!: spec_return spec_bind [OF spec_reconcileConfig] split: option.split)
  show ?thesis
    unfolding wl_Reconcile_def w(3) option.case sum.case updateResources_def if_False not_True_eq_False
    by (intro spec_bind [OF manifests] spec_option spec_bind [OF spec_reconcileDeployment [OF assms(2) w(1)]]
          spec_conseq [OF spec_reconcileService [OF assms(2) w(2)]] spec_return)
      (auto simp: stages_def one_stage_def split: if_splits)
qed

text \<open>A printer for the samples: the keys of the configuration.\<close>

definition sample_marshal :: "cfg gomap \<Rightarrow> go_error + string" where
  "sample_marshal m = (if nonfinite (CMap m) then Inl (new_error ''json: unsupported value'') else Inr (Join (map fst m) '',''))"

definition sample_env :: "cluster component_env" where
  "sample_env = \<lparr>ce_Reconciler = mem_reconciler,
     ce_Assets = \<lparr>as_LLMEngine = (\<lambda>_. Some []), as_ModelRepository = (\<lambda>_. Some []),
       as_DecodeDeployment = (\<lambda>_. Inr sample_template), as_DecodeService = (\<lambda>_. Inr sample_service),
       as_DecodeJob = (\<lambda>_. Inl (new_error ''no jobs here''))\<rparr>,
     ce_ObjectKinds = (\<lambda>_. None), ce_ToUnstructured = (\<lambda>_. None),
     ce_Marshal = sample_marshal\<rparr>"

lemma sample_prints: "prints_by_json (ce_Marshal sample_env)"
  by (simp add: prints_by_json_def sample_env_def sample_marshal_def)

theorem component_Reconcile_staged_witness:
  "case NewModelComponent sample_env sample_engine sample_repo of
     None \<Rightarrow> False
   | Some w \<Rightarrow> spec (wl_Reconcile sample_env w sample_context) (\<lambda>res evs. staged (stages sample_env sample_context) evs) \<and>
       length (stages sample_env sample_context) = 3"
proof -
  obtain w where w: "NewModelComponent sample_env sample_engine sample_repo = Some w"
    by (simp add: NewModelComponent_def sample_ComponentName Let_def)
  then have "spec (wl_Reconcile sample_env w sample_context) (\<lambda>res evs. staged (stages sample_env sample_context) evs \<and>
      (res = Some None \<longrightarrow> length evs = length (stages sample_env sample_context) \<and> list_all apply_ok evs))"
    by (intro component_Reconcile_staged) (simp_all add: sample_context_def sample_env_def)
  then have "spec (wl_Reconcile sample_env w sample_context) (\<lambda>res evs. staged (stages sample_env sample_context) evs)"
    by (rule spec_conseq) simp
  moreover have "length (stages sample_env sample_context) = 3"
    by (simp add: stages_def sample_context_def sample_engine_def)
  ultimately show ?thesis unfolding w option.case ..
qed

text \<open>
  (C35) One argument can block a vLLM engine: if among its arguments one has as its value one of the
  words inf, infinity or nan, in any case and with any sign for the first two - at any position,
  as \<^verbatim>\<open>--key=word\<close> or as \<^verbatim>\<open>--key word\<close> - and no later argument sets the same top-level key again, the word is
  read as a float that is no number; as the configuration is printed by way of JSON, which has no
  such value, the component of the engine reports an error and applies nothing, neither ConfigMap
  nor deployment nor service.
\<close>

theorem nonfinite_argument_blocks_component:
  assumes "NewModelComponent E (ctx_LLMEngine ctx) (ctx_ModelRepo ctx) = Some w"
    and "les_EngineType (le_Spec (ctx_LLMEngine ctx)) = LLMEngineTypeVLLM" and "prints_by_json (ce_Marshal E)"
    and "les_Args (le_Spec (ctx_LLMEngine ctx)) = before @ given @ after"
    and "gives key word given" and "special word = Some f"
    and "\<forall>a \<in> set after. HasPrefix a ''--'' \<longrightarrow> arg_root a \<noteq> arg_root (''--'' @ key)"
  shows "spec (wl_Reconcile E w ctx) (\<lambda>res evs. evs = [] \<and> (\<exists>err. res = Some (Some err)))"
proof -
  have "nonfinite (CMap (vllm_config (ctx_LLMEngine ctx) (ctx_ModelRepo ctx)))"
    unfolding vllm_config_def Let_def by (rule BuildVLLMConfig_nonfinite [OF assms(4-7)])
  then obtain err where "ce_Marshal E (vllm_config (ctx_LLMEngine ctx) (ctx_ModelRepo ctx)) = Inl err"
    using assms(3) by (auto simp: prints_by_json_def)
  then show ?thesis
    using assms(2) component_parts [OF assms(1)]
    by (auto simp: wl_Reconcile_def updateResources_def reconcileManifest_def NewManifestAdapterWithPredicate_def IsVLLMEngine_def
        adapt_config_object_def AdaptVLLMConfigMap_def MarshalVLLMConfig_def Let_def intro!: spec_intros)
qed

definition tuned_engine :: LLMEngine where
  "tuned_engine = sample_engine\<lparr>le_Spec := (le_Spec sample_engine)\<lparr>les_Args := [''--seed=1'', ''--swap-space'', ''-Inf'', ''--max-logprobs=5'']\<rparr>\<rparr>"

theorem nonfinite_argument_blocks_component_witness:
  "case NewModelComponent sample_env tuned_engine sample_repo of
     None \<Rightarrow> False
   | Some w \<Rightarrow> spec (wl_Reconcile sample_env w (sample_context\<lparr>ctx_LLMEngine := tuned_engine\<rparr>))
       (\<lambda>res evs. evs = [] \<and> (\<exists>err. res = Some (Some err)))"
proof -
  let ?ctx = "sample_context\<lparr>ctx_LLMEngine := tuned_engine\<rparr>"
  have ctx: "ctx_LLMEngine ?ctx = tuned_engine" "ctx_ModelRepo ?ctx = sample_repo" by (simp_all add: sample_context_def)
  have "ComponentName (le_Name tuned_engine) (mr_Name sample_repo) = Some ''chat-llama''" by code_simp
  then obtain w where w: "NewModelComponent sample_env tuned_engine sample_repo = Some w"
    by (simp add: NewModelComponent_def Let_def)
  have spec: "les_EngineType (le_Spec tuned_engine) = LLMEngineTypeVLLM"
    "les_Args (le_Spec tuned_engine) = [''--seed=1''] @ [''--'' @ ''swap-space'', ''-Inf''] @ [''--max-logprobs=5'']"
    by (simp_all add: tuned_engine_def sample_engine_def)
  have given: "gives ''swap-space'' ''-Inf'' [''--'' @ ''swap-space'', ''-Inf'']" by (simp add: gives_def)
  have after: "\<forall>a \<in> set [''--max-logprobs=5'']. HasPrefix a ''--'' \<longrightarrow> arg_root a \<noteq> arg_root (''--'' @ ''swap-space'')" by code_simp
  have "special ''-Inf'' = Some (FInf True)" by code_simp
  then have "spec (wl_Reconcile sample_env w ?ctx) (\<lambda>res evs. evs = [] \<and> (\<exists>err. res = Some (Some err)))"
    using given after
    by (intro nonfinite_argument_blocks_component [where before = "[''--seed=1'']" and given = "[''--'' @ ''swap-space'', ''-Inf'']"
          and after = "[''--max-logprobs=5'']" and key = "''swap-space''" and word = "''-Inf''"])
      (simp_all only: ctx w sample_prints spec)
  then show ?thesis by (simp add: w)
qed

end
