(* ===== verification/Job_Adapters.thy ===== *)
theory Job_Adapters
  imports Engine_Adapters Assets
begin

text \<open>
  \<^verbatim>\<open>internal/controller/component/job_component.go\<close> and \<^verbatim>\<open>job_adapters.go\<close>: what the operator
  makes of the templates of download and cleanup jobs. An index into an empty list of
  containers is the panic \<open>None\<close>.
\<close>

section \<open>Model\<close>

record ModelRepositoryJobContext =
  jc_ModelRepo :: ModelRepository
  jc_Provider :: StorageClassProvider
  jc_RevisionRef :: "RevisionReference option"
  jc_JobName :: string
  jc_Namespace :: string
  jc_CustomImage :: string
  jc_CustomScript :: string

abbreviation JobTypeDownload :: string where "JobTypeDownload \<equiv> ''download''"

abbreviation JobTypeCleanup :: string where "JobTypeCleanup \<equiv> ''cleanup''"

abbreviation RepositoryLabel :: string where
  "RepositoryLabel \<equiv> ''modelrepository.aitrigram.cliver-project.github.io/name''"

definition getOriginConfig :: "string \<Rightarrow> string \<Rightarrow> ModelRepository option \<Rightarrow> string \<times> string" where
  "getOriginConfig origin jobType repo =
     (let modelPath = (case repo of
            Some mr \<Rightarrow> if ms_MountPath (mrs_Storage (mr_Spec mr)) \<noteq> [] then ms_MountPath (mrs_Storage (mr_Spec mr))
                       else DefaultModelStoragePath
          | None \<Rightarrow> DefaultModelStoragePath);
          scriptFile = (if origin = ''huggingface'' then (if jobType = ''download'' then ''download.py'' else ''cleanup.py'')
            else if origin = ''ollama'' then (if jobType = ''download'' then ''download.sh'' else ''cleanup.sh'')
            else [])
      in (scriptFile, modelPath))"

definition buildJobEnvironment :: "string \<Rightarrow> smap \<Rightarrow> string \<Rightarrow> ModelSource option \<Rightarrow> EnvVar list" where
  "buildJobEnvironment origin params mountPath source =
     (if origin = ''huggingface'' then
        [env_var ''HF_HOME'' mountPath] @ (case source of Some src \<Rightarrow> token_env ''HF_TOKEN'' src | None \<Rightarrow> [])
      else if origin = ''ollama'' then
        [env_var ''HOME'' mountPath, env_var ''OLLAMA_HOME'' mountPath, env_var ''OLLAMA_MODELS'' mountPath]
      else []) @ map (\<lambda>(k, v). env_var k v) params"

definition job_params :: "ModelRepositoryJobContext \<Rightarrow> smap" where
  "job_params ctx =
     [(''MODEL_ID'', src_ModelId (mrs_Source (mr_Spec (jc_ModelRepo ctx)))),
      (''MODEL_NAME'', mrs_ModelName (mr_Spec (jc_ModelRepo ctx))),
      (''MOUNT_PATH'', GetMountPath (jc_Provider ctx))] @
     (case jc_RevisionRef ctx of Some ref \<Rightarrow> [(''REVISION_ID'', rref_Ref ref)] | None \<Rightarrow> [])"

definition job_script :: "assets \<Rightarrow> ModelRepositoryJobContext \<Rightarrow> string \<Rightarrow> go_error + string" where
  "job_script A ctx jobType =
     (if jc_CustomScript ctx \<noteq> [] then Inr (jc_CustomScript ctx)
      else (let origin = src_Origin (mrs_Source (mr_Spec (jc_ModelRepo ctx))) in
        case LoadModelRepositoryScript A origin (fst (getOriginConfig origin jobType (Some (jc_ModelRepo ctx)))) of
          Inl err \<Rightarrow> Inl (wrap_error (''failed to load '' @ jobType @ '' script: '') err)
        | Inr script \<Rightarrow> Inr script))"

definition adaptModelRepositoryJob ::
  "assets \<Rightarrow> ModelRepositoryJobContext \<Rightarrow> Job \<Rightarrow> string \<Rightarrow> (go_error + Job) option" where
  "adaptModelRepositoryJob A ctx job jobType =
     (let mr = jc_ModelRepo ctx; p = jc_Provider ctx;
          origin = src_Origin (mrs_Source (mr_Spec mr));
          modelPath = snd (getOriginConfig origin jobType (Some mr));
          meta = (job_Meta job)\<lparr>om_Name := jc_JobName ctx, om_Namespace := jc_Namespace ctx,
                   om_Labels := map_set (om_Labels (job_Meta job)) RepositoryLabel (mr_Name mr)\<rparr>;
          template = job_Template job; pod = pt_Spec template in
      case ps_Containers pod of
        [] \<Rightarrow> None
      | c # cs \<Rightarrow>
          (case job_script A ctx jobType of
             Inl err \<Rightarrow> Some (Inl err)
           | Inr script \<Rightarrow>
               (let (volume, volumeMount) = PrepareDownloadVolume p;
                    c' = c\<lparr>ct_Image := (if jc_CustomImage ctx \<noteq> [] then jc_CustomImage ctx else ct_Image c),
                           ct_Args := [''-c'', script],
                           ct_Env := buildJobEnvironment origin (job_params ctx) modelPath (Some (mrs_Source (mr_Spec mr))),
                           ct_VolumeMounts := [volumeMount]\<rparr>;
                    pod' = pod\<lparr>ps_Containers := c' # cs, ps_Volumes := [volume],
                       ps_NodeSelector := (if mrs_NodeSelector (mr_Spec mr) \<noteq> [] then mrs_NodeSelector (mr_Spec mr)
                                           else ps_NodeSelector pod),
                       ps_Affinity := (case GetNodeAffinity p of Some a \<Rightarrow> Some a | None \<Rightarrow> ps_Affinity pod)\<rparr>
                in Some (Inr (job\<lparr>job_Meta := meta,
                     job_Template := template\<lparr>pt_Labels := map_set (pt_Labels template) RepositoryLabel (mr_Name mr),
                       pt_Spec := pod'\<rparr>\<rparr>)))))"

definition AdaptDownloadJob :: "assets \<Rightarrow> ModelRepositoryJobContext \<Rightarrow> Job \<Rightarrow> (go_error + Job) option" where
  "AdaptDownloadJob A ctx job = adaptModelRepositoryJob A ctx job ''download''"

definition AdaptCleanupJob :: "assets \<Rightarrow> ModelRepositoryJobContext \<Rightarrow> Job \<Rightarrow> (go_error + Job) option" where
  "AdaptCleanupJob A ctx job = adaptModelRepositoryJob A ctx job ''cleanup''"

section \<open>Lemmas\<close>

definition job_container :: "Job \<Rightarrow> Container" where
  "job_container job = hd (ps_Containers (pt_Spec (job_Template job)))"

definition sample_job :: Job where
  "sample_job = \<lparr>job_Meta = emptyMeta\<lparr>om_Name := ''placeholder''\<rparr>,
     job_Template = \<lparr>pt_Labels = [(''app'', ''llm-downloader'')], pt_Spec = \<lparr>ps_Containers = [sample_container], ps_Volumes = [],
       ps_NodeSelector = [], ps_Affinity = None, ps_Tolerations = [], ps_HostIPC = False\<rparr>\<rparr>,
     job_Succeeded = 0, job_Failed = 0\<rparr>"

lemma adaptJob_fields:
  assumes "adaptModelRepositoryJob A ctx job jobType = Some (Inr job')"
  shows "om_Name (job_Meta job') = jc_JobName ctx" and "om_Namespace (job_Meta job') = jc_Namespace ctx"
    and "ct_VolumeMounts (job_container job') = [snd (PrepareDownloadVolume (jc_Provider ctx))]"
    and "ps_Volumes (pt_Spec (job_Template job')) = [fst (PrepareDownloadVolume (jc_Provider ctx))]"
    and "ct_Env (job_container job') = buildJobEnvironment (src_Origin (mrs_Source (mr_Spec (jc_ModelRepo ctx))))
      (job_params ctx) (getOrDefaultMountPath (ms_MountPath (mrs_Storage (mr_Spec (jc_ModelRepo ctx)))))
      (Some (mrs_Source (mr_Spec (jc_ModelRepo ctx))))"
    and "ps_Affinity (pt_Spec (job_Template job')) = (case GetNodeAffinity (jc_Provider ctx) of
      Some a \<Rightarrow> Some a | None \<Rightarrow> ps_Affinity (pt_Spec (job_Template job)))"
  using assms
  by (cases "ps_Containers (pt_Spec (job_Template job))";
      auto simp: adaptModelRepositoryJob_def job_container_def getOriginConfig_def getOrDefaultMountPath_def Let_def split_beta
        split: sum.split_asm)+

lemma adaptJob_total:
  assumes "embedded A" and "ps_Containers (pt_Spec (job_Template job)) \<noteq> []"
    and "src_Origin (mrs_Source (mr_Spec (jc_ModelRepo ctx))) \<in> {''huggingface'', ''ollama''}"
  shows "\<exists>job'. adaptModelRepositoryJob A ctx job jobType = Some (Inr job')"
proof -
  have "\<exists>script. job_script A ctx jobType = Inr script"
    using assms(1,3)
    by (auto simp: job_script_def LoadModelRepositoryScript_def GetModelRepositoryOriginAssets_def getOriginConfig_def
        embedded_def ReadFile_def Let_def)
  with assms(2) show ?thesis
    by (auto simp: adaptModelRepositoryJob_def Let_def split_beta split: list.split)
qed

section \<open>Properties\<close>

definition runs_on_claim :: "Job \<Rightarrow> StorageClassProvider \<Rightarrow> bool" where
  "runs_on_claim job p =
     (ps_Volumes (pt_Spec (job_Template job)) = [\<lparr>v_Name = ''model-storage'', v_Source = PVCSource (prov_pvcName p) False\<rparr>] \<and>
      ct_VolumeMounts (job_container job) = [\<lparr>vm_Name = ''model-storage'', vm_MountPath = prov_mountPath p, vm_ReadOnly = False\<rparr>])"

definition pinned_to :: "Job \<Rightarrow> string \<Rightarrow> bool" where
  "pinned_to job node = (ps_Affinity (pt_Spec (job_Template job)) = Some (hostname_selector node))"

text \<open>
  From the embedded templates and scripts, a job for a HuggingFace or Ollama repository can
  always be built. It has the name it was given, its only volume is the repository's claim,
  mounted writable at the repository's path, and when the storage is bound to a node the job
  is pinned to that node.
\<close>

lemma adaptModelRepositoryJob_runs:
  assumes "embedded A" and "ps_Containers (pt_Spec (job_Template job)) \<noteq> []"
    and "src_Origin (mrs_Source (mr_Spec (jc_ModelRepo ctx))) \<in> {''huggingface'', ''ollama''}"
    and "jc_Provider ctx = NewStorageClassProvider (jc_ModelRepo ctx) sc"
  shows "\<exists>job'. adaptModelRepositoryJob A ctx job jobType = Some (Inr job') \<and>
    om_Name (job_Meta job') = jc_JobName ctx \<and> om_Namespace (job_Meta job') = jc_Namespace ctx \<and>
    runs_on_claim job' (jc_Provider ctx) \<and>
    (sci_AccessMode sc = ReadWriteOnce \<and> GetBoundNodeName (jc_ModelRepo ctx) \<noteq> [] \<longrightarrow>
       pinned_to job' (GetBoundNodeName (jc_ModelRepo ctx)))"
proof -
  from adaptJob_total [OF assms(1-3)] obtain job' where
    job': "adaptModelRepositoryJob A ctx job jobType = Some (Inr job')" by blast
  have "GetNodeAffinity (jc_Provider ctx) = Some (hostname_selector (GetBoundNodeName (jc_ModelRepo ctx)))"
    if "sci_AccessMode sc = ReadWriteOnce" "GetBoundNodeName (jc_ModelRepo ctx) \<noteq> []"
    using that by (auto simp: assms(4) NewStorageClassProvider_def GetNodeAffinity_def GetBoundNodeName_def split: option.splits)
  with job' adaptJob_fields [OF job'] show ?thesis
    by (auto simp: runs_on_claim_def pinned_to_def PrepareDownloadVolume_def)
qed

definition all_assets :: assets where
  "all_assets = \<lparr>as_LLMEngine = (\<lambda>_. Some []), as_ModelRepository = (\<lambda>_. Some ''echo''),
     as_DecodeDeployment = (\<lambda>_. Inr sample_template), as_DecodeService = (\<lambda>_. Inr sample_service),
     as_DecodeJob = (\<lambda>_. Inr sample_job)\<rparr>"

definition local_class :: StorageClassInfo where
  "local_class = \<lparr>sci_Name = ''local'', sci_Provisioner = ''rancher.io/local-path'', sci_Type = ''local'',
     sci_AccessMode = ReadWriteOnce, sci_IsDefault = False\<rparr>"

definition bound_repo :: ModelRepository where
  "bound_repo = sample_repo\<lparr>mr_Status := (mr_Status sample_repo)\<lparr>mst_Storage := Some
     \<lparr>ss_StorageClass = ''local'', ss_AccessMode = ReadWriteOnce, ss_VolumeMode = ''Filesystem'', ss_BackendRef = None,
      ss_BoundNodeName = ''node-7'', ss_Capacity = ''10Gi''\<rparr>\<rparr>\<rparr>"

definition sample_job_context :: ModelRepositoryJobContext where
  "sample_job_context = \<lparr>jc_ModelRepo = bound_repo, jc_Provider = NewStorageClassProvider bound_repo local_class,
     jc_RevisionRef = Some \<lparr>rref_Name = ''main'', rref_Ref = ''main''\<rparr>, jc_JobName = ''download-llama-main'',
     jc_Namespace = ''aitrigram-system'', jc_CustomImage = [], jc_CustomScript = []\<rparr>"

lemma adaptModelRepositoryJob_runs_witness:
  "\<exists>job'. adaptModelRepositoryJob all_assets sample_job_context sample_job ''download'' = Some (Inr job') \<and>
     runs_on_claim job' (NewStorageClassProvider bound_repo local_class) \<and> pinned_to job' ''node-7''"
proof -
  have ctx: "src_Origin (mrs_Source (mr_Spec (jc_ModelRepo sample_job_context))) \<in> {''huggingface'', ''ollama''}"
    "jc_Provider sample_job_context = NewStorageClassProvider (jc_ModelRepo sample_job_context) local_class"
    "GetBoundNodeName (jc_ModelRepo sample_job_context) = ''node-7''" "sci_AccessMode local_class = ReadWriteOnce"
    by (simp_all add: sample_job_context_def bound_repo_def sample_repo_def GetBoundNodeName_def local_class_def)
  have "jc_Provider sample_job_context = NewStorageClassProvider bound_repo local_class"
    by (simp add: sample_job_context_def)
  moreover have "embedded all_assets" by (simp add: embedded_def all_assets_def)
  moreover have "ps_Containers (pt_Spec (job_Template sample_job)) \<noteq> []" by (simp add: sample_job_def)
  ultimately show ?thesis
    using adaptModelRepositoryJob_runs [of all_assets sample_job sample_job_context local_class "''download''"] ctx by auto
qed

end
