(* ===== verification/Status_Sync.thy ===== *)
theory Status_Sync
  imports Sample_Cluster
begin

text \<open>
  Both controllers write their status the same way (\<open>syncStatus\<close>): fetch a fresh copy, apply a
  mutation, write only what changed, retry on conflicts. This theory holds the common step, the
  log it leaves (\<open>sync_log\<close>), and the interface \<open>phased_status\<close>: a status whose phase is derived
  from its conditions wherever a condition is set.
\<close>

section \<open>Writing a status\<close>

definition sync_status ::
  "('o call \<Rightarrow> event) \<Rightarrow> ('w, 'o) rclient \<Rightarrow> (('w, go_error option) kio \<Rightarrow> ('w, go_error option) kio) \<Rightarrow>
   ('s \<Rightarrow> 's \<Rightarrow> bool) \<Rightarrow> ('o \<Rightarrow> 's) \<Rightarrow> ('s \<Rightarrow> 'o \<Rightarrow> 'o) \<Rightarrow> okey \<Rightarrow> ('s \<Rightarrow> 's) \<Rightarrow> ('w, go_error option) kio" where
  "sync_status on rc retry equal status_of put_status key mutate = retry (do {
     g \<leftarrow> api_Get on rc key;
     case g of
       Inl err \<Rightarrow> ret (Some err)
     | Inr fresh \<Rightarrow>
         (let st = mutate (status_of fresh) in
          if equal (status_of fresh) st then ret None
          else do {
            u \<leftarrow> api_StatusUpdate on rc (put_status st fresh);
            case u of Inl err \<Rightarrow> ret (Some err) | Inr _ \<Rightarrow> ret None }) })"

text \<open>
  The log of such a write: reads of the object's key, and after a read possibly the write of its
  answer with the mutated status, if the mutation changed it.
\<close>

inductive sync_log ::
  "('o call \<Rightarrow> event) \<Rightarrow> ('s \<Rightarrow> 's \<Rightarrow> bool) \<Rightarrow> ('o \<Rightarrow> 's) \<Rightarrow> ('s \<Rightarrow> 'o \<Rightarrow> 'o) \<Rightarrow> okey \<Rightarrow> ('s \<Rightarrow> 's) \<Rightarrow> event list \<Rightarrow> bool"
  for on :: "'o call \<Rightarrow> event" and equal status_of put_status key mutate where
  stop: "sync_log on equal status_of put_status key mutate []"
| read: "sync_log on equal status_of put_status key mutate evs \<Longrightarrow>
     sync_log on equal status_of put_status key mutate (on (Get key ans) # evs)"
| change: "sync_log on equal status_of put_status key mutate evs \<Longrightarrow>
     \<not> equal (status_of fresh) (mutate (status_of fresh)) \<Longrightarrow>
     sync_log on equal status_of put_status key mutate
       (on (Get key (Inr fresh)) # on (StatusUpdate (put_status (mutate (status_of fresh)) fresh) u) # evs)"

lemma sync_log_append:
  "sync_log on equal sof put key f e1 \<Longrightarrow> sync_log on equal sof put key f e2 \<Longrightarrow>
     sync_log on equal sof put key f (e1 @ e2)"
  by (induction rule: sync_log.induct) (auto intro: sync_log.intros)

lemma spec_sync_status:
  assumes "retries_conflicts retry"
  shows "spec (sync_status on rc retry equal sof put key f) (\<lambda>res evs. sync_log on equal sof put key f evs)"
  unfolding sync_status_def Let_def
  by (rule spec_retry [OF assms]) (intro spec_intros, auto intro: sync_log.intros sync_log_append)

text \<open>
  Without an error the last call says that the status is as wanted: either what was read already
  is, or the write was accepted.
\<close>

definition synced ::
  "('o call \<Rightarrow> event) \<Rightarrow> ('s \<Rightarrow> 's \<Rightarrow> bool) \<Rightarrow> ('o \<Rightarrow> 's) \<Rightarrow> ('s \<Rightarrow> 'o \<Rightarrow> 'o) \<Rightarrow> okey \<Rightarrow> ('s \<Rightarrow> 's) \<Rightarrow> event \<Rightarrow> bool" where
  "synced on equal status_of put_status key mutate e =
     ((\<exists>fresh. e = on (Get key (Inr fresh)) \<and> equal (status_of fresh) (mutate (status_of fresh))) \<or>
      (\<exists>fresh stored. e = on (StatusUpdate (put_status (mutate (status_of fresh)) fresh) (Inr stored))))"

lemma spec_sync_status_done:
  assumes "retries_conflicts retry"
  shows "spec (sync_status on rc retry equal sof put key f)
    (\<lambda>res evs. res = None \<longrightarrow> evs \<noteq> [] \<and> synced on equal sof put key f (last evs))"
  unfolding sync_status_def Let_def
  by (rule spec_retry [OF assms]) (intro spec_intros, auto simp: synced_def)

text \<open>Whatever holds of the events of such a log, whatever the answers.\<close>

lemma sync_log_all:
  assumes "sync_log on equal sof put key f evs"
    and "\<And>ans. P (on (Get key ans))" and "\<And>x u. P (on (StatusUpdate (put (f (sof x)) x) u))"
  shows "list_all P evs"
  using assms(1) by induction (auto intro: assms(2,3))

lemma all_events_sync_status:
  assumes "retries_conflicts retry"
    and "\<And>ans. P (on (Get key ans))" and "\<And>x u. P (on (StatusUpdate (put (f (sof x)) x) u))"
  shows "all_events P (sync_status on rc retry equal sof put key f)"
  unfolding all_events_def
  by (rule spec_conseq [OF spec_sync_status [OF assms(1)]], rule sync_log_all) (use assms in auto)

text \<open>If what is read is good, what is written is good.\<close>

lemma guarded_sync_status:
  assumes "retries_conflicts retry" and "\<And>ans. Q (on (Get key ans))"
    and "\<And>x u. P (on (Get key (Inr x))) \<Longrightarrow> Q (on (StatusUpdate (put (f (sof x)) x) u))"
  shows "guarded P Q (sync_status on rc retry equal sof put key f)"
proof -
  have "guarded_log P Q evs" if "sync_log on equal sof put key f evs" for evs
    using that by induction (auto intro: assms(2,3))
  then show ?thesis
    unfolding guarded_def by (intro spec_conseq [OF spec_sync_status [OF assms(1)]]) blast
qed

section \<open>Phases derived from conditions\<close>

definition condition :: "string \<Rightarrow> string \<Rightarrow> string \<Rightarrow> string \<Rightarrow> Condition" where
  "condition t status reason msg = \<lparr>c_Type = t, c_Status = status, c_Reason = reason, c_Message = msg\<rparr>"

locale phased_status =
  fixes conds :: "'s \<Rightarrow> Condition list"
    and phase :: "'s \<Rightarrow> string"
    and derive :: "k8s_lib \<Rightarrow> Condition list \<Rightarrow> string"
    and set_conds :: "k8s_lib \<Rightarrow> Condition list \<Rightarrow> 's \<Rightarrow> 's"
  assumes conds_set: "conds (set_conds L cs s) = foldl (lib_SetStatusCondition L) (conds s) cs"
    and phase_set: "phase (set_conds L cs s) = derive L (conds (set_conds L cs s))"
    and derive_ready: "lib_FindStatusCondition L a ''Ready'' = lib_FindStatusCondition L b ''Ready'' \<Longrightarrow> derive L a = derive L b"
begin

text \<open>The phase is the derived one, or has never been set.\<close>

definition consistent :: "k8s_lib \<Rightarrow> 's \<Rightarrow> bool" where
  "consistent L s = (phase s = derive L (conds s) \<or>
     phase s = [] \<and> lib_FindStatusCondition L (conds s) ''Ready'' = None)"

lemma consistent_set: "consistent L (set_conds L cs s)"
  by (simp add: consistent_def phase_set)

lemma consistent_unrelated:
  assumes "consistent L s" "phase s' = phase s"
    and "lib_FindStatusCondition L (conds s') ''Ready'' = lib_FindStatusCondition L (conds s) ''Ready''"
  shows "consistent L s'"
  using assms derive_ready [OF assms(3)] by (simp add: consistent_def)

lemma find_set:
  "sets_conditions L \<Longrightarrow> lib_FindStatusCondition L (foldl (lib_SetStatusCondition L) cs0 cs) t =
     (case find (\<lambda>c. c_Type c = t) (rev cs) of None \<Rightarrow> lib_FindStatusCondition L cs0 t | Some c \<Rightarrow> Some c)"
  by (induction cs rule: rev_induct) (auto simp: sets_conditionsD)

text \<open>The last Ready condition that was set decides the phase.\<close>

lemma phase_set_ready:
  assumes "sets_conditions L" "c_Type c = ''Ready''"
  shows "lib_FindStatusCondition L (conds (set_conds L (cs @ [c]) s)) ''Ready'' = Some c"
  using assms by (simp add: conds_set find_set sets_conditionsD)

end

end
