(* ===== verification/ModelRepo_Controller.thy ===== *)
theory ModelRepo_Controller
  imports Status_Sync Storage_Provider Job_Adapters Names
begin

text \<open>
  \<^verbatim>\<open>internal/controller/modelrepository_controller.go\<close>: the reconciler of ModelRepositories.
  Go passes the repository by pointer: a definition that changes the copy in memory returns it,
  and a pointer into its list of revisions is the entry that it names. The provider points to
  the same repository and is renewed with it. A result \<open>None\<close> is a panic (of a job name, of
  \<^verbatim>\<open>resource.MustParse\<close>, of an index into an empty list of containers).
\<close>

section \<open>Model: status\<close>

definition deriveModelRepoPhase :: "k8s_lib \<Rightarrow> Condition list \<Rightarrow> string" where
  "deriveModelRepoPhase L conditions =
     (case lib_FindStatusCondition L conditions ModelRepoConditionReady of
        None \<Rightarrow> DownloadPhasePending
      | Some ready \<Rightarrow>
          if c_Status ready = ConditionTrue then DownloadPhaseReady
          else if c_Reason ready = ModelRepoReasonDownloading then DownloadPhaseDownloading
          else DownloadPhaseFailed)"

definition mr_syncStatus :: "'w reconciler \<Rightarrow> ModelRepository \<Rightarrow> (ModelRepositoryStatus \<Rightarrow> ModelRepositoryStatus) \<Rightarrow>
    ('w, go_error option) kio" where
  "mr_syncStatus r mr mutate =
     sync_status OnRepo (cl_Repo (r_Client r)) (r_RetryOnConflict r) (lib_RepoStatusEqual (r_Lib r))
       mr_Status (\<lambda>st x. x\<lparr>mr_Status := st\<rparr>) (ObjectKeyFromObject (mr_Meta mr)) mutate"

text \<open>Setting conditions, then deriving the phase.\<close>

definition mr_set_conditions :: "k8s_lib \<Rightarrow> Condition list \<Rightarrow> ModelRepositoryStatus \<Rightarrow> ModelRepositoryStatus" where
  "mr_set_conditions L cs s =
     (let conds = foldl (lib_SetStatusCondition L) (mst_Conditions s) cs
      in s\<lparr>mst_Conditions := conds, mst_Phase := deriveModelRepoPhase L conds\<rparr>)"

definition mr_setCondition :: "'w reconciler \<Rightarrow> ModelRepository \<Rightarrow> string \<Rightarrow> string \<Rightarrow> string \<Rightarrow> string \<Rightarrow> ('w, unit) kio" where
  "mr_setCondition r mr condType status reason message = do {
     _ \<leftarrow> mr_syncStatus r mr (mr_set_conditions (r_Lib r) [condition condType status reason message]);
     ret () }"

fun upsert_revision :: "RevisionStatus list \<Rightarrow> RevisionStatus \<Rightarrow> RevisionStatus list" where
  "upsert_revision [] rs = [rs]"
| "upsert_revision (x # xs) rs = (if rs_Name x = rs_Name rs then rs # xs else x # upsert_revision xs rs)"

definition updateRevisionStatus :: "'w reconciler \<Rightarrow> ModelRepository \<Rightarrow> RevisionStatus \<Rightarrow> ('w, go_error option) kio" where
  "updateRevisionStatus r mr rs =
     mr_syncStatus r mr (\<lambda>s. s\<lparr>mst_AvailableRevisions := upsert_revision (mst_AvailableRevisions s) rs\<rparr>)"

definition provisioned_status :: "k8s_lib \<Rightarrow> StorageStatus \<Rightarrow> ModelRepositoryStatus \<Rightarrow> ModelRepositoryStatus" where
  "provisioned_status L st s = s\<lparr>mst_Storage := Some st,
     mst_Conditions := lib_SetStatusCondition L (mst_Conditions s)
       (condition ModelRepoConditionStorageReady ConditionTrue ModelRepoReasonStorageProvisioned
         (''Storage provisioned with class '' @ ss_StorageClass st))\<rparr>"

definition updateStorageStatus :: "'w reconciler \<Rightarrow> ModelRepository \<Rightarrow> StorageClassProvider \<Rightarrow> ('w, go_error option) kio" where
  "updateStorageStatus r mr p = do {
     g \<leftarrow> GetStorageStatus r p (operator_namespace r);
     case g of
       Inl err \<Rightarrow> ret (Some (wrap_error ''failed to get storage status: '' err))
     | Inr st \<Rightarrow> mr_syncStatus r mr (provisioned_status (r_Lib r) st) }"

section \<open>Model: revisions\<close>

definition getCurrentRevision :: "ModelRepository \<Rightarrow> string" where
  "getCurrentRevision mr = (let src = mrs_Source (mr_Spec mr) in
     if src_Revision src \<noteq> [] then src_Revision src
     else if src_Origin src = ModelOriginHuggingFace then ''main''
     else if src_Origin src = ModelOriginOllama then ''latest''
     else ''main'')"

definition getDesiredRevisions :: "ModelRepository \<Rightarrow> RevisionReference list" where
  "getDesiredRevisions mr = (let revs = src_Revisions (mrs_Source (mr_Spec mr)); rev = getCurrentRevision mr in
     if revs \<noteq> [] then revs else [\<lparr>rref_Name = rev, rref_Ref = rev\<rparr>])"

definition findRevisionStatus :: "ModelRepository \<Rightarrow> string \<Rightarrow> RevisionStatus option" where
  "findRevisionStatus mr name = find (\<lambda>rs. rs_Name rs = name) (mst_AvailableRevisions (mr_Status mr))"

text \<open>
  Assigning through the pointer that \<open>findRevisionStatus\<close> returned: the first entry of that name.
  Without an entry the code works on an object of its own, and the copy in memory stays.
\<close>

fun assign_status :: "RevisionStatus list \<Rightarrow> string \<Rightarrow> string \<Rightarrow> RevisionStatus list" where
  "assign_status [] name st = []"
| "assign_status (x # xs) name st = (if rs_Name x = name then x\<lparr>rs_Status := st\<rparr> # xs else x # assign_status xs name st)"

definition assign_revision :: "ModelRepository \<Rightarrow> string \<Rightarrow> string \<Rightarrow> ModelRepository" where
  "assign_revision mr name st = mr\<lparr>mr_Status := (mr_Status mr)\<lparr>mst_AvailableRevisions :=
     assign_status (mst_AvailableRevisions (mr_Status mr)) name st\<rparr>\<rparr>"

text \<open>\<^verbatim>\<open>rs.Status = st; r.updateRevisionStatus(ctx, modelRepo, rs)\<close>\<close>

definition mark_revision ::
  "'w reconciler \<Rightarrow> ModelRepository \<Rightarrow> RevisionStatus \<Rightarrow> string \<Rightarrow> ('w, ModelRepository \<times> go_error option) kio" where
  "mark_revision r mr rs st = do {
     e \<leftarrow> updateRevisionStatus r mr (rs\<lparr>rs_Status := st\<rparr>);
     ret (assign_revision mr (rs_Name rs) st, e) }"

text \<open>Whether a job is running, a result to return at once, an error.\<close>

type_synonym revision_out = "bool \<times> ctrl_result option \<times> go_error option"

text \<open>\<open>Inl\<close> is an error, \<open>Inr\<close> whether a cleanup job was found and deleted.\<close>

definition deleteStaleCleanupJob :: "'w reconciler \<Rightarrow> ModelRepository \<Rightarrow> string \<Rightarrow> ('w, (go_error + bool) option) kio" where
  "deleteStaleCleanupJob r mr revision =
     or_panic (generateJobName ''cleanup'' (mr_Name mr) revision) (\<lambda>cleanupJobName. do {
       g \<leftarrow> api_Get OnJob (cl_Job (r_Client r)) (operator_namespace r, cleanupJobName);
       case g of
         Inl err \<Rightarrow> if IsNotFound err then ret (Some (Inr False))
                    else ret (Some (Inl (wrap_error ''failed to check for cleanup job: '' err)))
       | Inr cleanupJob \<Rightarrow> do {
           e \<leftarrow> api_Delete OnJob (cl_Job (r_Client r)) (ObjectKeyFromObject (job_Meta cleanupJob)) True;
           case e of
             Some err \<Rightarrow> if IsNotFound err then ret (Some (Inr True))
               else ret (Some (Inl (wrap_error (''failed to delete stale cleanup job '' @ cleanupJobName @ '': '') err)))
           | None \<Rightarrow> ret (Some (Inr True)) } })"

definition createRevisionDownloadJob ::
  "assets \<Rightarrow> 'w reconciler \<Rightarrow> ModelRepository \<Rightarrow> StorageClassProvider \<Rightarrow> RevisionReference \<Rightarrow> (go_error + Job) option" where
  "createRevisionDownloadJob A r mr p revisionRef = do {
     jobName \<leftarrow> generateJobName ''download'' (mr_Name mr) (rref_Name revisionRef);
     case LoadModelRepositoryJobManifest A (src_Origin (mrs_Source (mr_Spec mr))) ''download_job'' of
       Inl err \<Rightarrow> Some (Inl (wrap_error ''failed to load download job manifest: '' err))
     | Inr job \<Rightarrow> do {
         adapted \<leftarrow> AdaptDownloadJob A
           \<lparr>jc_ModelRepo = mr, jc_Provider = p, jc_RevisionRef = Some revisionRef, jc_JobName = jobName,
            jc_Namespace = operator_namespace r, jc_CustomImage = mrs_DownloadImage (mr_Spec mr),
            jc_CustomScript = mrs_DownloadScripts (mr_Spec mr)\<rparr>
           (job\<lparr>job_Meta := (job_Meta job)\<lparr>om_Namespace := operator_namespace r\<rparr>\<rparr>);
         case adapted of
           Inl err \<Rightarrow> Some (Inl (wrap_error ''failed to adapt download job: '' err))
         | Inr job' \<Rightarrow> Some (Inr job') } }"

text \<open>Creating the job once its status entry exists.\<close>

definition submit_download_job ::
  "assets \<Rightarrow> 'w reconciler \<Rightarrow> ModelRepository \<Rightarrow> StorageClassProvider \<Rightarrow> RevisionReference \<Rightarrow> RevisionStatus \<Rightarrow>
   ('w, (ModelRepository \<times> revision_out) option) kio" where
  "submit_download_job A r mr p revRef rs =
     or_panic (createRevisionDownloadJob A r mr p revRef) (\<lambda>built.
       case built of
         Inl err \<Rightarrow> do {
           m \<leftarrow> mark_revision r mr rs DownloadPhaseFailed;
           ret (Some (fst m, False, None, Some err)) }
       | Inr job \<Rightarrow>
           (case lib_SetControllerReference (r_Lib r) (mr_Meta mr) (job_Meta job) of
              Inl err \<Rightarrow> ret (Some (mr, False, None, Some err))
            | Inr meta \<Rightarrow> do {
                e \<leftarrow> api_Create OnJob (cl_Job (r_Client r)) (job\<lparr>job_Meta := meta\<rparr>);
                case Option.bind e (\<lambda>err. if IsAlreadyExists err then None else Some err) of
                  Some err \<Rightarrow> do {
                    m \<leftarrow> mark_revision r mr rs DownloadPhaseFailed;
                    ret (Some (fst m, False, None, Some err)) }
                | None \<Rightarrow> do {
                    m \<leftarrow> mark_revision r mr rs DownloadPhaseDownloading;
                    ret (Some (fst m, True, None, None)) } }))"

definition createDownloadJob ::
  "assets \<Rightarrow> 'w reconciler \<Rightarrow> ModelRepository \<Rightarrow> StorageClassProvider \<Rightarrow> RevisionReference \<Rightarrow> RevisionStatus option \<Rightarrow>
   ('w, (ModelRepository \<times> revision_out) option) kio" where
  "createDownloadJob A r mr p revRef revStatus = do {
     d \<leftarrow> deleteStaleCleanupJob r mr (rref_Name revRef);
     or_panic d (\<lambda>d'. case d' of
       Inl err \<Rightarrow> ret (Some (mr, False, None, Some err))
     | Inr deleted \<Rightarrow>
         if deleted then ret (Some (mr, False, Some (after_seconds 5), None))
         else (case revStatus of
           Some rs \<Rightarrow> submit_download_job A r mr p revRef rs
         | None \<Rightarrow>
             (let rs = \<lparr>rs_Name = rref_Name revRef, rs_CommitHash = rref_Ref revRef, rs_Status = DownloadPhasePending\<rparr> in do {
                e \<leftarrow> updateRevisionStatus r mr rs;
                case e of
                  Some err \<Rightarrow> ret (Some (mr, False, None, Some err))
                | None \<Rightarrow> submit_download_job A r mr p revRef rs }))) }"

definition handleJobStatus ::
  "'w reconciler \<Rightarrow> ModelRepository \<Rightarrow> RevisionReference \<Rightarrow> RevisionStatus option \<Rightarrow> Job \<Rightarrow>
   ('w, (ModelRepository \<times> revision_out) option) kio" where
  "handleJobStatus r mr revRef revStatus job =
     (let rs = (case revStatus of Some rs \<Rightarrow> rs
                | None \<Rightarrow> \<lparr>rs_Name = rref_Name revRef, rs_CommitHash = rref_Ref revRef, rs_Status = []\<rparr>) in
      if job_Succeeded job > 0 then do {
        m \<leftarrow> mark_revision r mr rs DownloadPhaseReady;
        ret (Some (fst m, False, None, snd m)) }
      else if job_Failed job > 0 then do {
        m \<leftarrow> mark_revision r mr rs DownloadPhaseFailed;
        mr_setCondition r mr ModelRepoConditionReady ConditionFalse ModelRepoReasonDownloadFailed
          (''Download job failed for revision '' @ rref_Name revRef);
        ret (Some (fst m, False, Some (after_seconds 300), None)) }
      else if revStatus = None \<or> rs_Status rs \<noteq> DownloadPhaseDownloading then do {
        m \<leftarrow> mark_revision r mr rs DownloadPhaseDownloading;
        ret (Some (fst m, True, None, None)) }
      else ret (Some (mr, True, None, None)))"

definition reconcileRevision ::
  "assets \<Rightarrow> 'w reconciler \<Rightarrow> ModelRepository \<Rightarrow> StorageClassProvider \<Rightarrow> RevisionReference \<Rightarrow>
   ('w, (ModelRepository \<times> revision_out) option) kio" where
  "reconcileRevision A r mr p revRef =
     (let revStatus = findRevisionStatus mr (rref_Name revRef) in
      if (case revStatus of Some rs \<Rightarrow> rs_Status rs = DownloadPhaseReady | None \<Rightarrow> False)
      then ret (Some (mr, False, None, None))
      else or_panic (generateJobName ''download'' (mr_Name mr) (rref_Name revRef)) (\<lambda>jobName. do {
        g \<leftarrow> api_Get OnJob (cl_Job (r_Client r)) (operator_namespace r, jobName);
        case g of
          Inl err \<Rightarrow> if IsNotFound err then createDownloadJob A r mr p revRef revStatus
                     else ret (Some (mr, False, None, Some err))
        | Inr job \<Rightarrow> handleJobStatus r mr revRef revStatus job }))"

definition updateOverallPhase ::
  "'w reconciler \<Rightarrow> ModelRepository \<Rightarrow> RevisionReference list \<Rightarrow> bool \<Rightarrow> ('w, unit) kio" where
  "updateOverallPhase r mr desiredRevisions anyJobRunning =
     (if list_all (\<lambda>ref. case findRevisionStatus mr (rref_Name ref) of
            None \<Rightarrow> False | Some rs \<Rightarrow> rs_Status rs = DownloadPhaseReady) desiredRevisions
      then mr_setCondition r mr ModelRepoConditionReady ConditionTrue ModelRepoReasonAllRevisionsReady
             ''All revisions downloaded successfully''
      else if anyJobRunning
      then mr_setCondition r mr ModelRepoConditionReady ConditionFalse ModelRepoReasonDownloading ''Downloading revisions''
      else ret ())"

text \<open>The loop over the revisions; \<open>Inl\<close> is a result returned from within it.\<close>

fun reconcile_each ::
  "assets \<Rightarrow> 'w reconciler \<Rightarrow> ModelRepository \<Rightarrow> StorageClassProvider \<Rightarrow> RevisionReference list \<Rightarrow> bool \<Rightarrow>
   ('w, ((ctrl_result \<times> go_error option) + (ModelRepository \<times> bool)) option) kio" where
  "reconcile_each A r mr p [] anyJobRunning = ret (Some (Inr (mr, anyJobRunning)))"
| "reconcile_each A r mr p (revRef # revRefs) anyJobRunning = do {
     out \<leftarrow> reconcileRevision A r mr p revRef;
     or_panic out (\<lambda>(mr', running, result, err).
       case result of
         Some res \<Rightarrow> ret (Some (Inl (res, err)))
       | None \<Rightarrow> (case err of
           Some e \<Rightarrow> ret (Some (Inl (done_result, Some e)))
         | None \<Rightarrow> reconcile_each A r mr' (p\<lparr>prov_modelRepo := mr'\<rparr>) revRefs (anyJobRunning \<or> running))) }"

definition reconcileRevisions ::
  "assets \<Rightarrow> 'w reconciler \<Rightarrow> ModelRepository \<Rightarrow> StorageClassProvider \<Rightarrow> ('w, reconcile_out) kio" where
  "reconcileRevisions A r mr p =
     (let desiredRevisions = getDesiredRevisions mr in
      if desiredRevisions = [] then ret (Some (done_result, None))
      else do {
        out \<leftarrow> reconcile_each A r mr p desiredRevisions False;
        or_panic out (\<lambda>o'. case o' of
          Inl res \<Rightarrow> ret (Some res)
        | Inr (mr', anyJobRunning) \<Rightarrow> do {
            updateOverallPhase r mr' desiredRevisions anyJobRunning;
            ret (Some (if anyJobRunning then after_seconds 30 else done_result, None)) }) })"

section \<open>Model: storage, deletion, reconciliation\<close>

text \<open>\<open>Inl\<close> is a result to return at once, \<open>Inr\<close> the refreshed repository and provider.\<close>

definition reconcileStorage ::
  "'w reconciler \<Rightarrow> ModelRepository \<Rightarrow> StorageClassProvider \<Rightarrow>
   ('w, ((ctrl_result \<times> go_error option) + (ModelRepository \<times> StorageClassProvider)) option) kio" where
  "reconcileStorage r mr p =
     (case ValidateConfig (r_Lib r) p of
        Some err \<Rightarrow> do {
          mr_setCondition r mr ModelRepoConditionStorageReady ConditionFalse ModelRepoReasonValidationFailed
            (''Storage validation failed: '' @ err_text err);
          ret (Some (Inl (after_seconds 60, None))) }
      | None \<Rightarrow> do {
          created \<leftarrow> CreateStorage r p (operator_namespace r);
          or_panic created (\<lambda>c. case c of
            Some err \<Rightarrow> do {
              mr_setCondition r mr ModelRepoConditionStorageReady ConditionFalse ModelRepoReasonProvisionFailed
                (''Failed to provision storage: '' @ err_text err);
              ret (Some (Inl (after_seconds 60, None))) }
          | None \<Rightarrow> do {
              e \<leftarrow> updateStorageStatus r mr p;
              case e of
                Some err \<Rightarrow>
                  if \<not> IsShared p then ret (Some (Inl (after_seconds 10, None)))
                  else ret (Some (Inr (mr, p)))
              | None \<Rightarrow> do {
                  g \<leftarrow> api_Get OnRepo (cl_Repo (r_Client r)) (ObjectKeyFromObject (mr_Meta mr));
                  case g of
                    Inl err \<Rightarrow> ret (Some (Inl (done_result, Some err)))
                  | Inr mr' \<Rightarrow> do {
                      p' \<leftarrow> CreateProvider r mr';
                      case p' of
                        Inl err \<Rightarrow> ret (Some (Inl (after_seconds 60, None)))
                      | Inr provider \<Rightarrow> ret (Some (Inr (mr', provider))) } } }) })"

fun delete_jobs :: "'w reconciler \<Rightarrow> Job list \<Rightarrow> ('w, unit) kio" where
  "delete_jobs r [] = ret ()"
| "delete_jobs r (job # jobs) = do {
     _ \<leftarrow> api_Delete OnJob (cl_Job (r_Client r)) (ObjectKeyFromObject (job_Meta job)) True;
     delete_jobs r jobs }"

text \<open>Deletion's clean-up of jobs and claim; its failures are only logged.\<close>

definition clean_up_repository :: "'w reconciler \<Rightarrow> ModelRepository \<Rightarrow> StorageClassProvider option \<Rightarrow> ('w, unit) kio" where
  "clean_up_repository r mr provider = do {
     jobList \<leftarrow> api_List OnJob (cl_Job (r_Client r)) (Some (operator_namespace r)) [(RepositoryLabel, mr_Name mr)];
     (case jobList of Inr jobs \<Rightarrow> delete_jobs r jobs | Inl _ \<Rightarrow> ret ());
     (case provider of Some p \<Rightarrow> do { _ \<leftarrow> Cleanup r p (operator_namespace r); ret () } | None \<Rightarrow> ret ()) }"

definition mr_remove_finalizer :: "'w reconciler \<Rightarrow> ModelRepository \<Rightarrow> ('w, go_error option) kio" where
  "mr_remove_finalizer r mr = r_RetryOnConflict r (do {
     g \<leftarrow> api_Get OnRepo (cl_Repo (r_Client r)) (ObjectKeyFromObject (mr_Meta mr));
     case g of
       Inl err \<Rightarrow> ret (Some err)
     | Inr fresh \<Rightarrow> do {
         u \<leftarrow> api_Update OnRepo (cl_Repo (r_Client r))
                (fresh\<lparr>mr_Meta := (mr_Meta fresh)\<lparr>om_Finalizers :=
                   lib_RemoveFinalizer (r_Lib r) (om_Finalizers (mr_Meta fresh)) ModelRepositoryFinalizer\<rparr>\<rparr>);
         case u of Inl err \<Rightarrow> ret (Some err) | Inr _ \<Rightarrow> ret None } })"

definition blocked_message :: "LLMEngine list \<Rightarrow> string" where
  "blocked_message dependents = ''Cannot delete: still referenced by LLMEngines: '' @ show_strings (map le_Name dependents) @
     ''. Please delete the LLMEngines first or remove the modelRef.''"

definition mr_handleDeletion ::
  "'w reconciler \<Rightarrow> ModelRepository \<Rightarrow> StorageClassProvider option \<Rightarrow> ('w, go_error option) kio" where
  "mr_handleDeletion r mr provider = do {
     engines \<leftarrow> api_List OnEngine (cl_Engine (r_Client r)) None [];
     case engines of
       Inl err \<Rightarrow> ret (Some err)
     | Inr items \<Rightarrow>
         (let dependentEngines = filter (\<lambda>le. references le (mr_Name mr)) items;
              msg = blocked_message dependentEngines in
          if dependentEngines \<noteq> [] then do {
            mr_setCondition r mr ModelRepoConditionReady ConditionFalse ModelRepoReasonDeletionBlocked msg;
            ret (Some (new_error (''deletion blocked: '' @ msg))) }
          else do {
            clean_up_repository r mr provider;
            mr_remove_finalizer r mr }) }"

text \<open>A repository that is not being deleted: finalizer, storage, revisions.\<close>

definition mr_reconcile_live ::
  "assets \<Rightarrow> 'w reconciler \<Rightarrow> ModelRepository \<Rightarrow> StorageClassProvider \<Rightarrow> ('w, reconcile_out) kio" where
  "mr_reconcile_live A r mr provider = do {
     u \<leftarrow> (if lib_ContainsFinalizer (r_Lib r) (om_Finalizers (mr_Meta mr)) ModelRepositoryFinalizer
           then ret (Inr mr)
           else api_Update OnRepo (cl_Repo (r_Client r)) (mr\<lparr>mr_Meta := (mr_Meta mr)\<lparr>om_Finalizers :=
                  lib_AddFinalizer (r_Lib r) (om_Finalizers (mr_Meta mr)) ModelRepositoryFinalizer\<rparr>\<rparr>));
     case u of
       Inl err \<Rightarrow> ret (Some (done_result, Some err))
     | Inr mr1 \<Rightarrow> do {
         s \<leftarrow> reconcileStorage r mr1 (provider\<lparr>prov_modelRepo := mr1\<rparr>);
         or_panic s (\<lambda>s'. case s' of
           Inl res \<Rightarrow> ret (Some res)
         | Inr (mr2, p2) \<Rightarrow>
             if \<not> mrs_AutoDownload (mr_Spec mr2) then ret (Some (done_result, None))
             else reconcileRevisions A r mr2 p2) } }"

text \<open>What follows the first read.\<close>

definition mr_reconcile_found :: "assets \<Rightarrow> 'w reconciler \<Rightarrow> ModelRepository \<Rightarrow> ('w, reconcile_out) kio" where
  "mr_reconcile_found A r mr =
     (if mrs_ModelName (mr_Spec mr) = [] then do {
        u \<leftarrow> api_Update OnRepo (cl_Repo (r_Client r)) (mr\<lparr>mr_Spec := (mr_Spec mr)\<lparr>mrs_ModelName := mr_Name mr\<rparr>\<rparr>);
        case u of
          Inl err \<Rightarrow> ret (Some (done_result, Some err))
        | Inr _ \<Rightarrow> ret (Some (done_result\<lparr>Requeue := True\<rparr>, None)) }
      else do {
        cp \<leftarrow> CreateProvider r mr;
        case cp of
          Inl err \<Rightarrow>
            if om_DeletionTimestamp (mr_Meta mr) \<noteq> None then do {
              e \<leftarrow> mr_handleDeletion r mr None;
              ret (Some (done_result, e)) }
            else do {
              mr_setCondition r mr ModelRepoConditionReady ConditionFalse ModelRepoReasonStorageProviderFailed
                (''Failed to create storage provider: '' @ err_text err);
              ret (Some (after_seconds 60, None)) }
        | Inr provider \<Rightarrow>
            if om_DeletionTimestamp (mr_Meta mr) \<noteq> None then do {
              e \<leftarrow> mr_handleDeletion r mr (Some provider);
              ret (Some (done_result, e)) }
            else mr_reconcile_live A r mr provider })"

definition mr_Reconcile :: "assets \<Rightarrow> 'w reconciler \<Rightarrow> okey \<Rightarrow> ('w, reconcile_out) kio" where
  "mr_Reconcile A r req = do {
     g \<leftarrow> api_Get OnRepo (cl_Repo (r_Client r)) req;
     case g of
       Inl err \<Rightarrow> ret (Some (done_result, IgnoreNotFound err))
     | Inr mr \<Rightarrow> mr_reconcile_found A r mr }"

section \<open>The status keeps its phase\<close>

interpretation mr_status: phased_status mst_Conditions mst_Phase deriveModelRepoPhase mr_set_conditions
  by unfold_locales (simp_all add: mr_set_conditions_def deriveModelRepoPhase_def Let_def)

definition status_event :: "event \<Rightarrow> bool" where
  "status_event e = (case e of OnRepo (Get _ _) \<Rightarrow> True | OnRepo (StatusUpdate _ _) \<Rightarrow> True | _ \<Rightarrow> False)"

lemma status_event_simps [simp]:
  "status_event (OnRepo (Get k x))" "status_event (OnRepo (StatusUpdate y u))"
  by (simp_all add: status_event_def)

lemma all_events_mr_sync:
  assumes "retries_conflicts (r_RetryOnConflict r)"
    and "\<And>k x. P (OnRepo (Get k x))" "\<And>x u. P (OnRepo (StatusUpdate x u))"
  shows "all_events P (mr_syncStatus r mr f)"
  unfolding mr_syncStatus_def by (rule all_events_sync_status, rule assms(1), rule assms(2), rule assms(3))

lemma all_events_status [event_intros]:
  assumes "retries_conflicts (r_RetryOnConflict r)"
    and "\<And>k x. P (OnRepo (Get k x))" "\<And>x u. P (OnRepo (StatusUpdate x u))"
  shows "all_events P (mr_setCondition r mr t st reason msg)"
    and "all_events P (updateRevisionStatus r mr rs)"
    and "all_events P (mark_revision r mr rs' st')"
  unfolding mr_setCondition_def updateRevisionStatus_def mark_revision_def
  by (intro event_intros all_events_mr_sync; rule assms)+

lemma spec_status:
  assumes "retries_conflicts (r_RetryOnConflict r)"
  shows "spec (mr_setCondition r mr t st reason msg) (\<lambda>_ evs. list_all status_event evs)"
    and "spec (updateRevisionStatus r mr rs) (\<lambda>_ evs. list_all status_event evs)"
    and "spec (mark_revision r mr rs' st') (\<lambda>_ evs. list_all status_event evs)"
  by (intro all_events_spec all_events_status [OF assms] status_event_simps)+

text \<open>
  What can be an invariant of the statuses the reconciler writes: whatever its three mutations
  keep, recording a revision, recording the storage, and setting conditions.
\<close>

definition download_phases :: "string set" where
  "download_phases = {DownloadPhasePending, DownloadPhaseDownloading, DownloadPhaseReady, DownloadPhaseFailed}"

definition status_invariant :: "k8s_lib \<Rightarrow> (ModelRepositoryStatus \<Rightarrow> bool) \<Rightarrow> bool" where
  "status_invariant L I \<longleftrightarrow>
     (\<forall>s cs. I s \<longrightarrow> I (mr_set_conditions L cs s)) \<and>
     (\<forall>s st. I s \<longrightarrow> I (provisioned_status L st s)) \<and>
     (\<forall>s rs. I s \<longrightarrow> rs_Status rs \<in> download_phases \<longrightarrow>
        I (s\<lparr>mst_AvailableRevisions := upsert_revision (mst_AvailableRevisions s) rs\<rparr>))"

lemma status_invariantD:
  assumes "status_invariant L I"
  shows "I s \<Longrightarrow> I (mr_set_conditions L cs s)" and "I s \<Longrightarrow> I (provisioned_status L st s)"
    and "I s \<Longrightarrow> rs_Status rs \<in> download_phases \<Longrightarrow>
      I (s\<lparr>mst_AvailableRevisions := upsert_revision (mst_AvailableRevisions s) rs\<rparr>)"
  using assms by (auto simp: status_invariant_def)

lemma status_invariant_True [simp]: "status_invariant L (\<lambda>_. True)"
  by (simp add: status_invariant_def)

lemma download_phases_simps [simp]:
  "DownloadPhasePending \<in> download_phases" "DownloadPhaseDownloading \<in> download_phases"
  "DownloadPhaseReady \<in> download_phases" "DownloadPhaseFailed \<in> download_phases"
  by (simp_all add: download_phases_def)

lemma consistent_invariant:
  assumes "sets_conditions L"
  shows "status_invariant L (mr_status.consistent L)"
  unfolding status_invariant_def using assms
  by (intro conjI allI impI mr_status.consistent_set)
    (erule mr_status.consistent_unrelated; simp add: provisioned_status_def condition_def sets_conditionsD)+

text \<open>Reads and writes of repositories whose status satisfies an invariant.\<close>

definition repo_read_ok :: "(ModelRepositoryStatus \<Rightarrow> bool) \<Rightarrow> event \<Rightarrow> bool" where
  "repo_read_ok I e = (case e of OnRepo (Get k (Inr x)) \<Rightarrow> I (mr_Status x) | _ \<Rightarrow> True)"

definition repo_write_ok :: "(ModelRepositoryStatus \<Rightarrow> bool) \<Rightarrow> event \<Rightarrow> bool" where
  "repo_write_ok I e = (case e of OnRepo (StatusUpdate x u) \<Rightarrow> I (mr_Status x) | OnRepo (Create x e) \<Rightarrow> I (mr_Status x)
     | OnRepo (Apply x e) \<Rightarrow> I (mr_Status x) | _ \<Rightarrow> True)"

lemma guarded_mr_sync:
  assumes "retries_conflicts (r_RetryOnConflict r)" and "\<And>s. I s \<Longrightarrow> I (f s)"
  shows "guarded (repo_read_ok I) (repo_write_ok I) (mr_syncStatus r mr f)"
  unfolding mr_syncStatus_def
  by (rule guarded_sync_status [OF assms(1)]) (auto simp: repo_read_ok_def repo_write_ok_def intro: assms(2))

lemma repo_write_ok_other [simp]:
  "repo_write_ok I (OnRepo (Get k x))" "repo_write_ok I (OnRepo (Update y z))"
  "repo_write_ok I (OnPVC c)" "repo_write_ok I (OnPV c')" "repo_write_ok I (OnJob c'')"
  "repo_write_ok I (OnEngine c3)" "repo_write_ok I (OnStorageClass c4)"
  by (simp_all add: repo_write_ok_def)

lemma guarded_steps [guarded_intros]:
  assumes "retries_conflicts (r_RetryOnConflict r)" "status_invariant (r_Lib r) I"
  shows "guarded (repo_read_ok I) (repo_write_ok I) (mr_setCondition r mr t st reason msg)"
    and "rs_Status rs \<in> download_phases \<Longrightarrow> guarded (repo_read_ok I) (repo_write_ok I) (updateRevisionStatus r mr rs)"
    and "st' \<in> download_phases \<Longrightarrow> guarded (repo_read_ok I) (repo_write_ok I) (mark_revision r mr rs' st')"
    and "guarded (repo_read_ok I) (repo_write_ok I) (updateStorageStatus r mr p)"
    and "guarded (repo_read_ok I) (repo_write_ok I) (mr_remove_finalizer r mr)"
    and "guarded (repo_read_ok I) (repo_write_ok I) (CreateProvider r mr)"
    and "guarded (repo_read_ok I) (repo_write_ok I) (CreateStorage r p ns)"
    and "guarded (repo_read_ok I) (repo_write_ok I) (Cleanup r p ns)"
    and "guarded (repo_read_ok I) (repo_write_ok I) (deleteStaleCleanupJob r mr revision)"
    and "guarded (repo_read_ok I) (repo_write_ok I) (delete_jobs r jobs)"
proof -
  note sync = guarded_mr_sync [OF assms(1)] status_invariantD(1,2) [OF assms(2)]
  have upd: "guarded (repo_read_ok I) (repo_write_ok I) (updateRevisionStatus r mr x)" if "rs_Status x \<in> download_phases" for x
    unfolding updateRevisionStatus_def using that by (intro guarded_mr_sync [OF assms(1)] status_invariantD(3) [OF assms(2)])
  then show "guarded (repo_read_ok I) (repo_write_ok I) (updateRevisionStatus r mr rs)" if "rs_Status rs \<in> download_phases"
    using that .
  show "guarded (repo_read_ok I) (repo_write_ok I) (mr_setCondition r mr t st reason msg)"
    "guarded (repo_read_ok I) (repo_write_ok I) (updateStorageStatus r mr p)"
    unfolding mr_setCondition_def updateStorageStatus_def GetStorageStatus_def
    by (intro guarded_intros sync; assumption?; simp)+
  show "guarded (repo_read_ok I) (repo_write_ok I) (mark_revision r mr rs' st')"
    if "st' \<in> download_phases"
    unfolding mark_revision_def by (intro guarded_intros upd) (simp add: that)
  show "guarded (repo_read_ok I) (repo_write_ok I) (mr_remove_finalizer r mr)"
    unfolding mr_remove_finalizer_def
    by (rule guarded_all_events, rule all_events_retry [OF assms(1)]) (intro event_intros; simp)
  show "guarded (repo_read_ok I) (repo_write_ok I) (delete_jobs r jobs)"
    by (induction jobs) (auto intro!: guarded_intros)
  show "guarded (repo_read_ok I) (repo_write_ok I) (CreateProvider r mr)"
    unfolding CreateProvider_def SelectBestStorageClass_def DiscoverStorageClasses_def by (intro guarded_intros) simp_all
  show "guarded (repo_read_ok I) (repo_write_ok I) (CreateStorage r p ns)"
    unfolding CreateStorage_def by (intro guarded_intros) simp_all
  show "guarded (repo_read_ok I) (repo_write_ok I) (Cleanup r p ns)"
    unfolding Cleanup_def delete_claim_def by (intro guarded_intros) simp_all
  show "guarded (repo_read_ok I) (repo_write_ok I) (deleteStaleCleanupJob r mr revision)"
    unfolding deleteStaleCleanupJob_def by (intro guarded_intros) simp_all
qed

lemma guarded_reconciling [guarded_intros]:
  assumes "retries_conflicts (r_RetryOnConflict r)" "status_invariant (r_Lib r) I"
  shows "guarded (repo_read_ok I) (repo_write_ok I) (submit_download_job A r mr p ref rs)"
    and "guarded (repo_read_ok I) (repo_write_ok I) (handleJobStatus r mr ref rso job)"
    and "guarded (repo_read_ok I) (repo_write_ok I) (updateOverallPhase r mr refs b)"
    and "guarded (repo_read_ok I) (repo_write_ok I) (mr_handleDeletion r mr po)"
    and "guarded (repo_read_ok I) (repo_write_ok I) (reconcileStorage r mr p)"
  unfolding submit_download_job_def handleJobStatus_def updateOverallPhase_def mr_handleDeletion_def
    clean_up_repository_def reconcileStorage_def Let_def
  by (intro guarded_intros assms; simp)+

lemma guarded_createDownloadJob [guarded_intros]:
  assumes "retries_conflicts (r_RetryOnConflict r)" "status_invariant (r_Lib r) I"
  shows "guarded (repo_read_ok I) (repo_write_ok I) (createDownloadJob A r mr p ref rso)"
  unfolding createDownloadJob_def Let_def by (intro guarded_intros assms; simp)+

lemma guarded_reconcileRevision [guarded_intros]:
  assumes "retries_conflicts (r_RetryOnConflict r)" "status_invariant (r_Lib r) I"
  shows "guarded (repo_read_ok I) (repo_write_ok I) (reconcileRevision A r mr p ref)"
  unfolding reconcileRevision_def Let_def by (intro guarded_intros assms; simp)+

lemma guarded_reconcile_each [guarded_intros]:
  assumes "retries_conflicts (r_RetryOnConflict r)" "status_invariant (r_Lib r) I"
  shows "guarded (repo_read_ok I) (repo_write_ok I) (reconcile_each A r mr p refs b)"
proof (induction refs arbitrary: mr p b)
  case (Cons ref refs)
  show ?case unfolding reconcile_each.simps by (intro guarded_intros assms Cons.IH; simp)+
qed (simp add: guarded_return)

lemma guarded_reconcile_found [guarded_intros]:
  assumes "retries_conflicts (r_RetryOnConflict r)" "status_invariant (r_Lib r) I"
  shows "guarded (repo_read_ok I) (repo_write_ok I) (mr_reconcile_found A r mr)"
  unfolding mr_reconcile_found_def mr_reconcile_live_def reconcileRevisions_def Let_def
  by (intro guarded_intros assms; simp)+

lemma guarded_mr_Reconcile:
  assumes "retries_conflicts (r_RetryOnConflict r)" "status_invariant (r_Lib r) I"
  shows "guarded (repo_read_ok I) (repo_write_ok I) (mr_Reconcile A r req)"
  unfolding mr_Reconcile_def by (intro guarded_intros assms; simp)+

section \<open>Properties\<close>

text \<open>
  The phase of a ModelRepository always says what its conditions say: in every run of the
  reconciler, whatever the API server answers, every status it writes has the phase derived from
  its Ready condition, as long as the repositories it has read before have (or have none of both
  yet).
\<close>

lemma mr_Reconcile_keeps_phase:
  assumes "retries_conflicts (r_RetryOnConflict r)" and "sets_conditions (r_Lib r)"
  shows "guarded (repo_read_ok (mr_status.consistent (r_Lib r))) (repo_write_ok (mr_status.consistent (r_Lib r)))
    (mr_Reconcile A r req)"
  by (rule guarded_mr_Reconcile [OF assms(1) consistent_invariant [OF assms(2)]])

lemma mr_Reconcile_keeps_phase_witness:
  "guarded (repo_read_ok (mr_status.consistent mem_lib)) (repo_write_ok (mr_status.consistent mem_lib))
     (mr_Reconcile all_assets mem_reconciler ([], ''llama''))"
  using mr_Reconcile_keeps_phase [of mem_reconciler] by simp

text \<open>What the CRD admits: the phases of the kubebuilder enumeration, an empty phase being omitted.\<close>

definition schema_status :: "ModelRepositoryStatus \<Rightarrow> bool" where
  "schema_status s \<longleftrightarrow>
     (mst_Phase s = [] \<or> mst_Phase s \<in> insert ''Deprecated'' download_phases) \<and>
     list_all (\<lambda>rs. rs_Status rs \<in> insert ''Deprecated'' download_phases) (mst_AvailableRevisions s)"

lemma upsert_all: "list_all P xs \<Longrightarrow> P rs \<Longrightarrow> list_all P (upsert_revision xs rs)"
  by (induction xs) auto

lemma schema_invariant: "status_invariant L schema_status"
  by (auto simp: status_invariant_def schema_status_def provisioned_status_def mr_set_conditions_def
      deriveModelRepoPhase_def Let_def intro!: upsert_all split: option.split)

text \<open>
  (C31) Every status that the reconciler writes has the type its schema prescribes: if the phase and
  the status of every revision it reads are among the values the CRD enumerates, so are those of
  every status it writes, so the API server never rejects a write for an enumeration.
\<close>

theorem mr_Reconcile_schema:
  assumes "retries_conflicts (r_RetryOnConflict r)"
  shows "guarded (repo_read_ok schema_status) (repo_write_ok schema_status) (mr_Reconcile A r req)"
  by (rule guarded_mr_Reconcile [OF assms schema_invariant])

theorem mr_Reconcile_schema_witness:
  "guarded (repo_read_ok schema_status) (repo_write_ok schema_status) (mr_Reconcile all_assets mem_reconciler ([], ''llama''))"
  by (rule mr_Reconcile_schema) simp

definition repo_finalizer_event :: "ModelRepository \<Rightarrow> event \<Rightarrow> bool" where
  "repo_finalizer_event mr e = (case e of
     OnRepo (Get k _) \<Rightarrow> k = ObjectKeyFromObject (mr_Meta mr)
   | OnRepo (Update x _) \<Rightarrow> ModelRepositoryFinalizer \<notin> set (om_Finalizers (mr_Meta x))
   | _ \<Rightarrow> False)"

definition cleanup_event :: "event \<Rightarrow> bool" where
  "cleanup_event e = (case e of
     OnJob (ListOf _ _ _) \<Rightarrow> True | OnJob (Delete _ _ _) \<Rightarrow> True
   | OnPVC (Get _ _) \<Rightarrow> True | OnPVC (Update _ _) \<Rightarrow> True | OnPVC (Delete _ _ _) \<Rightarrow> True | _ \<Rightarrow> False)"

lemma all_events_Cleanup: "all_events cleanup_event (Cleanup r p ns)"
  unfolding Cleanup_def delete_claim_def by (intro event_intros) (simp_all add: cleanup_event_def)

lemma all_events_delete_jobs: "all_events cleanup_event (delete_jobs r jobs)"
  by (induction jobs) (auto intro!: event_intros simp: cleanup_event_def)

lemma all_events_clean_up: "all_events cleanup_event (clean_up_repository r mr p)"
  unfolding clean_up_repository_def
  by (intro event_intros all_events_Cleanup all_events_delete_jobs) (simp_all add: cleanup_event_def)

lemma all_events_remove_finalizer:
  assumes "retries_conflicts (r_RetryOnConflict r)" "manages_finalizers (r_Lib r)"
  shows "all_events (repo_finalizer_event mr) (mr_remove_finalizer r mr)"
  unfolding mr_remove_finalizer_def
  by (rule all_events_retry [OF assms(1)])
    (intro event_intros; use assms(2) in \<open>simp add: repo_finalizer_event_def manages_finalizers_def\<close>)

text \<open>The log of a deletion, by what the listing of the engines answered.\<close>

definition deletion_log :: "ModelRepository \<Rightarrow> go_error option \<Rightarrow> event list \<Rightarrow> bool" where
  "deletion_log mr res evs = (\<exists>ans rest. evs = OnEngine (ListOf None [] ans) # rest \<and>
     (case ans of
        Inl err \<Rightarrow> rest = [] \<and> res = Some err
      | Inr engines \<Rightarrow>
          if list_ex (\<lambda>le. references le (mr_Name mr)) engines
          then res \<noteq> None \<and> list_all status_event rest
          else \<exists>cleanup finalize. rest = cleanup @ finalize \<and> list_all cleanup_event cleanup \<and>
                 list_all (repo_finalizer_event mr) finalize))"

text \<open>
  (C1) A repository is deleted only when nobody uses it: deletion first asks for all engines. If
  the listing fails, or any engine in any namespace references the repository, the run ends in an
  error and touches no job, no claim and no finalizer, only the status. Otherwise jobs and claim
  are cleaned up first, and only then the repository's finalizer is taken off.
\<close>

theorem mr_handleDeletion_guards:
  assumes "retries_conflicts (r_RetryOnConflict r)" and "manages_finalizers (r_Lib r)"
  shows "spec (mr_handleDeletion r mr p) (\<lambda>res evs. deletion_log mr res evs)"
proof -
  have blocked: "filter (\<lambda>le. references le n) es \<noteq> [] \<longleftrightarrow> list_ex (\<lambda>le. references le n) es" for es n
    by (auto simp: filter_empty_conv list_ex_iff)
  show ?thesis
    unfolding mr_handleDeletion_def Let_def blocked deletion_log_def
    by (intro spec_intros spec_bind [OF spec_status(1) [OF assms(1)]]
          spec_bind [OF all_events_spec [OF all_events_clean_up]]
          spec_conseq [OF all_events_spec [OF all_events_remove_finalizer [OF assms]]])
      auto
qed

theorem mr_handleDeletion_guards_witness:
  "case run_state (mr_handleDeletion mem_reconciler sample_repo None)
      \<lparr>world = empty_cluster\<lparr>k_Engine := [((''team-a'', ''chat''), sample_engine)]\<rparr>, trace = []\<rparr> of
     (res, s) \<Rightarrow> deletion_log sample_repo res (trace s)"
proof -
  have "spec (mr_handleDeletion mem_reconciler sample_repo None) (\<lambda>res evs. deletion_log sample_repo res evs)"
    by (rule mr_handleDeletion_guards) simp_all
  from spec_run [OF this] show ?thesis by (auto split: prod.split)
qed

definition creates_nothing :: "event \<Rightarrow> bool" where
  "creates_nothing e = (case e of OnPVC (Create _ _) \<Rightarrow> False | OnJob (Create _ _) \<Rightarrow> False | _ \<Rightarrow> True)"

lemma all_events_handleDeletion:
  assumes "retries_conflicts (r_RetryOnConflict r)"
  shows "all_events creates_nothing (mr_handleDeletion r mr p)"
proof -
  have "all_events creates_nothing (mr_remove_finalizer r mr)"
    unfolding mr_remove_finalizer_def
    by (rule all_events_retry [OF assms]) (intro event_intros; simp add: creates_nothing_def)
  moreover have "all_events creates_nothing (clean_up_repository r mr p)"
    by (rule all_events_mono [OF all_events_clean_up])
      (auto simp: cleanup_event_def creates_nothing_def split: event.splits call.splits)
  ultimately show ?thesis
    unfolding mr_handleDeletion_def Let_def
    by (intro event_intros assms) (simp_all add: creates_nothing_def)
qed

definition deletion_creates_nothing :: "event list \<Rightarrow> bool" where
  "deletion_creates_nothing evs = (case evs of
     OnRepo (Get k (Inr mr)) # rest \<Rightarrow>
       (if om_DeletionTimestamp (mr_Meta mr) \<noteq> None then list_all creates_nothing rest else True)
   | _ \<Rightarrow> True)"

text \<open>
  A repository that is being deleted gets nothing new: if the first read answers a repository
  with a deletion timestamp, the rest of the run creates no claim and no job.
\<close>

lemma mr_Reconcile_deletion_creates_nothing:
  assumes "retries_conflicts (r_RetryOnConflict r)"
  shows "spec (mr_Reconcile A r req) (\<lambda>res evs. deletion_creates_nothing evs)"
proof -
  have "all_events creates_nothing (CreateProvider r mr)" for mr
    unfolding CreateProvider_def SelectBestStorageClass_def DiscoverStorageClasses_def
    by (intro event_intros) (simp_all add: creates_nothing_def)
  then have "all_events creates_nothing (mr_reconcile_found A r mr)" if "om_DeletionTimestamp (mr_Meta mr) \<noteq> None" for mr
    using that unfolding mr_reconcile_found_def
    by (auto intro!: event_intros all_events_handleDeletion [OF assms] simp: creates_nothing_def)
  then have "spec (mr_reconcile_found A r mr) (\<lambda>res evs. deletion_creates_nothing (OnRepo (Get req (Inr mr)) # evs))" for mr
    using spec_of_guarded [OF guarded_reconcile_found [OF assms status_invariant_True, of A mr]]
    by (cases "om_DeletionTimestamp (mr_Meta mr)") (auto simp: deletion_creates_nothing_def all_events_def)
  then show ?thesis
    unfolding mr_Reconcile_def by (intro spec_intros) (simp_all add: deletion_creates_nothing_def)
qed

definition deleted_repo :: ModelRepository where
  "deleted_repo = sample_repo\<lparr>mr_Meta := (mr_Meta sample_repo)\<lparr>om_DeletionTimestamp := Some 1,
     om_Finalizers := [ModelRepositoryFinalizer]\<rparr>\<rparr>"

lemma mr_Reconcile_deletion_creates_nothing_witness:
  "case run_state (mr_Reconcile all_assets mem_reconciler ([], ''llama''))
      \<lparr>world = empty_cluster\<lparr>k_Repo := [(([], ''llama''), deleted_repo)]\<rparr>, trace = []\<rparr> of
     (res, s) \<Rightarrow> deletion_creates_nothing (trace s)"
proof -
  have "spec (mr_Reconcile all_assets mem_reconciler ([], ''llama'')) (\<lambda>res evs. deletion_creates_nothing evs)"
    by (rule mr_Reconcile_deletion_creates_nothing) simp_all
  from spec_run [OF this] show ?thesis by (auto split: prod.split)
qed

subsection \<open>Jobs\<close>

definition job_free :: "event \<Rightarrow> bool" where
  "job_free e = (case e of OnJob _ \<Rightarrow> False | _ \<Rightarrow> True)"

lemma job_free_simps [simp]:
  "job_free (OnRepo c)" "job_free (OnPVC c')" "job_free (OnPV c'')" "\<not> job_free (OnJob c3)"
  by (simp_all add: job_free_def)

lemma spec_job_free:
  assumes "retries_conflicts (r_RetryOnConflict r)"
  shows "spec (mark_revision r mr rs st) (\<lambda>_ evs. list_all job_free evs)"
    and "spec (updateRevisionStatus r mr rs) (\<lambda>_ evs. list_all job_free evs)"
    and "spec (mr_setCondition r mr t cs reason msg) (\<lambda>_ evs. list_all job_free evs)"
  by (intro all_events_spec all_events_status [OF assms]; simp)+

text \<open>
  The jobs that a run of \<open>reconcileRevision\<close> touches, in order: the download job is looked up; if
  it was not found the cleanup job is looked up; if that was found it is deleted, and only if it
  was not found either is a job created, under the name that was looked up.
\<close>

definition job_calls :: "event list \<Rightarrow> event list" where
  "job_calls evs = filter (\<lambda>e. \<not> job_free e) evs"

definition job_protocol :: "okey \<Rightarrow> okey \<Rightarrow> event list \<Rightarrow> bool" where
  "job_protocol dl cl calls =
     (calls = [] \<or>
      (\<exists>a. calls = [OnJob (Get dl a)]) \<or>
      (\<exists>e1 a. IsNotFound e1 \<and> calls = [OnJob (Get dl (Inl e1)), OnJob (Get cl a)]) \<or>
      (\<exists>e1 job e. IsNotFound e1 \<and>
         calls = [OnJob (Get dl (Inl e1)), OnJob (Get cl (Inr job)), OnJob (Delete (ObjectKeyFromObject (job_Meta job)) True e)]) \<or>
      (\<exists>e1 e2 job e. IsNotFound e1 \<and> IsNotFound e2 \<and> ObjectKeyFromObject (job_Meta job) = dl \<and>
         calls = [OnJob (Get dl (Inl e1)), OnJob (Get cl (Inl e2)), OnJob (Create job e)]))"

lemma job_calls_simps [simp]:
  "job_calls [] = []" "job_calls (e # evs) = (if job_free e then job_calls evs else e # job_calls evs)"
  "job_calls (xs @ ys) = job_calls xs @ job_calls ys"
  by (simp_all add: job_calls_def)

lemma job_calls_free: "list_all job_free evs \<Longrightarrow> job_calls evs = []"
  by (induction evs) auto

lemma createRevisionDownloadJob_key:
  assumes "createRevisionDownloadJob A r mr p ref = Some (Inr job)"
  shows "\<exists>n. generateJobName ''download'' (mr_Name mr) (rref_Name ref) = Some n \<and>
    ObjectKeyFromObject (job_Meta job) = (operator_namespace r, n)"
proof -
  from assms obtain n ctx job0 where n: "generateJobName ''download'' (mr_Name mr) (rref_Name ref) = Some n"
    "jc_JobName ctx = n" "jc_Namespace ctx = operator_namespace r"
    "adaptModelRepositoryJob A ctx job0 ''download'' = Some (Inr job)"
  proof (cases "LoadModelRepositoryJobManifest A (src_Origin (mrs_Source (mr_Spec mr))) ''download_job''")
    case (Inr job1)
    let ?ctx = "\<lambda>n. \<lparr>jc_ModelRepo = mr, jc_Provider = p, jc_RevisionRef = Some ref, jc_JobName = n,
      jc_Namespace = operator_namespace r, jc_CustomImage = mrs_DownloadImage (mr_Spec mr),
      jc_CustomScript = mrs_DownloadScripts (mr_Spec mr)\<rparr>"
    from assms Inr obtain n adapted where "generateJobName ''download'' (mr_Name mr) (rref_Name ref) = Some n"
      "adaptModelRepositoryJob A (?ctx n) (job1\<lparr>job_Meta := (job_Meta job1)\<lparr>om_Namespace := operator_namespace r\<rparr>\<rparr>)
         ''download'' = Some adapted" "adapted = Inr job"
      by (auto simp: createRevisionDownloadJob_def AdaptDownloadJob_def bind_eq_Some_conv) (auto split: sum.split_asm)
    then show thesis by (intro that [of n "?ctx n"]) simp_all
  qed (use assms in \<open>simp add: createRevisionDownloadJob_def bind_eq_Some_conv\<close>)
  with adaptJob_fields(1,2) [OF n(4)] show ?thesis by (simp add: ObjectKeyFromObject_def)
qed

lemma spec_submit:
  assumes "retries_conflicts (r_RetryOnConflict r)" "sets_owner (r_Lib r)"
    and "generateJobName ''download'' (mr_Name mr) (rref_Name ref) = Some n"
  shows "spec (submit_download_job A r mr p ref rs) (\<lambda>res evs. job_calls evs = [] \<or>
    (\<exists>job e. ObjectKeyFromObject (job_Meta job) = (operator_namespace r, n) \<and> job_calls evs = [OnJob (Create job e)]))"
proof -
  have key: "ObjectKeyFromObject m = (operator_namespace r, n)"
    if "createRevisionDownloadJob A r mr p ref = Some (Inr job)"
      "lib_SetControllerReference (r_Lib r) (mr_Meta mr) (job_Meta job) = Inr m" for job m
  proof -
    from assms(2) that(2) have "m = (job_Meta job)\<lparr>om_OwnerReferences := om_OwnerReferences m\<rparr>"
      by (simp add: sets_owner_def)
    then have "ObjectKeyFromObject m = ObjectKeyFromObject (job_Meta job)"
      by (metis ObjectKeyFromObject_def ObjectMeta.select_convs(1,2) ObjectMeta.surjective ObjectMeta.update_convs(7))
    with createRevisionDownloadJob_key [OF that(1)] assms(3) show ?thesis by simp
  qed
  show ?thesis
    unfolding submit_download_job_def
    by (intro spec_intros spec_bind [OF spec_job_free(1) [OF assms(1)]])
      (simp_all add: job_calls_free, (use key in fastforce)+)
qed

lemma spec_handleJobStatus:
  assumes "retries_conflicts (r_RetryOnConflict r)"
  shows "spec (handleJobStatus r mr ref rso job) (\<lambda>res evs. list_all job_free evs)"
  unfolding handleJobStatus_def Let_def
  by (intro spec_intros spec_bind [OF spec_job_free(1) [OF assms]] spec_bind [OF spec_job_free(3) [OF assms]])
    simp_all

text \<open>
  (C5) A download job is created only when the API server has answered, in the same run, that
  neither it nor a cleanup job of the same revision exists; it is created under the name it was
  looked up by, and at most once. A revision that is already Ready causes no call at all.
\<close>

theorem reconcileRevision_job_protocol:
  assumes "retries_conflicts (r_RetryOnConflict r)" and "sets_owner (r_Lib r)"
    and "generateJobName ''download'' (mr_Name mr) (rref_Name ref) = Some dl"
    and "generateJobName ''cleanup'' (mr_Name mr) (rref_Name ref) = Some cl"
  shows "spec (reconcileRevision A r mr p ref) (\<lambda>res evs.
    job_protocol (operator_namespace r, dl) (operator_namespace r, cl) (job_calls evs) \<and>
    (case findRevisionStatus mr (rref_Name ref) of
       Some rs \<Rightarrow> if rs_Status rs = DownloadPhaseReady then evs = [] else evs \<noteq> []
     | None \<Rightarrow> evs \<noteq> []))"
  unfolding reconcileRevision_def createDownloadJob_def deleteStaleCleanupJob_def assms(3,4) Let_def
  by (intro spec_intros spec_conseq [OF spec_handleJobStatus [OF assms(1)]] spec_conseq [OF spec_submit [OF assms(1-3)]]
        spec_bind [OF spec_job_free(2) [OF assms(1)]])
    (auto simp: job_calls_free job_protocol_def split: option.splits)

definition main_revision :: RevisionReference where
  "main_revision = \<lparr>rref_Name = ''main'', rref_Ref = ''main''\<rparr>"

definition bound_provider :: StorageClassProvider where
  "bound_provider = NewStorageClassProvider bound_repo local_class"

lemma main_job_names:
  "generateJobName ''download'' (mr_Name bound_repo) (rref_Name main_revision) = Some ''download-llama-main''"
  "generateJobName ''cleanup'' (mr_Name bound_repo) (rref_Name main_revision) = Some ''cleanup-llama-main''"
  by code_simp+

theorem reconcileRevision_job_protocol_witness:
  "case run_state (reconcileRevision all_assets mem_reconciler bound_repo bound_provider main_revision)
      \<lparr>world = empty_cluster\<lparr>k_Repo := [(([], ''llama''), bound_repo)]\<rparr>, trace = []\<rparr> of
     (res, s) \<Rightarrow> job_protocol (''aitrigram-system'', ''download-llama-main'') (''aitrigram-system'', ''cleanup-llama-main'')
       (job_calls (trace s)) \<and> trace s \<noteq> []"
proof -
  have ns: "operator_namespace mem_reconciler = ''aitrigram-system''"
    by (simp add: operator_namespace_def mem_reconciler_def)
  have "findRevisionStatus bound_repo (rref_Name main_revision) = None"
    by (simp add: findRevisionStatus_def bound_repo_def sample_repo_def)
  then have "spec (reconcileRevision all_assets mem_reconciler bound_repo bound_provider main_revision) (\<lambda>res evs.
      job_protocol (''aitrigram-system'', ''download-llama-main'') (''aitrigram-system'', ''cleanup-llama-main'') (job_calls evs) \<and> evs \<noteq> [])"
    using reconcileRevision_job_protocol [OF _ _ main_job_names, of mem_reconciler all_assets bound_provider] ns by simp
  from spec_run [OF this] show ?thesis by (auto split: prod.split)
qed

subsection \<open>Storage before downloads\<close>

definition claim_bound :: "okey \<Rightarrow> event \<Rightarrow> bool" where
  "claim_bound k e = (case e of OnPVC (Get k' (Inr pvc)) \<Rightarrow> k' = k \<and> pvc_Phase pvc = ClaimBound \<and> pvc_VolumeName pvc \<noteq> [] | _ \<Rightarrow> False)"

lemma spec_updateStorageStatus:
  assumes "retries_conflicts (r_RetryOnConflict r)"
  shows "spec (updateStorageStatus r mr p) (\<lambda>res evs.
    res = None \<longrightarrow> list_ex (claim_bound (operator_namespace r, prov_pvcName p)) evs)"
proof -
  have "spec (mr_syncStatus r mr f) (\<lambda>res evs. True)" for f
    using all_events_mr_sync [OF assms, of "\<lambda>_. True"] unfolding all_events_def by (rule spec_conseq) auto
  then show ?thesis
    unfolding updateStorageStatus_def GetStorageStatus_def
    by (intro spec_intros) (auto simp: claim_bound_def)
qed

lemma CreateProvider_name:
  "spec (CreateProvider r mr) (\<lambda>res evs. \<forall>p. res = Inr p \<longrightarrow> prov_pvcName p = mr_Name mr @ ''-storage'' \<and> prov_modelRepo p = mr)"
  unfolding CreateProvider_def SelectBestStorageClass_def DiscoverStorageClasses_def
  by (intro spec_intros) (auto simp: NewStorageClassProvider_def)

text \<open>
  (C32) Node-bound storage is waited for: reconcileStorage lets the downloads begin only if the
  storage is shared, or if the API server has answered in this run that the repository's claim is
  bound to a volume. (A StorageClass that binds a claim only when a pod uses it therefore never
  lets them begin.)
\<close>

theorem reconcileStorage_waits_for_binding:
  assumes "retries_conflicts (r_RetryOnConflict r)"
  shows "spec (reconcileStorage r mr p) (\<lambda>res evs. case res of
      Some (Inr (mr', p')) \<Rightarrow> IsShared p \<or> list_ex (claim_bound (operator_namespace r, prov_pvcName p)) evs
    | _ \<Rightarrow> True)"
proof -
  note free = spec_of_guarded [OF guarded_steps(1) [OF assms status_invariant_True]] spec_of_guarded [OF guarded_steps(6) [OF assms status_invariant_True]]
    spec_of_guarded [OF guarded_steps(7) [OF assms status_invariant_True]]
  show ?thesis
    unfolding reconcileStorage_def
    by (intro spec_intros spec_bind [OF free(1)] spec_bind [OF free(2)] spec_bind [OF free(3)]
          spec_bind [OF spec_updateStorageStatus [OF assms]])
      auto
qed

theorem reconcileStorage_waits_for_binding_witness:
  "spec (reconcileStorage mem_reconciler bound_repo bound_provider) (\<lambda>res evs. case res of
      Some (Inr (mr', p')) \<Rightarrow> list_ex (claim_bound (''aitrigram-system'', ''llama-storage'')) evs
    | _ \<Rightarrow> True)"
proof -
  have "\<not> IsShared bound_provider" "prov_pvcName bound_provider = ''llama-storage''"
    "operator_namespace mem_reconciler = ''aitrigram-system''"
    by (simp_all add: IsShared_def bound_provider_def NewStorageClassProvider_def local_class_def bound_repo_def
        sample_repo_def operator_namespace_def mem_reconciler_def)
  then show ?thesis
    by (intro spec_conseq [OF reconcileStorage_waits_for_binding [of mem_reconciler bound_repo bound_provider]])
      (auto split: option.split sum.split)
qed

subsection \<open>The overall phase\<close>

definition all_ready :: "ModelRepository \<Rightarrow> RevisionReference list \<Rightarrow> bool" where
  "all_ready mr refs = list_all (\<lambda>ref. \<exists>rs. findRevisionStatus mr (rref_Name ref) = Some rs \<and> rs_Status rs = DownloadPhaseReady) refs"

definition writes_phase :: "okey \<Rightarrow> string \<Rightarrow> event \<Rightarrow> bool" where
  "writes_phase k ph e = (case e of OnRepo (Get k' _) \<Rightarrow> k' = k
     | OnRepo (StatusUpdate x _) \<Rightarrow> mst_Phase (mr_Status x) = ph | _ \<Rightarrow> False)"

lemma phase_of_set:
  assumes "sets_conditions L"
  shows "mst_Phase (mr_set_conditions L [condition ModelRepoConditionReady status reason msg] s) =
    (if status = ConditionTrue then DownloadPhaseReady
     else if reason = ModelRepoReasonDownloading then DownloadPhaseDownloading else DownloadPhaseFailed)"
  using assms by (simp add: mr_set_conditions_def deriveModelRepoPhase_def condition_def sets_conditionsD)

lemma setCondition_writes_phase:
  assumes "retries_conflicts (r_RetryOnConflict r)" "sets_conditions (r_Lib r)"
  shows "all_events (writes_phase (ObjectKeyFromObject (mr_Meta mr)) (if status = ConditionTrue then DownloadPhaseReady
     else if reason = ModelRepoReasonDownloading then DownloadPhaseDownloading else DownloadPhaseFailed))
    (mr_setCondition r mr ModelRepoConditionReady status reason msg)"
  unfolding mr_setCondition_def mr_syncStatus_def
  by (rule all_events_bind, rule all_events_sync_status [OF assms(1)])
    (simp_all add: writes_phase_def phase_of_set [OF assms(2)] all_events_return)

text \<open>
  The phase of a repository becomes Ready only when every desired revision is known to be
  Ready, it becomes Downloading only when some is not and a job is running, and otherwise the
  step makes no call.
\<close>

lemma updateOverallPhase_phase:
  assumes "retries_conflicts (r_RetryOnConflict r)" and "sets_conditions (r_Lib r)"
  shows "spec (updateOverallPhase r mr refs running) (\<lambda>_ evs.
    if all_ready mr refs then list_all (writes_phase (ObjectKeyFromObject (mr_Meta mr)) DownloadPhaseReady) evs
    else if running then list_all (writes_phase (ObjectKeyFromObject (mr_Meta mr)) DownloadPhaseDownloading) evs
    else evs = [])"
proof -
  have "all_ready mr refs = list_all (\<lambda>ref. case findRevisionStatus mr (rref_Name ref) of
      None \<Rightarrow> False | Some rs \<Rightarrow> rs_Status rs = DownloadPhaseReady) refs"
    unfolding all_ready_def by (rule list.pred_cong) (auto split: option.split)
  then show ?thesis
    unfolding updateOverallPhase_def
    using setCondition_writes_phase [OF assms, of mr ConditionTrue] setCondition_writes_phase [OF assms, of mr ConditionFalse ModelRepoReasonDownloading]
    by (auto simp: all_events_def spec_return)
qed

lemma updateOverallPhase_phase_witness:
  "spec (updateOverallPhase mem_reconciler bound_repo [main_revision] True) (\<lambda>_ evs.
     list_all (writes_phase ([], ''llama'') DownloadPhaseDownloading) evs)"
proof -
  have "\<not> all_ready bound_repo [main_revision]" "ObjectKeyFromObject (mr_Meta bound_repo) = ([], ''llama'')"
    by (simp_all add: all_ready_def findRevisionStatus_def bound_repo_def sample_repo_def ObjectKeyFromObject_def emptyMeta_def)
  with updateOverallPhase_phase [of mem_reconciler bound_repo "[main_revision]" True] show ?thesis by simp
qed

subsection \<open>Revisions\<close>

lemma find_upsert:
  "find (\<lambda>x. rs_Name x = n) (upsert_revision xs rs) =
     (if n = rs_Name rs then Some rs else find (\<lambda>x. rs_Name x = n) xs)"
  by (induction xs) auto

lemma upsert_names:
  "map rs_Name (upsert_revision xs rs) =
     (if rs_Name rs \<in> set (map rs_Name xs) then map rs_Name xs else map rs_Name xs @ [rs_Name rs])"
  by (induction xs) auto

text \<open>
  Recording a revision: afterwards exactly that revision has the new entry and every other is
  found as before, and a list without duplicate names stays without duplicates.
\<close>

lemma upsert_revision_correct:
  "find (\<lambda>x. rs_Name x = n) (upsert_revision xs rs) = (if n = rs_Name rs then Some rs else find (\<lambda>x. rs_Name x = n) xs) \<and>
   distinct (map rs_Name (upsert_revision xs rs)) = distinct (map rs_Name xs)"
  by (auto simp: find_upsert upsert_names)

definition revision_ready :: "string \<Rightarrow> ModelRepository \<Rightarrow> bool" where
  "revision_ready name x = (case findRevisionStatus x name of Some rs \<Rightarrow> rs_Status rs = DownloadPhaseReady | None \<Rightarrow> False)"

text \<open>The API server has answered that the revision is Ready: it was read so, or the write that makes it so was accepted.\<close>

definition says_ready :: "okey \<Rightarrow> string \<Rightarrow> event \<Rightarrow> bool" where
  "says_ready key name e = (case e of
     OnRepo (Get k (Inr x)) \<Rightarrow> k = key \<and> revision_ready name x
   | OnRepo (StatusUpdate x (Inr _)) \<Rightarrow> revision_ready name x
   | _ \<Rightarrow> False)"

lemma spec_mark_ready:
  assumes "retries_conflicts (r_RetryOnConflict r)" "compares_statuses (r_Lib r)"
  shows "spec (mark_revision r mr rs DownloadPhaseReady) (\<lambda>m evs. snd m = None \<longrightarrow>
    evs \<noteq> [] \<and> says_ready (ObjectKeyFromObject (mr_Meta mr)) (rs_Name rs) (last evs))"
proof -
  let ?f = "\<lambda>s. s\<lparr>mst_AvailableRevisions := upsert_revision (mst_AvailableRevisions s) (rs\<lparr>rs_Status := DownloadPhaseReady\<rparr>)\<rparr>"
  have f: "revision_ready (rs_Name rs) x" if "mr_Status x = ?f s" for x s
    using that by (simp add: revision_ready_def findRevisionStatus_def find_upsert)
  have "synced OnRepo (lib_RepoStatusEqual (r_Lib r)) mr_Status (\<lambda>st x. x\<lparr>mr_Status := st\<rparr>) key ?f e \<Longrightarrow>
      says_ready key (rs_Name rs) e" for key e
    using assms(2) f by (auto simp: synced_def says_ready_def compares_statuses_def)
  then show ?thesis
    unfolding mark_revision_def updateRevisionStatus_def mr_syncStatus_def
    by (intro spec_bind [OF spec_sync_status_done [OF assms(1)]] spec_return) auto
qed

definition job_succeeded :: "okey \<Rightarrow> event \<Rightarrow> bool" where
  "job_succeeded k e = (case e of OnJob (Get k' (Inr job)) \<Rightarrow> k' = k \<and> job_Succeeded job > 0 | _ \<Rightarrow> False)"

text \<open>
  (C14) Progress: when the lookup of a revision's download job answers that it succeeded, the run
  returns without waiting, and unless it reports an error, the API server has confirmed the
  revision as Ready by the end of it.
\<close>

theorem reconcileRevision_progress:
  assumes "retries_conflicts (r_RetryOnConflict r)" and "compares_statuses (r_Lib r)"
    and "generateJobName ''download'' (mr_Name mr) (rref_Name ref) = Some dl" and "\<not> revision_ready (rref_Name ref) mr"
  shows "spec (reconcileRevision A r mr p ref) (\<lambda>out evs. job_succeeded (operator_namespace r, dl) (hd evs) \<longrightarrow>
    (\<exists>mr' err. out = Some (mr', False, None, err) \<and>
       (err = None \<longrightarrow> says_ready (ObjectKeyFromObject (mr_Meta mr)) (rref_Name ref) (last evs))))"
proof -
  have nr: "\<not> (case findRevisionStatus mr (rref_Name ref) of Some rs \<Rightarrow> rs_Status rs = DownloadPhaseReady | None \<Rightarrow> False)"
    using assms(4) by (simp add: revision_ready_def)
  have name: "rs_Name rs = rref_Name ref" if "findRevisionStatus mr (rref_Name ref) = Some rs" for rs
    using that by (auto simp: findRevisionStatus_def find_Some_iff)
  have done': "spec (handleJobStatus r mr ref (findRevisionStatus mr (rref_Name ref)) job) (\<lambda>out evs.
      (\<exists>mr' err. out = Some (mr', False, None, err) \<and> (err = None \<longrightarrow> evs \<noteq> [] \<and>
         says_ready (ObjectKeyFromObject (mr_Meta mr)) (rref_Name ref) (last evs))))" if "job_Succeeded job > 0" for job
    unfolding handleJobStatus_def Let_def if_P [OF that]
    by (intro spec_bind [OF spec_mark_ready [OF assms(1,2)]] spec_return) (auto simp: name split: option.splits)
  have job: "spec (handleJobStatus r mr ref (findRevisionStatus mr (rref_Name ref)) job) (\<lambda>out evs.
      job_Succeeded job > 0 \<longrightarrow> (\<exists>mr' err. out = Some (mr', False, None, err) \<and> (err = None \<longrightarrow> evs \<noteq> [] \<and>
         says_ready (ObjectKeyFromObject (mr_Meta mr)) (rref_Name ref) (last evs))))" for job
  proof (cases "job_Succeeded job > 0")
    case True
    then show ?thesis by (intro spec_conseq [OF done']) auto
  next
    case False
    then show ?thesis
      by (intro spec_conseq [OF spec_of_guarded [OF guarded_reconciling(2) [OF assms(1) status_invariant_True]]]) auto
  qed
  show ?thesis
    unfolding reconcileRevision_def Let_def if_not_P [OF nr] assms(3)
    by (intro spec_intros spec_conseq [OF job]
          spec_conseq [OF spec_of_guarded [OF guarded_createDownloadJob [OF assms(1) status_invariant_True]]])
      (auto simp: job_succeeded_def)
qed

theorem reconcileRevision_progress_witness:
  "spec (reconcileRevision all_assets mem_reconciler bound_repo bound_provider main_revision) (\<lambda>out evs.
     if job_succeeded (''aitrigram-system'', ''download-llama-main'') (hd evs)
     then \<exists>mr' err. out = Some (mr', False, None, err) \<and> (if err = None then says_ready ([], ''llama'') ''main'' (last evs) else True)
     else True)"
proof -
  have facts: "operator_namespace mem_reconciler = ''aitrigram-system''" "\<not> revision_ready (rref_Name main_revision) bound_repo"
    "ObjectKeyFromObject (mr_Meta bound_repo) = ([], ''llama'')" "rref_Name main_revision = ''main''"
    by (simp_all add: operator_namespace_def mem_reconciler_def revision_ready_def findRevisionStatus_def bound_repo_def
        sample_repo_def main_revision_def ObjectKeyFromObject_def emptyMeta_def)
  have "spec (reconcileRevision all_assets mem_reconciler bound_repo bound_provider main_revision) (\<lambda>out evs.
      job_succeeded (operator_namespace mem_reconciler, ''download-llama-main'') (hd evs) \<longrightarrow>
      (\<exists>mr' err. out = Some (mr', False, None, err) \<and>
         (err = None \<longrightarrow> says_ready (ObjectKeyFromObject (mr_Meta bound_repo)) (rref_Name main_revision) (last evs))))"
    by (rule reconcileRevision_progress [OF _ _ main_job_names(1) facts(2)]) simp_all
  then show ?thesis by (rule spec_conseq) (auto simp: facts)
qed

definition job_failed :: "okey \<Rightarrow> event \<Rightarrow> bool" where
  "job_failed k e = (case e of OnJob (Get k' (Inr job)) \<Rightarrow> k' = k \<and> job_Succeeded job \<le> 0 \<and> job_Failed job > 0 | _ \<Rightarrow> False)"

definition not_ready :: "ModelRepository \<Rightarrow> string \<Rightarrow> bool" where
  "not_ready mr name = (case findRevisionStatus mr name of Some rs \<Rightarrow> rs_Status rs \<noteq> DownloadPhaseReady | None \<Rightarrow> True)"

lemma spec_failed_revision:
  assumes "retries_conflicts (r_RetryOnConflict r)"
    and "generateJobName ''download'' (mr_Name mr) (rref_Name ref) = Some dl" "not_ready mr (rref_Name ref)"
  shows "spec (reconcileRevision A r mr p ref) (\<lambda>out evs. evs \<noteq> [] \<and> (job_failed (operator_namespace r, dl) (hd evs) \<longrightarrow>
    (\<exists>mr'. out = Some (mr', False, Some (after_seconds 300), None)) \<and> job_calls evs = [hd evs]))"
proof -
  have nr: "\<not> (case findRevisionStatus mr (rref_Name ref) of Some rs \<Rightarrow> rs_Status rs = DownloadPhaseReady | None \<Rightarrow> False)"
    using assms(3) by (simp add: not_ready_def split: option.splits)
  have failed: "spec (handleJobStatus r mr ref rso job) (\<lambda>out evs.
      list_all job_free evs \<and> (job_Succeeded job \<le> 0 \<and> job_Failed job > 0 \<longrightarrow>
        (\<exists>mr'. out = Some (mr', False, Some (after_seconds 300), None))))" for rso job
    unfolding handleJobStatus_def Let_def
    by (intro spec_intros spec_bind [OF spec_job_free(1) [OF assms(1)]] spec_bind [OF spec_job_free(3) [OF assms(1)]])
      simp_all
  show ?thesis
    unfolding reconcileRevision_def Let_def if_not_P [OF nr] assms(2)
    by (intro spec_intros spec_conseq [OF failed]
          spec_conseq [OF spec_of_guarded [OF guarded_createDownloadJob [OF assms(1) status_invariant_True]]])
      (auto simp: job_failed_def job_calls_free)
qed

text \<open>
  (C33) One failed revision stops the others: when the lookup of a revision's job answers a failed
  job, the loop returns with a retry in five minutes and touches no job of any later revision of
  the list. The reconciler never removes a failed job, so the next run ends the same way.
\<close>

theorem failed_revision_blocks_rest:
  assumes "retries_conflicts (r_RetryOnConflict r)"
    and "generateJobName ''download'' (mr_Name mr) (rref_Name ref) = Some dl" and "not_ready mr (rref_Name ref)"
  shows "spec (reconcile_each A r mr p (ref # refs) running) (\<lambda>res evs.
    job_failed (operator_namespace r, dl) (hd evs) \<longrightarrow>
      res = Some (Inl (after_seconds 300, None)) \<and> job_calls evs = [hd evs])"
  unfolding reconcile_each.simps
proof (rule spec_bind [OF spec_failed_revision [OF assms, of A p]], elim conjE)
  fix out :: "(ModelRepository \<times> revision_out) option" and e1
  assume e1: "e1 \<noteq> []" and failed: "job_failed (operator_namespace r, dl) (hd e1) \<longrightarrow>
    (\<exists>mr'. out = Some (mr', False, Some (after_seconds 300), None)) \<and> job_calls e1 = [hd e1]"
  let ?R = "\<lambda>res e2. job_failed (operator_namespace r, dl) (hd (e1 @ e2)) \<longrightarrow>
      res = Some (Inl (after_seconds 300, None)) \<and> job_calls (e1 @ e2) = [hd (e1 @ e2)]"
  show "spec (or_panic out (\<lambda>(mr', running', result, err).
       case result of
         None \<Rightarrow> (case err of
             None \<Rightarrow> reconcile_each A r mr' (p\<lparr>prov_modelRepo := mr'\<rparr>) refs (running \<or> running')
           | Some e \<Rightarrow> ret (Some (Inl (done_result, Some e))))
       | Some res \<Rightarrow> ret (Some (Inl (res, err))))) ?R"
  proof (cases "job_failed (operator_namespace r, dl) (hd e1)")
    case True
    with failed e1 show ?thesis by (auto simp: spec_return)
  next
    case False
    with e1 show ?thesis
      by (intro spec_intros spec_conseq [OF spec_of_guarded [OF guarded_reconcile_each [OF assms(1) status_invariant_True]]]) auto
  qed
qed

theorem failed_revision_blocks_rest_witness:
  "spec (reconcile_each all_assets mem_reconciler bound_repo bound_provider [main_revision, \<lparr>rref_Name = ''v2'', rref_Ref = ''v2''\<rparr>] False)
     (\<lambda>res evs. if job_failed (''aitrigram-system'', ''download-llama-main'') (hd evs)
        then res = Some (Inl (after_seconds 300, None)) \<and> job_calls evs = [hd evs] else True)"
proof -
  have "operator_namespace mem_reconciler = ''aitrigram-system''" "not_ready bound_repo (rref_Name main_revision)"
    by (simp_all add: operator_namespace_def mem_reconciler_def not_ready_def findRevisionStatus_def bound_repo_def sample_repo_def)
  then show ?thesis
    using failed_revision_blocks_rest [OF _ main_job_names(1), of mem_reconciler all_assets bound_provider] by simp
qed

end
