(* ===== verification/LLMEngine_Controller.thy ===== *)
theory LLMEngine_Controller
  imports Status_Sync Engine_Storage Workload
begin

text \<open>
  \<^verbatim>\<open>internal/controller/llmengine_controller.go\<close>: the reconciler of LLMEngines. A result
  \<open>None\<close> is a panic (of a name, of \<^verbatim>\<open>resource.MustParse\<close>, of an index into an empty list of
  containers or ports, of a nil result in the map of claims).
\<close>

section \<open>Model: status\<close>

definition deriveLLMEnginePhase :: "k8s_lib \<Rightarrow> Condition list \<Rightarrow> string" where
  "deriveLLMEnginePhase L conditions =
     (case lib_FindStatusCondition L conditions LLMEngineConditionReady of
        None \<Rightarrow> ''Pending''
      | Some ready \<Rightarrow>
          if c_Status ready = ConditionTrue then ''Running''
          else if c_Reason ready = LLMEngineReasonDeploymentsCreated then ''Starting''
          else if c_Reason ready \<in> {LLMEngineReasonStoragePending, LLMEngineReasonWaitingForModels,
                 LLMEngineReasonNoModelsFound, LLMEngineReasonGPUNotAvailable} then ''Pending''
          else ''Error'')"

definition le_syncStatus :: "'w reconciler \<Rightarrow> LLMEngine \<Rightarrow> (LLMEngineStatus \<Rightarrow> LLMEngineStatus) \<Rightarrow> ('w, go_error option) kio" where
  "le_syncStatus r le mutate =
     sync_status OnEngine (cl_Engine (r_Client r)) (r_RetryOnConflict r) (lib_EngineStatusEqual (r_Lib r))
       le_Status (\<lambda>st x. x\<lparr>le_Status := st\<rparr>) (ObjectKeyFromObject (le_Meta le)) mutate"

text \<open>Setting conditions in order, then deriving the phase.\<close>

definition le_set_conditions :: "k8s_lib \<Rightarrow> Condition list \<Rightarrow> LLMEngineStatus \<Rightarrow> LLMEngineStatus" where
  "le_set_conditions L cs s =
     (let conds = foldl (lib_SetStatusCondition L) (lst_Conditions s) cs
      in s\<lparr>lst_Conditions := conds, lst_Phase := deriveLLMEnginePhase L conds\<rparr>)"

definition setNotReady :: "'w reconciler \<Rightarrow> LLMEngine \<Rightarrow> string \<Rightarrow> string \<Rightarrow> ('w, unit) kio" where
  "setNotReady r le reason message = do {
     _ \<leftarrow> le_syncStatus r le (le_set_conditions (r_Lib r) [condition LLMEngineConditionReady ConditionFalse reason message]);
     ret () }"

definition waiting_status :: "k8s_lib \<Rightarrow> string \<Rightarrow> LLMEngineStatus \<Rightarrow> LLMEngineStatus" where
  "waiting_status L msg = le_set_conditions L
     [condition LLMEngineConditionModelsAvailable ConditionFalse LLMEngineReasonWaitingForModels msg,
      condition LLMEngineConditionReady ConditionFalse LLMEngineReasonWaitingForModels msg]"

definition serving_status :: "k8s_lib \<Rightarrow> string list \<Rightarrow> nat \<Rightarrow> nat \<Rightarrow> LLMEngineStatus \<Rightarrow> LLMEngineStatus" where
  "serving_status L modelNames totalReady totalDeployments s =
     le_set_conditions L
       [condition LLMEngineConditionModelsAvailable ConditionTrue LLMEngineReasonModelsReady ''All referenced models are available'',
        (if totalReady = totalDeployments
         then condition LLMEngineConditionReady ConditionTrue LLMEngineReasonDeploymentsReady
                (''All '' @ show_nat totalDeployments @ '' model deployments ready'')
         else condition LLMEngineConditionReady ConditionFalse LLMEngineReasonDeploymentsCreated
                (show_nat totalReady @ ''/'' @ show_nat totalDeployments @ '' deployments ready''))]
       (s\<lparr>lst_ModelRepositories := modelNames\<rparr>)"

section \<open>Model: models and GPUs\<close>

fun fetch_each :: "'w reconciler \<Rightarrow> ModelReference list \<Rightarrow> ('w, go_error + ModelRepository list) kio" where
  "fetch_each r [] = ret (Inr [])"
| "fetch_each r (ref # refs) = do {
     g \<leftarrow> api_Get OnRepo (cl_Repo (r_Client r)) ([], mref_Name ref);
     case g of
       Inl err \<Rightarrow> ret (Inl (if IsNotFound err then new_error (''ModelRepository '' @ mref_Name ref @ '' not found'') else err))
     | Inr mr \<Rightarrow> do {
         rest \<leftarrow> fetch_each r refs;
         case rest of Inl err \<Rightarrow> ret (Inl err) | Inr mrs \<Rightarrow> ret (Inr (mr # mrs)) } }"

definition fetchModelRepositories :: "'w reconciler \<Rightarrow> LLMEngine \<Rightarrow> ('w, go_error + ModelRepository list) kio" where
  "fetchModelRepositories r le = fetch_each r (les_ModelRefs (le_Spec le))"

text \<open>The GPUs a node can allocate: nothing where the map has no entry or a zero quantity.\<close>

definition node_gpus :: "k8s_lib \<Rightarrow> Node \<Rightarrow> string \<Rightarrow> int option" where
  "node_gpus L node gpuType = (case map_of (node_Allocatable node) gpuType of
     None \<Rightarrow> None | Some q \<Rightarrow> if lib_IsZero L q then None else Some (lib_Value L q))"

definition selector_mismatch :: "Node \<Rightarrow> smap \<Rightarrow> (string \<times> string) option" where
  "selector_mismatch node sel = find (\<lambda>(k, v). smap_get (om_Labels (node_Meta node)) k \<noteq> v) sel"

definition gpu_type :: "GPUConfig \<Rightarrow> string" where
  "gpu_type g = (if gpu_Type g = [] then ''nvidia.com/gpu'' else gpu_Type g)"

definition gpu_count :: "GPUConfig \<Rightarrow> int" where
  "gpu_count g = (if gpu_Count g = 0 then 1 else gpu_Count g)"

definition check_required_node :: "k8s_lib \<Rightarrow> GPUConfig \<Rightarrow> string \<Rightarrow> Node \<Rightarrow> go_error option" where
  "check_required_node L g name node =
     (case node_gpus L node (gpu_type g) of
        None \<Rightarrow> Some (new_error (''required node '' @ name @ '' (due to storage constraints) does not have GPU resources of type '' @
          gpu_type g @ ''. Storage requires node affinity, but this node lacks GPUs. Either use ReadWriteMany storage or ensure the storage node has GPUs''))
      | Some available \<Rightarrow>
          if available < gpu_count g then
            Some (new_error (''required node '' @ name @ '' has only '' @ show_int available @ '' GPUs of type '' @ gpu_type g @
              '', but '' @ show_int (gpu_count g) @ '' requested. Storage requires node affinity to this node''))
          else (case selector_mismatch node (gpu_NodeSelector g) of
              Some (k, v) \<Rightarrow> Some (new_error (''required node '' @ name @ '' (due to storage) does not match GPU node selector '' @
                k @ ''='' @ v @ ''. Storage node binding conflicts with GPU requirements''))
            | None \<Rightarrow> None))"

definition show_smap :: "smap \<Rightarrow> string" where
  "show_smap m = ''map['' @ Join (map (\<lambda>k. k @ '':'' @ smap_get m k) (sort (map fst m))) '' '' @ '']''"

definition check_nodes :: "k8s_lib \<Rightarrow> GPUConfig \<Rightarrow> Node list \<Rightarrow> go_error option" where
  "check_nodes L g nodes =
     (let gpuNodes = filter (\<lambda>n. node_gpus L n (gpu_type g) \<noteq> None) nodes;
          suitableNodes = filter (\<lambda>n. selector_mismatch n (gpu_NodeSelector g) = None \<and>
            (case node_gpus L n (gpu_type g) of Some available \<Rightarrow> available \<ge> gpu_count g | None \<Rightarrow> False)) gpuNodes
      in if gpuNodes = [] then
           Some (new_error (''no nodes with GPU resources ('' @ gpu_type g @ '') found in cluster. Total nodes checked: '' @
             show_nat (length nodes)))
         else if suitableNodes = [] then
           Some (new_error (''found '' @ show_nat (length gpuNodes) @ '' GPU nodes ('' @
             show_strings (map (\<lambda>n. om_Name (node_Meta n)) gpuNodes) @ '') but none have sufficient resources (need '' @
             show_int (gpu_count g) @ '' GPUs of type '' @ gpu_type g @ '') or match node selector '' @ show_smap (gpu_NodeSelector g)))
         else None)"

definition validateGPUAvailability :: "'w reconciler \<Rightarrow> LLMEngine \<Rightarrow> string \<Rightarrow> ('w, go_error option) kio" where
  "validateGPUAvailability r le requiredNodeName =
     (case les_GPU (le_Spec le) of
        None \<Rightarrow> ret None
      | Some g \<Rightarrow>
          if \<not> gpu_Enabled g then ret None
          else if requiredNodeName \<noteq> [] then do {
            n \<leftarrow> api_Get OnNode (cl_Node (r_Client r)) ([], requiredNodeName);
            case n of
              Inl err \<Rightarrow> ret (Some (wrap_error (''failed to get required node '' @ requiredNodeName @ '': '') err))
            | Inr node \<Rightarrow> ret (check_required_node (r_Lib r) g requiredNodeName node) }
          else do {
            ns \<leftarrow> api_List OnNode (cl_Node (r_Client r)) None [];
            case ns of
              Inl err \<Rightarrow> ret (Some (wrap_error ''failed to list nodes: '' err))
            | Inr nodes \<Rightarrow> ret (check_nodes (r_Lib r) g nodes) })"

section \<open>Model: references\<close>

definition engine_key :: "LLMEngine \<Rightarrow> string" where
  "engine_key le = le_Namespace le @ ''/'' @ le_Name le"

text \<open>The map from repository to the set of its engines; a set is a list without duplicates.\<close>

definition track_reference :: "string \<Rightarrow> string list gomap \<Rightarrow> ModelReference \<Rightarrow> string list gomap" where
  "track_reference key m ref = (case map_of m (mref_Name ref) of
     None \<Rightarrow> m | Some es \<Rightarrow> map_set m (mref_Name ref) (List.insert key es))"

definition track_engine :: "string list gomap \<Rightarrow> LLMEngine \<Rightarrow> string list gomap" where
  "track_engine m le =
     (if om_DeletionTimestamp (le_Meta le) \<noteq> None then m
      else foldl (track_reference (engine_key le)) m (les_ModelRefs (le_Spec le)))"

definition reference_map :: "string list \<Rightarrow> LLMEngine list \<Rightarrow> string list gomap" where
  "reference_map names engines = foldl track_engine (foldl (\<lambda>m n. map_set m n []) [] names) engines"

definition referenced_by :: "string list gomap \<Rightarrow> string \<Rightarrow> string" where
  "referenced_by m repo = Join (sort (case map_of m repo of None \<Rightarrow> [] | Some es \<Rightarrow> es)) '',''"

definition write_references :: "'w reconciler \<Rightarrow> string \<Rightarrow> string \<Rightarrow> ('w, go_error option) kio" where
  "write_references r repo refs = r_RetryOnConflict r (do {
     g \<leftarrow> api_Get OnRepo (cl_Repo (r_Client r)) ([], repo);
     case g of
       Inl err \<Rightarrow> ret (IgnoreNotFound err)
     | Inr mr \<Rightarrow>
         if mst_ReferencedEngines (mr_Status mr) = refs then ret None
         else do {
           u \<leftarrow> api_StatusUpdate OnRepo (cl_Repo (r_Client r)) (mr\<lparr>mr_Status := (mr_Status mr)\<lparr>mst_ReferencedEngines := refs\<rparr>\<rparr>);
           case u of Inl err \<Rightarrow> ret (Some err) | Inr _ \<Rightarrow> ret None } })"

fun write_each :: "'w reconciler \<Rightarrow> string list gomap \<Rightarrow> string list \<Rightarrow> ('w, unit) kio" where
  "write_each r m [] = ret ()"
| "write_each r m (repo # repos) = do {
     _ \<leftarrow> write_references r repo (referenced_by m repo);
     write_each r m repos }"

definition updateReferencedEngines :: "'w reconciler \<Rightarrow> string list \<Rightarrow> ('w, unit) kio" where
  "updateReferencedEngines r names = do {
     l \<leftarrow> api_List OnEngine (cl_Engine (r_Client r)) None [];
     case l of
       Inl _ \<Rightarrow> ret ()
     | Inr engines \<Rightarrow> write_each r (reference_map names engines) names }"

text \<open>The inner loop over an engine's references stops at the first match.\<close>

fun match_reference :: "string \<Rightarrow> LLMEngine \<Rightarrow> ModelReference list \<Rightarrow> okey list \<Rightarrow> okey list" where
  "match_reference repo le [] requests = requests"
| "match_reference repo le (ref # refs) requests =
     (if mref_Name ref = repo then requests @ [(le_Namespace le, le_Name le)]
      else match_reference repo le refs requests)"

fun collect_requests :: "string \<Rightarrow> LLMEngine list \<Rightarrow> okey list \<Rightarrow> okey list" where
  "collect_requests repo [] requests = requests"
| "collect_requests repo (le # engines) requests =
     collect_requests repo engines (match_reference repo le (les_ModelRefs (le_Spec le)) requests)"

definition modelRepositoryToLLMEngine :: "'w reconciler \<Rightarrow> ModelRepository \<Rightarrow> ('w, okey list) kio" where
  "modelRepositoryToLLMEngine r mr = do {
     l \<leftarrow> api_List OnEngine (cl_Engine (r_Client r)) None [];
     case l of
       Inl _ \<Rightarrow> ret []
     | Inr engines \<Rightarrow> ret (collect_requests (mr_Name mr) engines []) }"

section \<open>Model: deletion\<close>

fun cleanup_each :: "'w reconciler \<Rightarrow> LLMEngine \<Rightarrow> ModelReference list \<Rightarrow> ('w, unit option) kio" where
  "cleanup_each r le [] = ret (Some ())"
| "cleanup_each r le (ref # refs) = do {
     e \<leftarrow> CleanupLLMEngineStorage r le (mref_Name ref);
     or_panic e (\<lambda>_. cleanup_each r le refs) }"

definition le_remove_finalizer :: "'w reconciler \<Rightarrow> LLMEngine \<Rightarrow> ('w, go_error option) kio" where
  "le_remove_finalizer r le = r_RetryOnConflict r (do {
     g \<leftarrow> api_Get OnEngine (cl_Engine (r_Client r)) (ObjectKeyFromObject (le_Meta le));
     case g of
       Inl err \<Rightarrow> ret (Some err)
     | Inr fresh \<Rightarrow> do {
         u \<leftarrow> api_Update OnEngine (cl_Engine (r_Client r)) (fresh\<lparr>le_Meta := (le_Meta fresh)\<lparr>om_Finalizers :=
                lib_RemoveFinalizer (r_Lib r) (om_Finalizers (le_Meta fresh)) LLMEngineFinalizer\<rparr>\<rparr>);
         case u of Inl err \<Rightarrow> ret (Some err) | Inr _ \<Rightarrow> ret None } })"

definition le_handleDeletion :: "'w reconciler \<Rightarrow> LLMEngine \<Rightarrow> ('w, go_error option option) kio" where
  "le_handleDeletion r le = do {
     c \<leftarrow> cleanup_each r le (les_ModelRefs (le_Spec le));
     or_panic c (\<lambda>_. do {
       updateReferencedEngines r (map mref_Name (les_ModelRefs (le_Spec le)));
       e \<leftarrow> le_remove_finalizer r le;
       ret (Some e) }) }"

section \<open>Model: reconciliation\<close>

text \<open>The node that the first node-bound model with a known node requires.\<close>

definition required_node :: "ModelRepository list \<Rightarrow> string" where
  "required_node mrs = (case find (\<lambda>mr. RequiresNodeAffinity mr \<and> GetBoundNodeName mr \<noteq> []) mrs of
     Some mr \<Rightarrow> GetBoundNodeName mr | None \<Rightarrow> [])"

text \<open>\<open>Inl\<close> is the model whose storage is not ready, with the error.\<close>

fun ensure_each ::
  "'w reconciler \<Rightarrow> LLMEngine \<Rightarrow> ModelRepository list \<Rightarrow> LLMEngineStorageResult gomap \<Rightarrow>
   ('w, ((ModelRepository \<times> go_error) + LLMEngineStorageResult gomap) option) kio" where
  "ensure_each r le [] m = ret (Some (Inr m))"
| "ensure_each r le (mr # mrs) m = do {
     e \<leftarrow> EnsureLLMEngineStorage r le mr;
     or_panic e (\<lambda>res. case res of
       Inl err \<Rightarrow> ret (Some (Inl (mr, err)))
     | Inr out \<Rightarrow> ensure_each r le mrs (map_set m (mr_Name mr) out)) }"

text \<open>The name under which the readiness of a deployment is looked up.\<close>

definition deployment_lookup_name :: "LLMEngine \<Rightarrow> ModelRepository \<Rightarrow> string" where
  "deployment_lookup_name le mr = le_Name le @ ''-'' @ mr_Name mr"

text \<open>One component per model; \<open>Inl\<close> is the model that failed, \<open>Inr\<close> the number of ready deployments.\<close>

fun serve_each ::
  "'w component_env \<Rightarrow> LLMEngine \<Rightarrow> LLMEngineStorageResult gomap \<Rightarrow> ModelRepository list \<Rightarrow> nat \<Rightarrow>
   ('w, ((ModelRepository \<times> go_error) + nat) option) kio" where
  "serve_each E le claims [] totalReady = ret (Some (Inr totalReady))"
| "serve_each E le claims (mr # mrs) totalReady =
     or_panic (NewModelComponent E le mr) (\<lambda>comp.
     or_panic (map_of claims (mr_Name mr)) (\<lambda>claim. do {
       out \<leftarrow> wl_Reconcile E comp \<lparr>ctx_LLMEngine = le, ctx_ModelRepo = mr, ctx_Namespace = le_Namespace le,
                ctx_ModelPVCName = lsr_PVCName claim\<rparr>;
       or_panic out (\<lambda>e. case e of
         Some err \<Rightarrow> ret (Some (Inl (mr, err)))
       | None \<Rightarrow> do {
           g \<leftarrow> api_Get OnDeployment (cl_Deployment (r_Client (ce_Reconciler E))) (le_Namespace le, deployment_lookup_name le mr);
           serve_each E le claims mrs
             (case g of Inr d \<Rightarrow> if dep_ReadyReplicas d > 0 then Suc totalReady else totalReady | Inl _ \<Rightarrow> totalReady) }) }))"

text \<open>Components, references and the final status, once every claim is ready.\<close>

definition serve_models ::
  "'w component_env \<Rightarrow> LLMEngine \<Rightarrow> ModelRepository list \<Rightarrow> LLMEngineStorageResult gomap \<Rightarrow> ('w, reconcile_out) kio" where
  "serve_models E le mrs claims = (let r = ce_Reconciler E in do {
     out \<leftarrow> serve_each E le claims mrs 0;
     or_panic out (\<lambda>o'. case o' of
       Inl (mr, err) \<Rightarrow> do {
         setNotReady r le LLMEngineReasonReconcileFailed (''Failed to reconcile model '' @ mr_Name mr @ '': '' @ err_text err);
         ret (Some (done_result, None)) }
     | Inr totalReady \<Rightarrow> do {
         updateReferencedEngines r (map mr_Name mrs);
         _ \<leftarrow> le_syncStatus r le (serving_status (r_Lib r) (map mr_Name mrs) totalReady (length mrs));
         ret (Some (done_result, None)) }) })"

text \<open>Storage, then the components, once models and GPUs are there.\<close>

definition prepare_and_serve :: "'w component_env \<Rightarrow> LLMEngine \<Rightarrow> ModelRepository list \<Rightarrow> ('w, reconcile_out) kio" where
  "prepare_and_serve E le mrs = (let r = ce_Reconciler E in do {
     s \<leftarrow> ensure_each r le mrs [];
     or_panic s (\<lambda>s'. case s' of
       Inl (mr, err) \<Rightarrow> do {
         setNotReady r le LLMEngineReasonStoragePending (''Preparing storage for model '' @ mr_Name mr @ '': '' @ err_text err);
         ret (Some (after_seconds 30, None)) }
     | Inr claims \<Rightarrow> serve_models E le mrs claims) })"

text \<open>The steps after the repositories were fetched.\<close>

definition reconcile_models :: "'w component_env \<Rightarrow> LLMEngine \<Rightarrow> ModelRepository list \<Rightarrow> ('w, reconcile_out) kio" where
  "reconcile_models E le mrs = (let r = ce_Reconciler E in
     if mrs = [] then do {
       setNotReady r le LLMEngineReasonNoModelsFound ''No ModelRepository resources found'';
       ret (Some (after_seconds 30, None)) }
     else case find (\<lambda>mr. mst_Phase (mr_Status mr) \<noteq> DownloadPhaseReady) mrs of
       Some mr \<Rightarrow> do {
         _ \<leftarrow> le_syncStatus r le (waiting_status (r_Lib r)
                (''Waiting for ModelRepository '' @ mr_Name mr @ '' (phase: '' @ mst_Phase (mr_Status mr) @ '')''));
         ret (Some (after_seconds 30, None)) }
     | None \<Rightarrow>
         if DetectGPURequest le then do {
           v \<leftarrow> validateGPUAvailability r le (required_node mrs);
           case v of
             Some err \<Rightarrow> do {
               setNotReady r le LLMEngineReasonGPUNotAvailable (err_text err);
               ret (Some (after_seconds 60, None)) }
           | None \<Rightarrow> prepare_and_serve E le mrs }
         else prepare_and_serve E le mrs)"

definition le_Reconcile :: "'w component_env \<Rightarrow> okey \<Rightarrow> ('w, reconcile_out) kio" where
  "le_Reconcile E req = (let r = ce_Reconciler E in do {
     g \<leftarrow> api_Get OnEngine (cl_Engine (r_Client r)) req;
     case g of
       Inl err \<Rightarrow> ret (Some (done_result, IgnoreNotFound err))
     | Inr le \<Rightarrow>
         if om_DeletionTimestamp (le_Meta le) \<noteq> None then do {
           d \<leftarrow> le_handleDeletion r le;
           or_panic d (\<lambda>e. ret (Some (done_result, e))) }
         else do {
           u \<leftarrow> (if lib_ContainsFinalizer (r_Lib r) (om_Finalizers (le_Meta le)) LLMEngineFinalizer then ret (Inr le)
                 else api_Update OnEngine (cl_Engine (r_Client r)) (le\<lparr>le_Meta := (le_Meta le)\<lparr>om_Finalizers :=
                        lib_AddFinalizer (r_Lib r) (om_Finalizers (le_Meta le)) LLMEngineFinalizer\<rparr>\<rparr>));
           case u of
             Inl err \<Rightarrow> ret (Some (done_result, Some err))
           | Inr le1 \<Rightarrow> do {
               f \<leftarrow> fetchModelRepositories r le1;
               case f of
                 Inl err \<Rightarrow> do {
                   setNotReady r le1 LLMEngineReasonModelRepositoryFetchFailed (err_text err);
                   ret (Some (done_result, None)) }
               | Inr mrs \<Rightarrow> reconcile_models E le1 mrs } } })"

section \<open>The status keeps its phase\<close>

interpretation le_status: phased_status lst_Conditions lst_Phase deriveLLMEnginePhase le_set_conditions
  by unfold_locales (simp_all add: le_set_conditions_def deriveLLMEnginePhase_def Let_def)

lemma serving_consistent: "le_status.consistent L (serving_status L names n m s)"
  by (simp add: serving_status_def le_status.consistent_set)

lemma waiting_consistent: "le_status.consistent L (waiting_status L msg s)"
  by (simp add: waiting_status_def le_status.consistent_set)

definition engine_write_ok :: "k8s_lib \<Rightarrow> event \<Rightarrow> bool" where
  "engine_write_ok L e = (let derived = (\<lambda>x. lst_Phase (le_Status x) = deriveLLMEnginePhase L (lst_Conditions (le_Status x))) in
     case e of OnEngine (StatusUpdate x u) \<Rightarrow> derived x | OnEngine (Create x e) \<Rightarrow> derived x
     | OnEngine (Apply x e) \<Rightarrow> derived x | _ \<Rightarrow> True)"

text \<open>The events by kind, for predicates that only look at some.\<close>

definition workload_event :: "event \<Rightarrow> bool" where
  "workload_event e = (case e of OnConfigMap _ \<Rightarrow> True | OnDeployment _ \<Rightarrow> True | OnService _ \<Rightarrow> True | _ \<Rightarrow> False)"

definition volume_event :: "event \<Rightarrow> bool" where
  "volume_event e = (case e of OnPV _ \<Rightarrow> True | OnPVC _ \<Rightarrow> True | _ \<Rightarrow> False)"

definition reference_event :: "event \<Rightarrow> bool" where
  "reference_event e = (case e of OnEngine (ListOf _ _ _) \<Rightarrow> True | OnRepo (Get _ _) \<Rightarrow> True
     | OnRepo (StatusUpdate _ _) \<Rightarrow> True | _ \<Rightarrow> False)"

lemma kind_simps [simp]:
  "workload_event (OnConfigMap c1)" "workload_event (OnDeployment c2)" "workload_event (OnService c3)"
  "volume_event (OnPV c4)" "volume_event (OnPVC c5)"
  "reference_event (OnEngine (ListOf ns ls ans))" "reference_event (OnRepo (Get k ans'))" "reference_event (OnRepo (StatusUpdate x u))"
  by (simp_all add: workload_event_def volume_event_def reference_event_def)

lemma all_events_own_and_apply: "all_events workload_event (own_and_apply E ctx a b obj)"
  unfolding own_and_apply_def serverSideApply_def api_Apply_object_def
  by (cases obj) (auto intro!: event_intros)

lemma all_events_manifests: "all_events workload_event (reconcileManifests E ctx ms)"
proof (induction ms)
  case (Cons m ms)
  show ?case
    by (cases m) (auto simp: reconcileManifest_def Let_def intro!: event_intros all_events_own_and_apply Cons.IH)
qed (simp add: all_events_return)

lemma all_events_wl_Reconcile: "all_events workload_event (wl_Reconcile E w ctx)"
  unfolding wl_Reconcile_def updateResources_def deleteResources_def reconcileDeployment_def reconcileService_def Let_def
  by (intro event_intros all_events_manifests all_events_own_and_apply) simp_all

lemma all_events_serve_each: "all_events workload_event (serve_each E le claims mrs n)"
proof (induction mrs arbitrary: n)
  case (Cons mr mrs)
  show ?case
    unfolding serve_each.simps by (intro event_intros all_events_wl_Reconcile Cons.IH) simp_all
qed (simp add: all_events_return)

lemma all_events_Ensure: "all_events volume_event (EnsureLLMEngineStorage r le mr)"
  unfolding EnsureLLMEngineStorage_def ensure_pv_def ensure_pvc_def Let_def by (intro event_intros) simp_all

lemma all_events_ensure_each: "all_events volume_event (ensure_each r le mrs m)"
proof (induction mrs arbitrary: m)
  case (Cons mr mrs)
  show ?case unfolding ensure_each.simps by (intro event_intros all_events_Ensure Cons.IH)
qed (simp add: all_events_return)

lemma all_events_cleanup_each: "all_events volume_event (cleanup_each r le refs)"
  by (induction refs)
    (auto simp: CleanupLLMEngineStorage_def release_pvc_def release_pv_def intro!: event_intros)

lemma all_events_updateReferences:
  assumes "retries_conflicts (r_RetryOnConflict r)"
  shows "all_events reference_event (updateReferencedEngines r names)"
proof -
  have one: "all_events reference_event (write_references r repo refs)" for repo refs
    unfolding write_references_def by (rule all_events_retry [OF assms]) (intro event_intros; simp)
  have "all_events reference_event (write_each r m repos)" for m repos
    by (induction repos) (auto intro!: event_intros one)
  then show ?thesis unfolding updateReferencedEngines_def by (intro event_intros) simp_all
qed

text \<open>Status writes of the reconciler, by the mutation.\<close>

lemma all_events_le_sync:
  assumes "retries_conflicts (r_RetryOnConflict r)"
    and "\<And>k x. P (OnEngine (Get k x))" "\<And>x u. P (OnEngine (StatusUpdate (x\<lparr>le_Status := f (le_Status x)\<rparr>) u))"
  shows "all_events P (le_syncStatus r le f)"
  unfolding le_syncStatus_def by (rule all_events_sync_status, rule assms(1), rule assms(2), rule assms(3))

lemma all_events_setNotReady:
  assumes "retries_conflicts (r_RetryOnConflict r)" and "\<And>k x. P (OnEngine (Get k x))"
    and "\<And>x s u. P (OnEngine (StatusUpdate (x\<lparr>le_Status := le_set_conditions (r_Lib r)
       [condition ''Ready'' ConditionFalse reason msg] s\<rparr>) u))"
  shows "all_events P (setNotReady r le reason msg)"
  unfolding setNotReady_def
  by (intro all_events_bind all_events_le_sync all_events_return; rule assms)

lemma write_ok_simps [simp]:
  "workload_event e \<Longrightarrow> engine_write_ok L e" "volume_event e \<Longrightarrow> engine_write_ok L e" "reference_event e \<Longrightarrow> engine_write_ok L e"
  "engine_write_ok L (OnEngine (Get k x))" "engine_write_ok L (OnEngine (Update y z))" "engine_write_ok L (OnRepo c)"
  "engine_write_ok L (OnNode c')"
  by (auto simp: engine_write_ok_def workload_event_def volume_event_def reference_event_def split: event.splits call.splits)

lemma phase_ok [simp]:
  "engine_write_ok L (OnEngine (StatusUpdate (x\<lparr>le_Status := le_set_conditions L cs st\<rparr>) u))"
  "engine_write_ok L (OnEngine (StatusUpdate (x\<lparr>le_Status := serving_status L names n m st\<rparr>) u))"
  "engine_write_ok L (OnEngine (StatusUpdate (x\<lparr>le_Status := waiting_status L msg st\<rparr>) u))"
  by (simp_all add: engine_write_ok_def serving_status_def waiting_status_def le_status.phase_set)

lemma all_events_fetch: "(\<And>k x. P (OnRepo (Get k x))) \<Longrightarrow> all_events P (fetch_each r refs)"
  by (induction refs) (auto intro!: event_intros)

lemma all_events_validate:
  "(\<And>c. P (OnNode c)) \<Longrightarrow> all_events P (validateGPUAvailability r le name)"
  unfolding validateGPUAvailability_def by (intro event_intros) simp_all

lemma all_events_le_remove_finalizer:
  assumes "retries_conflicts (r_RetryOnConflict r)"
    and "\<And>x. P (OnEngine (Get (ObjectKeyFromObject (le_Meta le)) x))" "\<And>x u. P (OnEngine (Update (x\<lparr>le_Meta := (le_Meta x)\<lparr>om_Finalizers :=
       lib_RemoveFinalizer (r_Lib r) (om_Finalizers (le_Meta x)) LLMEngineFinalizer\<rparr>\<rparr>) u))"
  shows "all_events P (le_remove_finalizer r le)"
  unfolding le_remove_finalizer_def by (rule all_events_retry [OF assms(1)]) (intro event_intros; rule assms)

lemma all_events_reconcile_steps:
  assumes "retries_conflicts (r_RetryOnConflict (ce_Reconciler E))"
    and "\<And>e. workload_event e \<Longrightarrow> P e" "\<And>e. volume_event e \<Longrightarrow> P e" "\<And>e. reference_event e \<Longrightarrow> P e"
    and "\<And>k x. P (OnEngine (Get k x))"
    and "\<And>x cs s u. P (OnEngine (StatusUpdate (x\<lparr>le_Status := le_set_conditions (r_Lib (ce_Reconciler E)) cs s\<rparr>) u))"
  shows "all_events P (prepare_and_serve E le mrs)"
  unfolding prepare_and_serve_def serve_models_def serving_status_def Let_def
  by (intro event_intros all_events_setNotReady all_events_le_sync all_events_mono [OF all_events_serve_each]
        all_events_mono [OF all_events_ensure_each] all_events_mono [OF all_events_updateReferences [OF assms(1)]])
    (simp_all add: assms)

lemma spec_of_prepare:
  assumes "retries_conflicts (r_RetryOnConflict (ce_Reconciler E))"
  shows "spec (prepare_and_serve E le mrs) (\<lambda>_ _. True)"
proof -
  have "all_events (\<lambda>_. True) (prepare_and_serve E le mrs)"
    by (rule all_events_reconcile_steps [OF assms]) simp_all
  then show ?thesis unfolding all_events_def by (rule spec_conseq) simp
qed

lemma all_events_reconcile_models:
  assumes "retries_conflicts (r_RetryOnConflict (ce_Reconciler E))"
  shows "all_events (engine_write_ok (r_Lib (ce_Reconciler E))) (reconcile_models E le mrs)"
  unfolding reconcile_models_def Let_def
  by (intro event_intros all_events_setNotReady all_events_le_sync all_events_validate all_events_reconcile_steps)
    (simp_all add: assms)

definition running_write :: "event \<Rightarrow> bool" where
  "running_write e = (case e of OnEngine (StatusUpdate x _) \<Rightarrow> lst_Phase (le_Status x) = ''Running'' | _ \<Rightarrow> False)"

text \<open>What provisions something for an engine.\<close>

fun provisions :: "event \<Rightarrow> bool" where
  "provisions (OnPV (Create _ _)) = True"
| "provisions (OnPVC (Create _ _)) = True"
| "provisions (OnConfigMap (Apply _ _)) = True"
| "provisions (OnDeployment (Apply _ _)) = True"
| "provisions (OnService (Apply _ _)) = True"
| "provisions _ = False"

section \<open>Runs on the sample cluster\<close>

text \<open>
  A cluster in which the sample engine, asking for two GPUs, has all it needs, and the run of the
  reconciler over its models step by step: each step is evaluated on the state that the one before
  it has left. The second run is against a server that rejects the deployment.
\<close>

definition gpu_config :: GPUConfig where
  "gpu_config = \<lparr>gpu_Enabled = True, gpu_Count = 2, gpu_Type = [], gpu_NodeSelector = [(''zone'', ''a'')], gpu_Tolerations = []\<rparr>"

definition zoned_engine :: LLMEngine where
  "zoned_engine = sample_engine\<lparr>le_Spec := (le_Spec sample_engine)\<lparr>les_GPU := Some gpu_config\<rparr>\<rparr>"

definition gpu_node :: "string \<Rightarrow> string \<Rightarrow> Node" where
  "gpu_node zone gpus = \<lparr>node_Meta = emptyMeta\<lparr>om_Name := ''n1'', om_Labels := [(''zone'', zone)]\<rparr>,
     node_Allocatable = [(''nvidia.com/gpu'', gpus)]\<rparr>"

definition ready_repo :: ModelRepository where
  "ready_repo = sample_repo\<lparr>mr_Status := (mr_Status sample_repo)\<lparr>mst_Phase := DownloadPhaseReady,
     mst_Storage := Some (sample_status\<lparr>ss_BackendRef := Some longhorn_backend\<rparr>)\<rparr>\<rparr>"

definition ready_cluster :: cluster where
  "ready_cluster = empty_cluster\<lparr>
     k_Repo := [(([], ''llama''), ready_repo)], k_Engine := [((''team-a'', ''chat''), zoned_engine)],
     k_PV := [(([], ''le-chat-llama''), engine_pv mem_lib zoned_engine ''llama'' ''le-chat-llama'' ''le-chat-llama''
        \<lparr>pv_Capacity = ''10Gi'', pv_AccessModes = [ReadOnlyMany], pv_VolumeMode = Some ''Filesystem'', pv_Source = longhorn_source,
          pv_ClaimRef = None, pv_ReclaimPolicy = [], pv_NodeAffinity = None\<rparr>)],
     k_PVC := [((''team-a'', ''le-chat-llama''),
        (engine_pvc mem_lib zoned_engine ''llama'' ''le-chat-llama'' ''le-chat-llama'' ''10Gi'')\<lparr>pvc_Phase := ClaimBound\<rparr>)],
     k_Deployment := [((''team-a'', ''chat-llama''), sample_template\<lparr>dep_Meta := emptyMeta\<lparr>om_Name := ''chat-llama'', om_Namespace := ''team-a''\<rparr>,
        dep_ReadyReplicas := 1\<rparr>)],
     k_Node := [(([], ''n1''), gpu_node ''a'' ''4'')]\<rparr>"

definition sample_claim :: LLMEngineStorageResult where
  "sample_claim = \<lparr>lsr_PVCName = ''le-chat-llama'', lsr_MountPath = ''/data/models''\<rparr>"

definition zoned_context :: LLMEngineContext where
  "zoned_context = \<lparr>ctx_LLMEngine = zoned_engine, ctx_ModelRepo = ready_repo, ctx_Namespace = ''team-a'',
     ctx_ModelPVCName = ''le-chat-llama''\<rparr>"

definition strict_env :: "cluster component_env" where
  "strict_env = sample_env\<lparr>ce_Reconciler := strict_reconciler\<rparr>"

definition zoned_component :: "cluster component_env \<Rightarrow> llmEngineWorkload" where
  "zoned_component E = the (NewModelComponent E zoned_engine ready_repo)"

definition before_run :: "(cluster, event) sys" where
  "before_run = \<lparr>world = ready_cluster, trace = []\<rparr>"

definition admitted :: "cluster component_env \<Rightarrow> (cluster, event) sys" where
  "admitted E = snd (run_state (validateGPUAvailability (ce_Reconciler E) zoned_engine []) before_run)"

definition mounted :: "cluster component_env \<Rightarrow> (cluster, event) sys" where
  "mounted E = snd (run_state (EnsureLLMEngineStorage (ce_Reconciler E) zoned_engine ready_repo) (admitted E))"

definition applied :: "cluster component_env \<Rightarrow> (cluster, event) sys" where
  "applied E = snd (run_state (wl_Reconcile E (zoned_component E) zoned_context) (mounted E))"

definition looked_up :: "(cluster, event) sys" where
  "looked_up = snd (run_state (api_Get OnDeployment (cl_Deployment mem_client) (''team-a'', ''chat-llama'')) (applied sample_env))"

definition told :: "(cluster, event) sys" where
  "told = snd (run_state (updateReferencedEngines mem_reconciler [''llama'']) looked_up)"

definition running :: "(cluster, event) sys" where
  "running = snd (run_state (le_syncStatus mem_reconciler zoned_engine (serving_status mem_lib [''llama''] (Suc 0) (Suc 0))) told)"

lemma trace_before_run [simp]: "trace before_run = []"
  by (simp add: before_run_def)

lemma runI: "fst (run_state m s) = x \<Longrightarrow> s' = snd (run_state m s) \<Longrightarrow> run_state m s = (x, s')"
  by auto

lemma zoned_facts:
  "find (\<lambda>mr. mst_Phase (mr_Status mr) \<noteq> DownloadPhaseReady) [ready_repo] = None" "DetectGPURequest zoned_engine"
  "required_node [ready_repo] = []" "mr_Name ready_repo = ''llama''" "le_Namespace zoned_engine = ''team-a''"
  "deployment_lookup_name zoned_engine ready_repo = ''chat-llama''" "lsr_PVCName sample_claim = ''le-chat-llama''"
  by code_simp+

lemma zoned_components:
  "NewModelComponent sample_env zoned_engine ready_repo = Some (zoned_component sample_env)"
  "NewModelComponent strict_env zoned_engine ready_repo = Some (zoned_component strict_env)"
proof -
  have "ComponentName (le_Name zoned_engine) (mr_Name ready_repo) = Some ''chat-llama''" by code_simp
  then show "NewModelComponent sample_env zoned_engine ready_repo = Some (zoned_component sample_env)"
    "NewModelComponent strict_env zoned_engine ready_repo = Some (zoned_component strict_env)"
    by (simp_all add: zoned_component_def NewModelComponent_def Let_def)
qed

text \<open>One model, every step of which succeeds.\<close>

lemma prepare_and_serve_run:
  assumes "NewModelComponent E le mr = Some w"
    and "run_state (EnsureLLMEngineStorage (ce_Reconciler E) le mr) s0 = (Some (Inr claim), s1)"
    and "run_state (wl_Reconcile E w \<lparr>ctx_LLMEngine = le, ctx_ModelRepo = mr, ctx_Namespace = le_Namespace le,
      ctx_ModelPVCName = lsr_PVCName claim\<rparr>) s1 = (Some None, s2)"
    and "run_state (api_Get OnDeployment (cl_Deployment (r_Client (ce_Reconciler E)))
      (le_Namespace le, deployment_lookup_name le mr)) s2 = (Inr d, s3)" and "dep_ReadyReplicas d > 0"
    and "run_state (updateReferencedEngines (ce_Reconciler E) [mr_Name mr]) s3 = ((), s4)"
    and "run_state (le_syncStatus (ce_Reconciler E) le (serving_status (r_Lib (ce_Reconciler E)) [mr_Name mr] (Suc 0) (Suc 0))) s4 = (None, s5)"
  shows "run_state (prepare_and_serve E le [mr]) s0 = (Some (done_result, None), s5)"
  using assms by (simp add: prepare_and_serve_def serve_models_def map_set_def Let_def)

lemma sample_steps:
  "run_state (validateGPUAvailability mem_reconciler zoned_engine []) before_run = (None, admitted sample_env)"
  "run_state (EnsureLLMEngineStorage mem_reconciler zoned_engine ready_repo) (admitted sample_env) = (Some (Inr sample_claim), mounted sample_env)"
  "run_state (wl_Reconcile sample_env (zoned_component sample_env) zoned_context) (mounted sample_env) = (Some None, applied sample_env)"
  "run_state (updateReferencedEngines mem_reconciler [''llama'']) looked_up = ((), told)"
  "run_state (le_syncStatus mem_reconciler zoned_engine (serving_status mem_lib [''llama''] (Suc 0) (Suc 0))) told = (None, running)"
  by (rule runI, code_simp, simp add: admitted_def mounted_def applied_def told_def running_def sample_env_def)+

lemma sample_lookup:
  "\<exists>d. run_state (api_Get OnDeployment (cl_Deployment mem_client) (''team-a'', ''chat-llama'')) (applied sample_env) = (Inr d, looked_up) \<and>
     dep_ReadyReplicas d > 0"
proof -
  let ?get = "run_state (api_Get OnDeployment (cl_Deployment mem_client) (''team-a'', ''chat-llama'')) (applied sample_env)"
  have "case fst ?get of Inr d \<Rightarrow> dep_ReadyReplicas d > 0 | _ \<Rightarrow> False" by code_simp
  then obtain d where "fst ?get = Inr d" "dep_ReadyReplicas d > 0" by (auto split: sum.splits)
  with runI [OF this(1) looked_up_def] show ?thesis by blast
qed

lemma sample_run:
  "run_state (reconcile_models sample_env zoned_engine [ready_repo]) before_run = (Some (done_result, None), running)"
proof -
  have env: "ce_Reconciler sample_env = mem_reconciler" "r_Client mem_reconciler = mem_client"
    by (simp_all add: sample_env_def mem_reconciler_def)
  obtain d where "run_state (api_Get OnDeployment (cl_Deployment mem_client) (''team-a'', ''chat-llama'')) (applied sample_env) = (Inr d, looked_up)"
    "dep_ReadyReplicas d > 0" using sample_lookup by blast
  with sample_steps zoned_components(1)
  have "run_state (prepare_and_serve sample_env zoned_engine [ready_repo]) (admitted sample_env) = (Some (done_result, None), running)"
    by (intro prepare_and_serve_run [where claim = sample_claim]) (simp_all add: env zoned_facts zoned_context_def)
  then show ?thesis
    by (simp add: reconcile_models_def zoned_facts env sample_steps(1) Let_def del: find.simps)
qed

lemma sample_log: "list_ex running_write (trace running)" "list_ex provisions (trace running)"
  by code_simp+

text \<open>The rejected deployment ends the run after the ConfigMap.\<close>

lemma strict_steps:
  "run_state (validateGPUAvailability strict_reconciler zoned_engine []) before_run = (None, admitted strict_env)"
  "run_state (EnsureLLMEngineStorage strict_reconciler zoned_engine ready_repo) (admitted strict_env) = (Some (Inr sample_claim), mounted strict_env)"
  by (rule runI, code_simp, simp add: admitted_def mounted_def strict_env_def)+

lemma strict_component:
  "\<exists>err. run_state (wl_Reconcile strict_env (zoned_component strict_env) zoned_context) (mounted strict_env) = (Some (Some err), applied strict_env)"
proof -
  let ?run = "run_state (wl_Reconcile strict_env (zoned_component strict_env) zoned_context) (mounted strict_env)"
  have "case fst ?run of Some (Some err) \<Rightarrow> True | _ \<Rightarrow> False" by code_simp
  then obtain err where "fst ?run = Some (Some err)" by (auto split: option.splits)
  from runI [OF this applied_def] show ?thesis by blast
qed

lemma strict_run:
  "\<exists>msg. run_state (reconcile_models strict_env zoned_engine [ready_repo]) before_run =
     (Some (done_result, None), snd (run_state (setNotReady strict_reconciler zoned_engine LLMEngineReasonReconcileFailed msg) (applied strict_env)))"
proof -
  have env: "ce_Reconciler strict_env = strict_reconciler" by (simp add: strict_env_def)
  obtain err where "run_state (wl_Reconcile strict_env (zoned_component strict_env) zoned_context) (mounted strict_env) =
      (Some (Some err), applied strict_env)" using strict_component by blast
  then have "run_state (serve_each strict_env zoned_engine [(''llama'', sample_claim)] [ready_repo] 0) (mounted strict_env) =
      (Some (Inl (ready_repo, err)), applied strict_env)"
    by (simp add: zoned_facts zoned_components zoned_context_def)
  then show ?thesis
    by (simp add: reconcile_models_def prepare_and_serve_def serve_models_def zoned_facts env strict_steps map_set_def split_beta Let_def
        del: serve_each.simps find.simps) blast
qed

section \<open>Properties\<close>

lemma all_events_le_Reconcile:
  assumes "retries_conflicts (r_RetryOnConflict (ce_Reconciler E))"
  shows "all_events (engine_write_ok (r_Lib (ce_Reconciler E))) (le_Reconcile E req)"
proof -
  note kinds = all_events_mono [OF all_events_cleanup_each] all_events_mono [OF all_events_updateReferences [OF assms]]
  show ?thesis
    unfolding le_Reconcile_def le_handleDeletion_def fetchModelRepositories_def Let_def
    by (intro event_intros all_events_reconcile_models kinds all_events_fetch all_events_setNotReady
          all_events_le_remove_finalizer) (simp_all add: assms)
qed

text \<open>
  (C8) The phase of an LLMEngine always says what its conditions say: every status that any run of
  the reconciler writes has the phase derived from the conditions written with it, whatever the
  API server answers.
\<close>

theorem le_Reconcile_phase_derived:
  assumes "retries_conflicts (r_RetryOnConflict (ce_Reconciler E))"
  shows "all_events (engine_write_ok (r_Lib (ce_Reconciler E))) (le_Reconcile E req)"
  by (rule all_events_le_Reconcile [OF assms])

theorem le_Reconcile_phase_derived_witness:
  "all_events (engine_write_ok mem_lib) (le_Reconcile sample_env (''team-a'', ''chat''))"
  using le_Reconcile_phase_derived [of sample_env] by (simp add: sample_env_def)

subsection \<open>Running means ready\<close>

definition model_ready :: "ModelRepository \<Rightarrow> bool" where
  "model_ready mr = (mst_Phase (mr_Status mr) = DownloadPhaseReady)"

definition deployment_ready :: "LLMEngine \<Rightarrow> ModelRepository \<Rightarrow> event \<Rightarrow> bool" where
  "deployment_ready le mr e = (case e of OnDeployment (Get k (Inr d)) \<Rightarrow>
     k = (le_Namespace le, deployment_lookup_name le mr) \<and> dep_ReadyReplicas d > 0 | _ \<Rightarrow> False)"

lemma deployment_ready_Get [simp]:
  "deployment_ready le mr (OnDeployment (Get k (Inr d))) =
     (k = (le_Namespace le, deployment_lookup_name le mr) \<and> dep_ReadyReplicas d > 0)"
  by (simp add: deployment_ready_def)

lemma not_running_simps [simp]:
  "workload_event e \<Longrightarrow> \<not> running_write e" "volume_event e \<Longrightarrow> \<not> running_write e" "reference_event e \<Longrightarrow> \<not> running_write e"
  "\<not> running_write (OnEngine (Get k x))" "\<not> running_write (OnNode c')"
  by (auto simp: running_write_def workload_event_def volume_event_def reference_event_def split: event.splits call.splits)

lemma running_set:
  assumes "sets_conditions L"
  shows "\<not> running_write (OnEngine (StatusUpdate (x\<lparr>le_Status := le_set_conditions L [condition ''Ready'' ConditionFalse reason msg] s\<rparr>) u))"
    and "\<not> running_write (OnEngine (StatusUpdate (x\<lparr>le_Status := waiting_status L msg s\<rparr>) u))"
    and "running_write (OnEngine (StatusUpdate (x\<lparr>le_Status := serving_status L names n m s\<rparr>) u)) = (n = m)"
  using assms
  by (simp_all add: running_write_def le_set_conditions_def waiting_status_def serving_status_def
      deriveLLMEnginePhase_def condition_def sets_conditionsD)

lemma spec_serve_each:
  "spec (serve_each E le claims mrs n) (\<lambda>res evs. \<forall>k. res = Some (Inr k) \<longrightarrow> k \<le> n + length mrs \<and>
     (k = n + length mrs \<longrightarrow> list_all (\<lambda>mr. list_ex (deployment_ready le mr) evs) mrs))"
proof (induction mrs arbitrary: n)
  case (Cons mr mrs)
  have wl: "spec (wl_Reconcile E w ctx) (\<lambda>_ _. True)" for w ctx
    using all_events_wl_Reconcile [of E w ctx] unfolding all_events_def by (rule spec_conseq) simp
  let ?R = "\<lambda>res evs. \<forall>k. res = Some (Inr k) \<longrightarrow> k \<le> n + length (mr # mrs) \<and>
     (k = n + length (mr # mrs) \<longrightarrow> list_all (\<lambda>mr. list_ex (deployment_ready le mr) evs) (mr # mrs))"
  have rest: "spec (serve_each E le claims mrs (case g of Inr d \<Rightarrow> if dep_ReadyReplicas d > 0 then Suc n else n | Inl _ \<Rightarrow> n))
      (\<lambda>res e2. ?R res (e1 @ OnDeployment (Get (le_Namespace le, deployment_lookup_name le mr) g) # e2))" for g e1
    by (rule spec_conseq [OF Cons.IH])
      (auto simp: list_all_iff split: sum.splits if_splits)
  show ?case
    unfolding serve_each.simps by (intro spec_intros spec_bind [OF wl] rest) simp_all
qed (simp add: spec_return)

lemma spec_quiet:
  assumes "all_events (\<lambda>e. \<not> P e) m"
  shows "spec m (\<lambda>_ evs. \<not> list_ex P evs)"
  using assms unfolding all_events_def by (rule spec_conseq) (auto simp: list_all_iff list_ex_iff)

lemma not_running_steps:
  assumes "retries_conflicts (r_RetryOnConflict r)" "sets_conditions (r_Lib r)"
  shows "all_events (\<lambda>e. \<not> running_write e) (setNotReady r le reason msg)"
    and "all_events (\<lambda>e. \<not> running_write e) (le_syncStatus r le (waiting_status (r_Lib r) msg))"
    and "n \<noteq> m \<Longrightarrow> all_events (\<lambda>e. \<not> running_write e) (le_syncStatus r le (serving_status (r_Lib r) names n m))"
    and "all_events (\<lambda>e. \<not> running_write e) (updateReferencedEngines r names)"
    and "all_events (\<lambda>e. \<not> running_write e) (validateGPUAvailability r le node)"
    and "all_events (\<lambda>e. \<not> running_write e) (ensure_each r le mrs claims)"
    and "all_events (\<lambda>e. \<not> running_write e) (serve_each E le claims' mrs' n)"
  by (intro all_events_setNotReady all_events_le_sync all_events_validate
        all_events_mono [OF all_events_updateReferences [OF assms(1)]] all_events_mono [OF all_events_ensure_each]
        all_events_mono [OF all_events_serve_each];
      simp add: assms running_set)+

lemma spec_serve_models_running:
  assumes "retries_conflicts (r_RetryOnConflict (ce_Reconciler E))" "sets_conditions (r_Lib (ce_Reconciler E))"
  shows "spec (serve_models E le mrs claims) (\<lambda>_ evs. list_ex running_write evs \<longrightarrow>
    list_all (\<lambda>mr. list_ex (deployment_ready le mr) evs) mrs)"
proof -
  note quiet = spec_quiet [OF not_running_steps(1) [OF assms]] spec_quiet [OF not_running_steps(4) [OF assms]]
  have serve: "spec (serve_each E le claims mrs 0) (\<lambda>res evs. (\<forall>k. res = Some (Inr k) \<longrightarrow>
      (k = length mrs \<longrightarrow> list_all (\<lambda>mr. list_ex (deployment_ready le mr) evs) mrs)) \<and> \<not> list_ex running_write evs)"
    using spec_conj [OF spec_serve_each spec_quiet [OF not_running_steps(7) [OF assms]]] by (rule spec_conseq) auto
  have final: "spec (le_syncStatus (ce_Reconciler E) le (serving_status (r_Lib (ce_Reconciler E)) names k (length mrs)))
      (\<lambda>_ evs. k \<noteq> length mrs \<longrightarrow> \<not> list_ex running_write evs)" for names k
  proof (cases "k = length mrs")
    case True
    have "all_events (\<lambda>_. True) (le_syncStatus (ce_Reconciler E) le (serving_status (r_Lib (ce_Reconciler E)) names k (length mrs)))"
      by (rule all_events_le_sync [OF assms(1)]) simp_all
    then show ?thesis unfolding all_events_def by (rule spec_conseq) (simp add: True)
  next
    case False
    from spec_quiet [OF not_running_steps(3) [OF assms False]] show ?thesis by (rule spec_conseq) simp
  qed
  show ?thesis
    unfolding serve_models_def Let_def
    by (intro spec_bind [OF serve] spec_bind [OF final] spec_bind [OF quiet(1)] spec_bind [OF quiet(2)] spec_or_panic spec_sum
          spec_prod spec_return)
      (auto simp: list_all_iff)
qed

text \<open>
  (C2) Running means serving: a run writes the phase Running only if it was given at least one
  model, every model it was given is Ready, and the API server has answered for each, in this
  run, that the deployment looked up for it has ready replicas.
\<close>

theorem running_means_ready:
  assumes "retries_conflicts (r_RetryOnConflict (ce_Reconciler E))" and "sets_conditions (r_Lib (ce_Reconciler E))"
  shows "spec (reconcile_models E le mrs) (\<lambda>_ evs. list_ex running_write evs \<longrightarrow>
    mrs \<noteq> [] \<and> list_all model_ready mrs \<and> list_all (\<lambda>mr. list_ex (deployment_ready le mr) evs) mrs)"
proof -
  note quiet = spec_quiet [OF not_running_steps(1) [OF assms]] spec_quiet [OF not_running_steps(2) [OF assms]]
    spec_quiet [OF not_running_steps(5) [OF assms]] spec_quiet [OF not_running_steps(6) [OF assms]]
  have ready: "list_all model_ready mrs" if "find (\<lambda>mr. mst_Phase (mr_Status mr) \<noteq> DownloadPhaseReady) mrs = None"
    using that by (auto simp: find_None_iff list_all_iff model_ready_def)
  have serve: "spec (prepare_and_serve E le mrs) (\<lambda>_ evs. list_ex running_write evs \<longrightarrow>
      list_all (\<lambda>mr. list_ex (deployment_ready le mr) evs) mrs)"
    unfolding prepare_and_serve_def Let_def
    by (intro spec_bind [OF quiet(4)] spec_bind [OF quiet(1)] spec_conseq [OF spec_serve_models_running [OF assms]]
          spec_or_panic spec_sum spec_prod spec_return) (auto simp: list_all_iff)
  show ?thesis
    unfolding reconcile_models_def Let_def
    by (intro spec_if spec_option spec_bind [OF quiet(1)] spec_bind [OF quiet(2)] spec_bind [OF quiet(3)]
          spec_conseq [OF serve] spec_return)
      (auto simp: list_all_iff dest: ready)
qed

theorem running_means_ready_witness:
  "case run_state (reconcile_models sample_env zoned_engine [ready_repo]) before_run of (res, s) \<Rightarrow>
     list_ex running_write (trace s) \<and> list_ex (deployment_ready zoned_engine ready_repo) (trace s)"
proof -
  have "spec (reconcile_models sample_env zoned_engine [ready_repo]) (\<lambda>_ evs. list_ex running_write evs \<longrightarrow>
      [ready_repo] \<noteq> [] \<and> list_all model_ready [ready_repo] \<and> list_all (\<lambda>mr. list_ex (deployment_ready zoned_engine mr) evs) [ready_repo])"
    by (rule running_means_ready) (simp_all add: sample_env_def)
  from spec_run [OF this sample_run] sample_log(1) show ?thesis by (simp add: sample_run)
qed

subsection \<open>Admission\<close>

text \<open>The reference for the loop over the nodes: a node is suitable or not, independent of the others.\<close>

definition suitable_node :: "k8s_lib \<Rightarrow> GPUConfig \<Rightarrow> Node \<Rightarrow> bool" where
  "suitable_node L g node \<longleftrightarrow>
     (case map_of (node_Allocatable node) (gpu_type g) of
        None \<Rightarrow> False | Some q \<Rightarrow> \<not> lib_IsZero L q \<and> gpu_count g \<le> lib_Value L q) \<and>
     list_all (\<lambda>(k, v). smap_get (om_Labels (node_Meta node)) k = v) (gpu_NodeSelector g)"

lemma selector_matches: "selector_mismatch node sel = None \<longleftrightarrow> list_all (\<lambda>(k, v). smap_get (om_Labels (node_Meta node)) k = v) sel"
  by (auto simp: selector_mismatch_def find_None_iff list_all_iff)

lemma required_node_suitable: "check_required_node L g name node = None \<longleftrightarrow> suitable_node L g node"
  by (auto simp: check_required_node_def suitable_node_def node_gpus_def selector_matches [symmetric] not_less
      split: option.splits if_splits)

lemma some_node_suitable: "check_nodes L g nodes = None \<longleftrightarrow> list_ex (suitable_node L g) nodes"
proof -
  let ?enough = "\<lambda>n. case node_gpus L n (gpu_type g) of Some available \<Rightarrow> available \<ge> gpu_count g | None \<Rightarrow> False"
  have "check_nodes L g nodes = None \<longleftrightarrow>
      (\<exists>n\<in>set nodes. node_gpus L n (gpu_type g) \<noteq> None \<and> selector_mismatch n (gpu_NodeSelector g) = None \<and> ?enough n)"
    unfolding check_nodes_def Let_def if_splits(1) by (simp add: filter_empty_conv del: not_None_eq not_Some_eq split_paired_All split_paired_Ex) blast
  moreover have "suitable_node L g n \<longleftrightarrow>
      node_gpus L n (gpu_type g) \<noteq> None \<and> selector_mismatch n (gpu_NodeSelector g) = None \<and> ?enough n" for n
    by (auto simp: suitable_node_def node_gpus_def selector_matches split: option.splits)
  ultimately show ?thesis by (simp add: list_ex_iff)
qed

text \<open>
  (C21) The GPU check is what it stands for: with a required node it passes exactly when that node,
  without one exactly when some node of the cluster, has a non-zero allocatable quantity of the
  GPU type of at least the requested count and every label of the selector. The order of the
  nodes and of the selector's entries does not matter.
\<close>

theorem validateGPUAvailability_exact:
  assumes "les_GPU (le_Spec le) = Some g" and "gpu_Enabled g"
  shows "spec (validateGPUAvailability r le name) (\<lambda>res evs.
    if name = [] then \<exists>ans. evs = [OnNode (ListOf None [] ans)] \<and>
      (res = None) = (case ans of Inl _ \<Rightarrow> False | Inr nodes \<Rightarrow> list_ex (suitable_node (r_Lib r) g) nodes)
    else \<exists>ans. evs = [OnNode (Get ([], name) ans)] \<and>
      (res = None) = (case ans of Inl _ \<Rightarrow> False | Inr node \<Rightarrow> suitable_node (r_Lib r) g node))"
  unfolding validateGPUAvailability_def
  using assms by (auto intro!: spec_intros simp: required_node_suitable some_node_suitable)

theorem validateGPUAvailability_exact_witness:
  "spec (validateGPUAvailability mem_reconciler zoned_engine []) (\<lambda>res evs.
     \<exists>ans. evs = [OnNode (ListOf None [] ans)] \<and>
       (res = None) = (case ans of Inl _ \<Rightarrow> False | Inr nodes \<Rightarrow> list_ex (suitable_node mem_lib gpu_config) nodes)) \<and>
   suitable_node mem_lib gpu_config (gpu_node ''a'' ''4'') \<and> \<not> suitable_node mem_lib gpu_config (gpu_node ''b'' ''4'') \<and>
   \<not> suitable_node mem_lib gpu_config (gpu_node ''a'' ''1'')"
proof (intro conjI)
  have "les_GPU (le_Spec zoned_engine) = Some gpu_config" "gpu_Enabled gpu_config"
    by (simp_all add: zoned_engine_def gpu_config_def)
  from validateGPUAvailability_exact [OF this, of mem_reconciler "[]"]
  show "spec (validateGPUAvailability mem_reconciler zoned_engine []) (\<lambda>res evs.
     \<exists>ans. evs = [OnNode (ListOf None [] ans)] \<and>
       (res = None) = (case ans of Inl _ \<Rightarrow> False | Inr nodes \<Rightarrow> list_ex (suitable_node mem_lib gpu_config) nodes))"
    unfolding mem_reconciler_Lib by simp
qed code_simp+

definition gpu_admitted :: "k8s_lib \<Rightarrow> LLMEngine \<Rightarrow> ModelRepository list \<Rightarrow> event list \<Rightarrow> bool" where
  "gpu_admitted L le mrs evs = (case les_GPU (le_Spec le) of
     None \<Rightarrow> True
   | Some g \<Rightarrow> \<not> gpu_Enabled g \<or>
       (case evs of
          OnNode (ListOf None [] (Inr nodes)) # _ \<Rightarrow> required_node mrs = [] \<and> list_ex (suitable_node L g) nodes
        | OnNode (Get k (Inr node)) # _ \<Rightarrow> k = ([], required_node mrs) \<and> suitable_node L g node
        | _ \<Rightarrow> False))"

lemma quiet_setNotReady:
  assumes "retries_conflicts (r_RetryOnConflict r)"
  shows "all_events (\<lambda>e. \<not> provisions e) (setNotReady r le reason msg)"
    and "all_events (\<lambda>e. \<not> provisions e) (le_syncStatus r le f)"
  by (intro all_events_setNotReady all_events_le_sync; simp add: assms)+

text \<open>
  (C3) Nothing is provisioned too early: a run that creates a volume or a claim, or applies a
  ConfigMap, a deployment or a service, was given only Ready models, and if the engine asks for
  GPUs, began with the API server's answer that a suitable node exists - the very node that the
  storage of a node-bound model requires, where there is one.
\<close>

theorem nothing_provisioned_early:
  assumes "retries_conflicts (r_RetryOnConflict (ce_Reconciler E))"
  shows "spec (reconcile_models E le mrs) (\<lambda>_ evs. list_ex provisions evs \<longrightarrow>
    mrs \<noteq> [] \<and> list_all model_ready mrs \<and> gpu_admitted (r_Lib (ce_Reconciler E)) le mrs evs)"
proof -
  note quiet = spec_quiet [OF quiet_setNotReady(1) [OF assms]] spec_quiet [OF quiet_setNotReady(2) [OF assms]]
  have ready: "list_all model_ready mrs" if "find (\<lambda>mr. mst_Phase (mr_Status mr) \<noteq> DownloadPhaseReady) mrs = None"
    using that by (auto simp: find_None_iff list_all_iff model_ready_def)
  have check: "spec (validateGPUAvailability (ce_Reconciler E) le (required_node mrs)) (\<lambda>res evs.
      \<not> list_ex provisions evs \<and> (\<forall>rest. res = None \<longrightarrow> gpu_admitted (r_Lib (ce_Reconciler E)) le mrs (evs @ rest)))"
    unfolding validateGPUAvailability_def
    by (intro spec_intros)
      (auto simp: gpu_admitted_def required_node_suitable some_node_suitable)
  show ?thesis
    unfolding reconcile_models_def Let_def
    by (intro spec_if spec_option spec_bind [OF quiet(1)] spec_bind [OF quiet(2)] spec_bind [OF check]
          spec_conseq [OF spec_of_prepare [OF assms]] spec_return)
      (auto simp: gpu_admitted_def DetectGPURequest_def split: option.splits dest: ready)
qed

theorem nothing_provisioned_early_witness:
  "case run_state (reconcile_models sample_env zoned_engine [ready_repo]) before_run of (res, s) \<Rightarrow>
     list_ex provisions (trace s) \<and> gpu_admitted mem_lib zoned_engine [ready_repo] (trace s)"
proof -
  have "spec (reconcile_models sample_env zoned_engine [ready_repo]) (\<lambda>_ evs. list_ex provisions evs \<longrightarrow>
      gpu_admitted mem_lib zoned_engine [ready_repo] evs)"
    by (rule spec_conseq [OF nothing_provisioned_early [of sample_env zoned_engine "[ready_repo]"]]) (simp_all add: sample_env_def)
  from spec_run [OF this sample_run] sample_log(2) show ?thesis by (simp add: sample_run)
qed

subsection \<open>References\<close>

text \<open>The abstract view: the engines that use a repository and are not being deleted, as a set of keys.\<close>

definition live_users :: "LLMEngine list \<Rightarrow> string \<Rightarrow> string set" where
  "live_users engines repo = engine_key ` {le \<in> set engines. om_DeletionTimestamp (le_Meta le) = None \<and> references le repo}"

lemma live_users_Nil [simp]: "live_users [] repo = {}"
  by (simp add: live_users_def)

lemma live_users_Cons [simp]:
  "live_users (le # engines) repo =
     (if om_DeletionTimestamp (le_Meta le) = None \<and> references le repo then {engine_key le} else {}) \<union> live_users engines repo"
  by (auto simp: live_users_def)













subsection \<open>Deletion\<close>










subsection \<open>The name of the deployment\<close>

text \<open>
  (C38) The readiness of an engine is looked up under the name its deployment has only if that name
  is short: the component's name is the one that is looked up exactly when engine and model name
  together have at most 51 bytes. For longer names the deployment is applied under a truncated
  name and the lookup asks for another one.
\<close>

theorem deployment_lookup_short_names:
  "ComponentName (le_Name le) (mr_Name mr) = Some (deployment_lookup_name le mr) \<longleftrightarrow>
     length (le_Name le) + length (mr_Name mr) \<le> 51"
proof
  assume "ComponentName (le_Name le) (mr_Name mr) = Some (deployment_lookup_name le mr)"
  with component_namer.bounded [of "(le_Name le, mr_Name mr)"]
  have "length (deployment_lookup_name le mr) \<le> 52" by simp
  then show "length (le_Name le) + length (mr_Name mr) \<le> 51" by (simp add: deployment_lookup_name_def)
next
  assume "length (le_Name le) + length (mr_Name mr) \<le> 51"
  then show "ComponentName (le_Name le) (mr_Name mr) = Some (deployment_lookup_name le mr)"
    by (simp add: ComponentName_def TruncatedName_short raw_name_def deployment_lookup_name_def)
qed

end
