(* ===== verification/Manager.thy ===== *)
theory Manager
  imports LLMEngine_Controller ModelRepo_Controller
begin

text \<open>
  The operator's process (\<^verbatim>\<open>cmd/main.go\<close>): the commands and their flags, the options of the
  manager, and \<^verbatim>\<open>run\<close>, which creates the manager, registers both reconcilers and the probes and
  starts it; \<^verbatim>\<open>SetupWithManager\<close> of both reconcilers, as the declaration handed to the controller
  builder. The libraries (controller-runtime's manager and builder, cobra with pflag, client-go's
  scheme) are parameters; the log of a start records each of their calls with its answer.

  Shown are that the process starts a manager only when everything it needs is registered on it,
  with which options, and what makes it exit, and which engines the event of a repository wakes.
\<close>

section \<open>Model: the declarations of the controllers\<close>

datatype watched_kind = KindLLMEngine | KindModelRepository | KindDeployment | KindService | KindJob

datatype map_func = MapModelRepositoryToLLMEngine

record controller_decl =
  cd_Named :: string
  cd_For :: watched_kind
  cd_Owns :: "watched_kind list"
  cd_Watches :: "(watched_kind \<times> map_func) list"

definition le_SetupWithManager :: controller_decl where
  "le_SetupWithManager = \<lparr>cd_Named = ''llmengine'', cd_For = KindLLMEngine, cd_Owns = [KindDeployment, KindService],
     cd_Watches = [(KindModelRepository, MapModelRepositoryToLLMEngine)]\<rparr>"

definition mr_SetupWithManager :: controller_decl where
  "mr_SetupWithManager = \<lparr>cd_Named = ''modelrepository'', cd_For = KindModelRepository, cd_Owns = [KindJob], cd_Watches = []\<rparr>"

section \<open>Model: options\<close>

record StartOptions =
  so_Namespace :: string
  so_MetricsAddr :: string
  so_probeAddr :: string
  so_enableLeaderElection :: bool

datatype flag = StringVar string string | BoolVar string bool

text \<open>The options before the flags are parsed, and the flags with their defaults.\<close>

definition initial_options :: StartOptions where
  "initial_options = \<lparr>so_Namespace = ''aitrigram-system'', so_MetricsAddr = ''0'', so_probeAddr = [],
     so_enableLeaderElection = False\<rparr>"

definition run_flags :: "StartOptions \<Rightarrow> flag list" where
  "run_flags opts =
     [StringVar ''namespace'' (so_Namespace opts), StringVar ''health-probe-bind-address'' '':8081'',
      BoolVar ''leader-elect'' False, StringVar ''metrics-bind-address'' (so_MetricsAddr opts)]"

text \<open>The values of the flags after parsing, and the options they are bound to.\<close>

record flag_values =
  fv_String :: "string \<Rightarrow> string"
  fv_Bool :: "string \<Rightarrow> bool"

definition bound_options :: "flag_values \<Rightarrow> StartOptions" where
  "bound_options v = \<lparr>so_Namespace = fv_String v ''namespace'', so_MetricsAddr = fv_String v ''metrics-bind-address'',
     so_probeAddr = fv_String v ''health-probe-bind-address'', so_enableLeaderElection = fv_Bool v ''leader-elect''\<rparr>"

text \<open>What pflag documents of a command line without flags: each keeps its default.\<close>

fun default_values :: "flag list \<Rightarrow> flag_values" where
  "default_values [] = \<lparr>fv_String = \<lambda>_. [], fv_Bool = \<lambda>_. False\<rparr>"
| "default_values (StringVar n d # fs) = (let v = default_values fs in v\<lparr>fv_String := (fv_String v)(n := d)\<rparr>)"
| "default_values (BoolVar n d # fs) = (let v = default_values fs in v\<lparr>fv_Bool := (fv_Bool v)(n := d)\<rparr>)"

record manager_options =
  mo_HealthProbeBindAddress :: string
  mo_MetricsBindAddress :: string
  mo_CacheUnstructured :: bool
  mo_LeaderElection :: bool
  mo_LeaderElectionID :: string
  mo_LeaderElectionResourceLock :: string
  mo_LeaderElectionReleaseOnCancel :: bool
  mo_LeaderElectionNamespace :: string
  mo_LeaseDuration :: nat
  mo_RenewDeadline :: nat
  mo_RetryPeriod :: nat

text \<open>Durations are in seconds.\<close>

definition ctrlOptions :: "StartOptions \<Rightarrow> manager_options" where
  "ctrlOptions opts = \<lparr>mo_HealthProbeBindAddress = so_probeAddr opts, mo_MetricsBindAddress = so_MetricsAddr opts,
     mo_CacheUnstructured = True, mo_LeaderElection = so_enableLeaderElection opts,
     mo_LeaderElectionID = ''llmengine-operator-leader-elect'', mo_LeaderElectionResourceLock = ''leases'',
     mo_LeaderElectionReleaseOnCancel = True, mo_LeaderElectionNamespace = so_Namespace opts,
     mo_LeaseDuration = 60, mo_RenewDeadline = 40, mo_RetryPeriod = 15\<rparr>"

section \<open>Model: the libraries\<close>

text \<open>The connection to the API server, of which the operator sets the user agent.\<close>

record rest_config =
  rest_Host :: string
  rest_UserAgent :: string

text \<open>
  Registering a controller hands the builder its declaration and the reconciler, of which the
  process chooses the operator's namespace.
\<close>

record 'm manager_lib =
  ml_AddToScheme :: "string \<Rightarrow> ('m, go_error option) state"
  ml_GetConfig :: "('m, go_error + rest_config) state"
  ml_NewManager :: "rest_config \<Rightarrow> manager_options \<Rightarrow> ('m, go_error option) state"
  ml_Complete :: "controller_decl \<Rightarrow> string \<Rightarrow> ('m, go_error option) state"
  ml_AddHealthzCheck :: "string \<Rightarrow> ('m, go_error option) state"
  ml_AddReadyzCheck :: "string \<Rightarrow> ('m, go_error option) state"
  ml_Start :: "('m, go_error option) state"

datatype startup_event =
    AddToScheme string "go_error option"
  | GetConfig "go_error + rest_config"
  | NewManager rest_config manager_options "go_error option"
  | Complete controller_decl string "go_error option"
  | AddHealthzCheck string "go_error option"
  | AddReadyzCheck string "go_error option"
  | Start "go_error option"

section \<open>Model: the process\<close>

text \<open>
  \<open>None\<close>: the process has exited with code 1, which \<^verbatim>\<open>GetConfigOrDie\<close> does without a configuration.
  \<^verbatim>\<open>Start\<close> returns when the context is cancelled or the manager fails.
\<close>

definition run :: "'m manager_lib \<Rightarrow> StartOptions \<Rightarrow> ('m, startup_event, go_error option option) io" where
  "run L opts = do {
     c \<leftarrow> perform GetConfig (ml_GetConfig L);
     case c of
       Inl _ \<Rightarrow> ret None
     | Inr config \<Rightarrow> do {
         let kubeConfig = config\<lparr>rest_UserAgent := ''aitrigram-controller''\<rparr>;
         mgr \<leftarrow> perform (NewManager kubeConfig (ctrlOptions opts)) (ml_NewManager L kubeConfig (ctrlOptions opts));
         case mgr of
           Some err \<Rightarrow> ret (Some (Some (wrap_error ''unable to start manager: '' err)))
         | None \<Rightarrow> do {
             e1 \<leftarrow> perform (Complete le_SetupWithManager (so_Namespace opts)) (ml_Complete L le_SetupWithManager (so_Namespace opts));
             case e1 of
               Some err \<Rightarrow> ret (Some (Some err))
             | None \<Rightarrow> do {
                 e2 \<leftarrow> perform (Complete mr_SetupWithManager (so_Namespace opts)) (ml_Complete L mr_SetupWithManager (so_Namespace opts));
                 case e2 of
                   Some err \<Rightarrow> ret (Some (Some err))
                 | None \<Rightarrow> do {
                     e3 \<leftarrow> perform (AddHealthzCheck ''healthz'') (ml_AddHealthzCheck L ''healthz'');
                     case e3 of
                       Some err \<Rightarrow> ret (Some (Some err))
                     | None \<Rightarrow> do {
                         e4 \<leftarrow> perform (AddReadyzCheck ''readyz'') (ml_AddReadyzCheck L ''readyz'');
                         case e4 of
                           Some err \<Rightarrow> ret (Some (Some err))
                         | None \<Rightarrow> do {
                             e5 \<leftarrow> perform Start (ml_Start L);
                             ret (Some e5) } } } } } } }"

text \<open>
  What cobra makes of the command line: the root command, the command \<^verbatim>\<open>run\<close> with its flags, one of
  its own commands and flags (help, version), or an error.
\<close>

datatype dispatch = RootCommand | RunCommand flag_values | Informational | ExecuteError go_error

text \<open>Exit codes: 1 where the code calls \<^verbatim>\<open>os.Exit(1)\<close>, 2 for a panic.\<close>

definition run_command :: "'m manager_lib \<Rightarrow> flag_values \<Rightarrow> ('m, startup_event, nat) io" where
  "run_command L v = do {
     r \<leftarrow> run L (bound_options v);
     ret (case r of Some None \<Rightarrow> 0 | _ \<Rightarrow> 1) }"

definition main :: "'m manager_lib \<Rightarrow> (flag list \<Rightarrow> string list \<Rightarrow> dispatch) \<Rightarrow> string list \<Rightarrow> ('m, startup_event, nat) io" where
  "main L execute args =
     (case execute (run_flags initial_options) args of
        RootCommand \<Rightarrow> ret 1
      | Informational \<Rightarrow> ret 0
      | ExecuteError _ \<Rightarrow> ret 1
      | RunCommand v \<Rightarrow> run_command L v)"

text \<open>The package's \<^verbatim>\<open>init\<close>, whose \<^verbatim>\<open>Must\<close> panics, and then \<^verbatim>\<open>main\<close>.\<close>

definition operator_process ::
  "'m manager_lib \<Rightarrow> (flag list \<Rightarrow> string list \<Rightarrow> dispatch) \<Rightarrow> string list \<Rightarrow> ('m, startup_event, nat) io" where
  "operator_process L execute args = do {
     e1 \<leftarrow> perform (AddToScheme ''clientgo'') (ml_AddToScheme L ''clientgo'');
     case e1 of
       Some _ \<Rightarrow> ret 2
     | None \<Rightarrow> do {
         e2 \<leftarrow> perform (AddToScheme ''aitrigram'') (ml_AddToScheme L ''aitrigram'');
         case e2 of
           Some _ \<Rightarrow> ret 2
         | None \<Rightarrow> main L execute args } }"

section \<open>What is started\<close>

text \<open>
  Which events reach which reconciler: those of the kind it is for, those of the objects it owns,
  and those it maps to requests.
\<close>

datatype route = ByItself | ByOwner | ByMap map_func

definition routes :: "controller_decl \<Rightarrow> (watched_kind \<times> route \<times> watched_kind) set" where
  "routes d = {(cd_For d, ByItself, cd_For d)} \<union> (\<lambda>k. (k, ByOwner, cd_For d)) ` set (cd_Owns d) \<union>
     (\<lambda>(k, f). (k, ByMap f, cd_For d)) ` set (cd_Watches d)"

fun succeeded :: "startup_event \<Rightarrow> bool" where
  "succeeded (GetConfig x) = (case x of Inl _ \<Rightarrow> False | Inr _ \<Rightarrow> True)"
| "succeeded (AddToScheme _ e) = (e = None)"
| "succeeded (NewManager _ _ e) = (e = None)"
| "succeeded (Complete _ _ e) = (e = None)"
| "succeeded (AddHealthzCheck _ e) = (e = None)"
| "succeeded (AddReadyzCheck _ e) = (e = None)"
| "succeeded (Start e) = (e = None)"

fun on_manager :: "startup_event \<Rightarrow> bool" where
  "on_manager (GetConfig _) = False"
| "on_manager (AddToScheme _ _) = False"
| "on_manager _ = True"

text \<open>
  The options say what the flags say, and the lease of the leader is one that client-go accepts: it
  outlives the deadline of its renewal, which leaves time for a retry with the jitter of a fifth.
\<close>

definition obeys_flags :: "flag_values \<Rightarrow> manager_options \<Rightarrow> bool" where
  "obeys_flags v mo =
     (mo_LeaderElection mo = fv_Bool v ''leader-elect'' \<and> mo_LeaderElectionNamespace mo = fv_String v ''namespace'' \<and>
      mo_HealthProbeBindAddress mo = fv_String v ''health-probe-bind-address'' \<and>
      mo_MetricsBindAddress mo = fv_String v ''metrics-bind-address'')"

definition acceptable_lease :: "manager_options \<Rightarrow> bool" where
  "acceptable_lease mo =
     (mo_LeaderElectionID mo \<noteq> [] \<and> mo_LeaderElectionResourceLock mo = ''leases'' \<and> 0 < mo_RetryPeriod mo \<and>
      6 * mo_RetryPeriod mo < 5 * mo_RenewDeadline mo \<and> mo_RenewDeadline mo < mo_LeaseDuration mo)"

text \<open>
  An operator that is ready to be started: one manager, with such options, on which both
  reconcilers are registered, for the namespace of the flags and with the events that concern
  them, and both probes.
\<close>

definition complete_operator :: "flag_values \<Rightarrow> startup_event list \<Rightarrow> bool" where
  "complete_operator v evs = (\<exists>before config mo regs. evs = before @ NewManager config mo None # regs \<and>
     list_all (\<lambda>e. \<not> on_manager e) before \<and> obeys_flags v mo \<and> acceptable_lease mo \<and>
     (\<Union>{routes d |d. Complete d (fv_String v ''namespace'') None \<in> set regs}) =
       {(KindLLMEngine, ByItself, KindLLMEngine), (KindDeployment, ByOwner, KindLLMEngine), (KindService, ByOwner, KindLLMEngine),
        (KindModelRepository, ByMap MapModelRepositoryToLLMEngine, KindLLMEngine),
        (KindModelRepository, ByItself, KindModelRepository), (KindJob, ByOwner, KindModelRepository)} \<and>
     (\<exists>name. AddHealthzCheck name None \<in> set regs) \<and> (\<exists>name. AddReadyzCheck name None \<in> set regs))"

lemma run_log:
  "spec (run L opts) (\<lambda>res evs. (res \<noteq> Some None \<and> (\<forall>err. Start err \<notin> set evs)) \<or>
     (\<exists>config err. res = Some err \<and> evs = [GetConfig (Inr config), NewManager (config\<lparr>rest_UserAgent := ''aitrigram-controller''\<rparr>) (ctrlOptions opts) None,
        Complete le_SetupWithManager (so_Namespace opts) None, Complete mr_SetupWithManager (so_Namespace opts) None,
        AddHealthzCheck ''healthz'' None, AddReadyzCheck ''readyz'' None, Start err]))"
  unfolding run_def Let_def by (intro spec_intros) auto

lemma registered_routes:
  "routes le_SetupWithManager \<union> routes mr_SetupWithManager =
     {(KindLLMEngine, ByItself, KindLLMEngine), (KindDeployment, ByOwner, KindLLMEngine), (KindService, ByOwner, KindLLMEngine),
      (KindModelRepository, ByMap MapModelRepositoryToLLMEngine, KindLLMEngine),
      (KindModelRepository, ByItself, KindModelRepository), (KindJob, ByOwner, KindModelRepository)}"
  by (auto simp: routes_def le_SetupWithManager_def mr_SetupWithManager_def)

lemma complete_log:
  assumes "list_all (\<lambda>e. \<not> on_manager e) before"
  shows "complete_operator v (before @ [NewManager config (ctrlOptions (bound_options v)) None,
    Complete le_SetupWithManager (fv_String v ''namespace'') None, Complete mr_SetupWithManager (fv_String v ''namespace'') None,
    AddHealthzCheck ''healthz'' None, AddReadyzCheck ''readyz'' None])" (is "complete_operator v (before @ NewManager config ?mo None # ?regs)")
proof -
  have "\<Union>{routes d |d. Complete d (fv_String v ''namespace'') None \<in> set ?regs} = routes le_SetupWithManager \<union> routes mr_SetupWithManager"
    by auto
  moreover have "obeys_flags v ?mo" "acceptable_lease ?mo"
    by (simp_all add: obeys_flags_def acceptable_lease_def ctrlOptions_def bound_options_def)
  moreover have "AddHealthzCheck ''healthz'' None \<in> set ?regs" "AddReadyzCheck ''readyz'' None \<in> set ?regs"
    by simp_all
  ultimately show ?thesis
    unfolding complete_operator_def registered_routes using assms by blast
qed

text \<open>
  (C16) The process starts a manager at most once, as the last thing it does, and only when the
  operator is complete: the command was \<^verbatim>\<open>run\<close>; every call before - the two schemes, the
  configuration, the manager, both reconcilers, both probes - was answered with success; the
  manager has the addresses, the namespace and the leader election of the flags and a lease that
  client-go accepts; on it are registered, for the namespace of the flags, the reconciler of
  engines, reached by events of engines, of the deployments and services they own and, through
  the mapping, of repositories, and the reconciler of repositories, reached by events of
  repositories and of the jobs they own, and nothing else; and both probes. The exit code is then 0
  exactly if the manager ended without an error; without a start it is 0 only for a help or
  version request.
\<close>

theorem starts_complete_operator:
  "spec (operator_process L execute args) (\<lambda>code evs.
     (\<forall>err. Start err \<in> set evs \<longrightarrow> (\<exists>v before. execute (run_flags initial_options) args = RunCommand v \<and>
       evs = before @ [Start err] \<and> list_all succeeded before \<and> complete_operator v before \<and> (code = 0 \<longleftrightarrow> err = None))) \<and>
     ((\<forall>err. Start err \<notin> set evs) \<longrightarrow> code = 0 \<longrightarrow> execute (run_flags initial_options) args = Informational))"
proof -
  let ?schemes = "[AddToScheme ''clientgo'' None, AddToScheme ''aitrigram'' None]"
  let ?R = "\<lambda>code evs.
     (\<forall>err. Start err \<in> set evs \<longrightarrow> (\<exists>v before. execute (run_flags initial_options) args = RunCommand v \<and>
       evs = before @ [Start err] \<and> list_all succeeded before \<and> complete_operator v before \<and> (code = (0::nat) \<longleftrightarrow> err = None))) \<and>
     ((\<forall>err. Start err \<notin> set evs) \<longrightarrow> code = 0 \<longrightarrow> execute (run_flags initial_options) args = Informational)"
  have run: "spec (run_command L v) (\<lambda>code evs. ?R code (?schemes @ evs))" if "execute (run_flags initial_options) args = RunCommand v" for v
    unfolding run_command_def
  proof (rule spec_bind [OF run_log], rule spec_return)
    fix res evs
    assume "(res \<noteq> Some None \<and> (\<forall>err. Start err \<notin> set evs)) \<or>
      (\<exists>config err. res = Some err \<and> evs = [GetConfig (Inr config), NewManager (config\<lparr>rest_UserAgent := ''aitrigram-controller''\<rparr>)
        (ctrlOptions (bound_options v)) None, Complete le_SetupWithManager (so_Namespace (bound_options v)) None,
        Complete mr_SetupWithManager (so_Namespace (bound_options v)) None, AddHealthzCheck ''healthz'' None, AddReadyzCheck ''readyz'' None, Start err])"
    then show "?R (case res of Some None \<Rightarrow> 0 | _ \<Rightarrow> 1) (?schemes @ evs @ [])"
    proof (elim disjE exE conjE)
      fix config :: rest_config and err
      let ?config = "config\<lparr>rest_UserAgent := ''aitrigram-controller''\<rparr>"
      let ?before = "?schemes @ [GetConfig (Inr config)] @ [NewManager ?config (ctrlOptions (bound_options v)) None,
        Complete le_SetupWithManager (fv_String v ''namespace'') None, Complete mr_SetupWithManager (fv_String v ''namespace'') None,
        AddHealthzCheck ''healthz'' None, AddReadyzCheck ''readyz'' None]"
      assume res: "res = Some err" and evs: "evs = [GetConfig (Inr config), NewManager ?config (ctrlOptions (bound_options v)) None,
        Complete le_SetupWithManager (so_Namespace (bound_options v)) None,
        Complete mr_SetupWithManager (so_Namespace (bound_options v)) None, AddHealthzCheck ''healthz'' None, AddReadyzCheck ''readyz'' None, Start err]"
      have "complete_operator v ?before" using complete_log [of "?schemes @ [GetConfig (Inr config)]" v ?config] by simp
      moreover have "?schemes @ evs = ?before @ [Start err]" "list_all succeeded ?before"
        by (simp_all add: evs bound_options_def)
      ultimately show ?thesis using that by (auto simp: res split: option.splits)
    qed (auto split: option.splits)
  qed
  show ?thesis
    unfolding operator_process_def main_def
    by (intro spec_intros; cases "execute (run_flags initial_options) args"; (use run in \<open>auto intro!: spec_intros\<close>))
qed

lemma default_options:
  "bound_options (default_values (run_flags initial_options)) =
     \<lparr>so_Namespace = ''aitrigram-system'', so_MetricsAddr = ''0'', so_probeAddr = '':8081'', so_enableLeaderElection = False\<rparr>"
  by (simp add: bound_options_def run_flags_def initial_options_def)

text \<open>Libraries that answer every call with success, and a command line without flags.\<close>

definition sample_manager_lib :: "unit manager_lib" where
  "sample_manager_lib = \<lparr>ml_AddToScheme = (\<lambda>_. ret None), ml_GetConfig = ret (Inr \<lparr>rest_Host = ''api'', rest_UserAgent = []\<rparr>),
     ml_NewManager = (\<lambda>_ _. ret None), ml_Complete = (\<lambda>_ _. ret None), ml_AddHealthzCheck = (\<lambda>_. ret None),
     ml_AddReadyzCheck = (\<lambda>_. ret None), ml_Start = ret None\<rparr>"

theorem starts_complete_operator_witness:
  "case run_state (operator_process sample_manager_lib (\<lambda>flags _. RunCommand (default_values flags)) []) \<lparr>world = (), trace = []\<rparr> of
     (code, s) \<Rightarrow> (\<exists>before. trace s = before @ [Start None] \<and> code = 0 \<and> complete_operator (default_values (run_flags initial_options)) before)"
proof -
  let ?run = "run_state (operator_process sample_manager_lib (\<lambda>flags _. RunCommand (default_values flags)) []) \<lparr>world = (), trace = []\<rparr>"
  have "Start None \<in> set (trace (snd ?run))"
    by (simp add: operator_process_def main_def run_command_def run_def sample_manager_lib_def run_state_perform)
  moreover obtain code s where run: "?run = (code, s)" by fastforce
  ultimately show ?thesis
    using spec_run [OF starts_complete_operator [of sample_manager_lib "\<lambda>flags _. RunCommand (default_values flags)" "[]"] run]
    by (auto simp: run)
qed

section \<open>The event of a repository\<close>

lemma match_reference_eq:
  "match_reference repo le refs requests =
     requests @ (if \<exists>ref \<in> set refs. mref_Name ref = repo then [(le_Namespace le, le_Name le)] else [])"
  by (induction refs) auto

lemma collect_requests_eq:
  "collect_requests repo engines requests =
     requests @ map (\<lambda>le. (le_Namespace le, le_Name le)) (filter (\<lambda>le. references le repo) engines)"
  by (induction engines arbitrary: requests) (simp_all add: match_reference_eq references_def)

text \<open>
  (C17) The event of a repository wakes its users: it asks for one run of each engine that references
  the repository, of no other, in the order listed and from every namespace; if the engines cannot
  be listed it wakes none.
\<close>

theorem repository_event_wakes_engines:
  "spec (modelRepositoryToLLMEngine r mr) (\<lambda>requests evs. \<exists>answer. evs = [OnEngine (ListOf None [] answer)] \<and>
     requests = (case answer of Inl _ \<Rightarrow> []
       | Inr engines \<Rightarrow> map (\<lambda>le. (le_Namespace le, le_Name le)) (filter (\<lambda>le. references le (mr_Name mr)) engines)))"
  unfolding modelRepositoryToLLMEngine_def
  by (intro spec_intros) (simp_all add: collect_requests_eq)

end
