(* ===== verification/Requeue.thy ===== *)
theory Requeue
  imports LLMEngine_Controller ModelRepo_Controller
begin

text \<open>
  When a run asks to be run again. A result without an error and without a delay leaves the next
  run to the next change of a watched object; these lemmas say which runs may end so: those of an
  engine whose models, GPUs and claims were all there, and those of a repository whose revisions
  are all Ready. The exception is a component that could not be applied, which is not retried.
\<close>

section \<open>The engine\<close>

definition claim_mounted :: "LLMEngine \<Rightarrow> ModelRepository \<Rightarrow> event \<Rightarrow> bool" where
  "claim_mounted le mr ev = (\<exists>name pvc. llmEnginePVName (le_Name le) (mr_Name mr) = Some name \<and>
     ev = OnPVC (Get (le_Namespace le, name) (Inr pvc)) \<and> pvc_Phase pvc = ClaimBound)"

lemma spec_Ensure_mounted:
  "spec (EnsureLLMEngineStorage r le mr) (\<lambda>res evs. (\<forall>out. res = Some (Inr out) \<longrightarrow> list_ex (claim_mounted le mr) evs) \<and>
     list_all volume_event evs)"
proof -
  have "spec (EnsureLLMEngineStorage r le mr) (\<lambda>res evs. \<forall>out. res = Some (Inr out) \<longrightarrow> list_ex (claim_mounted le mr) evs)"
    unfolding EnsureLLMEngineStorage_def ensure_pv_def ensure_pvc_def Let_def
    by (intro spec_intros) (auto simp: claim_mounted_def PVC_name_eq engine_pvc_def)
  from spec_conj [OF this all_events_spec [OF all_events_Ensure]] show ?thesis .
qed

lemma spec_ensure_mounted:
  "spec (ensure_each r le mrs m) (\<lambda>res evs.
     (\<forall>claims. res = Some (Inr claims) \<longrightarrow> list_all (\<lambda>mr. list_ex (claim_mounted le mr) evs) mrs) \<and> list_all volume_event evs)"
proof (induction mrs arbitrary: m)
  case (Cons mr mrs)
  show ?case
    unfolding ensure_each.simps
    by (intro spec_bind [OF spec_Ensure_mounted] spec_intros spec_conseq [OF Cons.IH]) (auto simp: list_all_iff)
qed (simp add: spec_return)

lemma spec_quiet_workload:
  assumes "retries_conflicts (r_RetryOnConflict r)"
  shows "spec (setNotReady r le reason msg) (\<lambda>_ evs. list_all (\<lambda>e. \<not> workload_event e) evs)"
    and "spec (le_syncStatus r le f) (\<lambda>_ evs. list_all (\<lambda>e. \<not> workload_event e) evs)"
  by (intro all_events_spec all_events_setNotReady all_events_le_sync; simp add: assms workload_event_def)+

lemma volume_not_workload: "volume_event e \<Longrightarrow> \<not> workload_event e"
  by (auto simp: volume_event_def workload_event_def split: event.splits)

lemma spec_serve_models_rest:
  assumes "retries_conflicts (r_RetryOnConflict (ce_Reconciler E))"
  shows "spec (serve_models E le mrs claims) (\<lambda>res evs. res = None \<or> res = Some (done_result, None))"
proof -
  have serve: "spec (serve_each E le claims mrs n) (\<lambda>_ _. True)" for n
    by (rule spec_conseq [OF spec_serve_each]) simp
  have refs: "spec (updateReferencedEngines (ce_Reconciler E) names) (\<lambda>_ _. True)" for names
    by (rule spec_conseq [OF all_events_spec [OF all_events_updateReferences [OF assms]]]) simp
  show ?thesis
    unfolding serve_models_def Let_def
    by (intro spec_bind [OF serve] spec_or_panic spec_sum spec_prod spec_bind [OF spec_quiet_workload(1) [OF assms]]
          spec_bind [OF spec_quiet_workload(2) [OF assms]] spec_bind [OF refs] spec_return) auto
qed

text \<open>
  (C12) Waiting is never forgotten: a run of the engine's reconciler over its models either asks to be
  run again within a minute, and has then applied nothing, or it had everything it needs - at
  least one model, all of them Ready, a suitable GPU node where one is asked for, and the API
  server's answer that the claim of every model is bound.
\<close>

theorem waiting_engine_revisited:
  assumes "retries_conflicts (r_RetryOnConflict (ce_Reconciler E))"
  shows "spec (reconcile_models E le mrs) (\<lambda>res evs. \<forall>result err. res = Some (result, err) \<longrightarrow> err = None \<and>
    (result \<in> {after_seconds 30, after_seconds 60} \<and> list_all (\<lambda>e. \<not> workload_event e) evs \<or>
     result = done_result \<and> mrs \<noteq> [] \<and> list_all model_ready mrs \<and> gpu_admitted (r_Lib (ce_Reconciler E)) le mrs evs \<and>
       list_all (\<lambda>mr. list_ex (claim_mounted le mr) evs) mrs))"
proof -
  have ready: "list_all model_ready mrs" if "find (\<lambda>mr. mst_Phase (mr_Status mr) \<noteq> DownloadPhaseReady) mrs = None"
    using that by (auto simp: find_None_iff list_all_iff model_ready_def)
  have check: "spec (validateGPUAvailability (ce_Reconciler E) le (required_node mrs)) (\<lambda>res evs.
      list_all (\<lambda>e. \<not> workload_event e) evs \<and> (\<forall>rest. res = None \<longrightarrow> gpu_admitted (r_Lib (ce_Reconciler E)) le mrs (evs @ rest)))"
    unfolding validateGPUAvailability_def
    by (intro spec_intros)
      (auto simp: gpu_admitted_def required_node_suitable some_node_suitable workload_event_def)
  have prep: "spec (prepare_and_serve E le mrs) (\<lambda>res evs. \<forall>result err. res = Some (result, err) \<longrightarrow> err = None \<and>
    (result = after_seconds 30 \<and> list_all (\<lambda>e. \<not> workload_event e) evs \<or>
     result = done_result \<and> list_all (\<lambda>mr. list_ex (claim_mounted le mr) evs) mrs))"
    unfolding prepare_and_serve_def Let_def
    by (intro spec_bind [OF spec_ensure_mounted] spec_or_panic spec_sum spec_prod spec_bind [OF spec_quiet_workload(1) [OF assms]]
          spec_conseq [OF spec_serve_models_rest [OF assms]] spec_return)
      (auto simp: list_all_iff list_ex_iff dest: volume_not_workload)
  show ?thesis
    unfolding reconcile_models_def Let_def
    by (intro spec_if spec_option spec_bind [OF spec_quiet_workload(1) [OF assms]] spec_bind [OF spec_quiet_workload(2) [OF assms]]
          spec_bind [OF check] spec_conseq [OF prep] spec_return)
      (auto simp: gpu_admitted_def DetectGPURequest_def list_all_iff split: option.splits dest: ready)
qed

theorem waiting_engine_revisited_witness:
  "case run_state (reconcile_models sample_env zoned_engine [ready_repo]) before_run of (res, s) \<Rightarrow>
     res = Some (done_result, None) \<and> gpu_admitted mem_lib zoned_engine [ready_repo] (trace s) \<and>
     list_ex (claim_mounted zoned_engine ready_repo) (trace s)"
proof -
  have "spec (reconcile_models sample_env zoned_engine [ready_repo]) (\<lambda>res evs. res = Some (done_result, None) \<longrightarrow>
      gpu_admitted mem_lib zoned_engine [ready_repo] evs \<and> list_ex (claim_mounted zoned_engine ready_repo) evs)"
    by (rule spec_conseq [OF waiting_engine_revisited [of sample_env zoned_engine "[ready_repo]"]])
      (auto simp: sample_env_def done_result_def after_seconds_def)
  from spec_run [OF this sample_run] show ?thesis by (simp add: sample_run)
qed

subsection \<open>Components that fail\<close>

fun failed_apply :: "event \<Rightarrow> bool" where
  "failed_apply (OnConfigMap (Apply _ (Some _))) = True"
| "failed_apply (OnDeployment (Apply _ (Some _))) = True"
| "failed_apply (OnService (Apply _ (Some _))) = True"
| "failed_apply _ = False"

lemma failed_applied_event: "failed_apply (applied_event obj e) = (e \<noteq> None)"
  by (cases obj; cases e) (simp_all add: applied_event_def)

lemma spec_apply_reported:
  "spec (own_and_apply E ctx a b obj) (\<lambda>res evs. list_ex failed_apply evs \<longrightarrow> res \<noteq> None)"
  by (rule spec_conseq [OF spec_own_and_apply]) (auto simp: failed_applied_event)

lemma spec_manifests_reported:
  "spec (reconcileManifests E ctx ms) (\<lambda>res evs. list_ex failed_apply evs \<longrightarrow> res \<noteq> None)"
proof (induction ms)
  case (Cons m ms)
  obtain name a where m: "m = (name, a)" by (cases m)
  have one: "spec (reconcileManifest E ctx name a) (\<lambda>res evs. list_ex failed_apply evs \<longrightarrow> res \<noteq> None)"
    unfolding reconcileManifest_def Let_def by (intro spec_intros spec_apply_reported) simp_all
  show ?case
    unfolding m reconcileManifests.simps by (intro spec_bind [OF one] spec_option spec_return spec_conseq [OF Cons.IH]) auto
qed (simp add: spec_return)

lemma spec_wl_reported:
  "spec (wl_Reconcile E w ctx) (\<lambda>res evs. list_ex failed_apply evs \<longrightarrow> (\<exists>err. res = Some (Some err)))"
proof -
  have dep: "spec (reconcileDeployment E w ctx) (\<lambda>res evs. list_ex failed_apply evs \<longrightarrow> (\<exists>err. res = Some (Some err)))"
    and svc: "spec (reconcileService E w ctx) (\<lambda>res evs. list_ex failed_apply evs \<longrightarrow> (\<exists>err. res = Some (Some err)))"
    unfolding reconcileDeployment_def reconcileService_def Let_def
    by (intro spec_intros spec_bind [OF spec_apply_reported]; simp)+
  have upd: "spec (updateResources E w ctx) (\<lambda>res evs. list_ex failed_apply evs \<longrightarrow> (\<exists>err. res = Some (Some err)))"
    unfolding updateResources_def
    by (intro spec_bind [OF spec_manifests_reported] spec_bind [OF dep] spec_option spec_return spec_conseq [OF svc]) auto
  show ?thesis
    unfolding wl_Reconcile_def deleteResources_def by (intro spec_intros spec_conseq [OF upd]) auto
qed

lemma spec_serve_reported:
  "spec (serve_each E le claims mrs n) (\<lambda>res evs. list_ex failed_apply evs \<longrightarrow> (\<exists>mr err. res = Some (Inl (mr, err))))"
proof (induction mrs arbitrary: n)
  case (Cons mr mrs)
  show ?case
    unfolding serve_each.simps
    by (intro spec_intros spec_bind [OF spec_wl_reported] spec_conseq [OF Cons.IH]) auto
qed (simp add: spec_return)

lemma spec_no_failed_apply:
  assumes "retries_conflicts (r_RetryOnConflict r)"
  shows "spec (setNotReady r le reason msg) (\<lambda>_ evs. \<not> list_ex failed_apply evs)"
    and "spec (le_syncStatus r le f) (\<lambda>_ evs. \<not> list_ex failed_apply evs)"
    and "spec (updateReferencedEngines r names) (\<lambda>_ evs. \<not> list_ex failed_apply evs)"
    and "spec (validateGPUAvailability r le node) (\<lambda>_ evs. \<not> list_ex failed_apply evs)"
    and "spec (ensure_each r le mrs m) (\<lambda>_ evs. \<not> list_ex failed_apply evs)"
proof -
  have "volume_event e \<Longrightarrow> \<not> failed_apply e" "reference_event e \<Longrightarrow> \<not> failed_apply e" for e
    by (cases e; simp add: volume_event_def reference_event_def)+
  then show "spec (setNotReady r le reason msg) (\<lambda>_ evs. \<not> list_ex failed_apply evs)"
    "spec (le_syncStatus r le f) (\<lambda>_ evs. \<not> list_ex failed_apply evs)"
    "spec (updateReferencedEngines r names) (\<lambda>_ evs. \<not> list_ex failed_apply evs)"
    "spec (validateGPUAvailability r le node) (\<lambda>_ evs. \<not> list_ex failed_apply evs)"
    "spec (ensure_each r le mrs m) (\<lambda>_ evs. \<not> list_ex failed_apply evs)"
    by (intro spec_quiet all_events_setNotReady all_events_le_sync all_events_validate
        all_events_mono [OF all_events_updateReferences [OF assms]] all_events_mono [OF all_events_ensure_each]; simp add: assms)+
qed

text \<open>
  (C34) A component that cannot be applied is given up: when the API server rejects the ConfigMap,
  the deployment or the service of a model, for whatever reason, the run ends with neither an
  error nor a delay, so that nothing but another change in the cluster makes it try again.
\<close>

theorem failed_apply_not_retried:
  assumes "retries_conflicts (r_RetryOnConflict (ce_Reconciler E))"
  shows "spec (reconcile_models E le mrs) (\<lambda>res evs. list_ex failed_apply evs \<longrightarrow> res = Some (done_result, None))"
proof -
  note quiet = spec_no_failed_apply [OF assms]
  have serve: "spec (serve_models E le mrs claims) (\<lambda>res evs. list_ex failed_apply evs \<longrightarrow> res = Some (done_result, None))" for claims
    unfolding serve_models_def Let_def
    by (intro spec_bind [OF spec_serve_reported] spec_or_panic spec_sum spec_prod spec_bind [OF quiet(1)] spec_bind [OF quiet(2)]
          spec_bind [OF quiet(3)] spec_return) auto
  have prep: "spec (prepare_and_serve E le mrs) (\<lambda>res evs. list_ex failed_apply evs \<longrightarrow> res = Some (done_result, None))"
    unfolding prepare_and_serve_def Let_def
    by (intro spec_bind [OF quiet(5)] spec_or_panic spec_sum spec_prod spec_bind [OF quiet(1)] spec_conseq [OF serve] spec_return) auto
  show ?thesis
    unfolding reconcile_models_def Let_def
    by (intro spec_if spec_option spec_bind [OF quiet(1)] spec_bind [OF quiet(2)] spec_bind [OF quiet(4)] spec_conseq [OF prep]
          spec_return) auto
qed

theorem failed_apply_not_retried_witness:
  "case run_state (reconcile_models strict_env zoned_engine [ready_repo]) before_run of (res, s) \<Rightarrow>
     list_ex failed_apply (trace s) \<and> res = Some (done_result, None)"
proof -
  let ?run = "run_state (reconcile_models strict_env zoned_engine [ready_repo]) before_run"
  obtain msg where run: "?run = (fst ?run, snd (run_state (setNotReady strict_reconciler zoned_engine LLMEngineReasonReconcileFailed msg)
      (applied strict_env)))" using strict_run by fastforce
  have "list_ex failed_apply (trace (applied strict_env))" by code_simp
  moreover have "spec (setNotReady strict_reconciler zoned_engine LLMEngineReasonReconcileFailed msg) (\<lambda>_ evs. \<not> list_ex failed_apply evs)"
    by (rule spec_no_failed_apply) simp
  ultimately have "list_ex failed_apply (trace (snd ?run))"
    by (subst run) (fastforce elim!: specE [where s = "applied strict_env", OF _ prod.collapse [symmetric]])
  moreover have "spec (reconcile_models strict_env zoned_engine [ready_repo])
      (\<lambda>res evs. list_ex failed_apply evs \<longrightarrow> res = Some (done_result, None))"
    by (rule failed_apply_not_retried) (simp add: strict_env_def)
  ultimately show ?thesis using spec_run [OF _ prod.collapse [symmetric], of "reconcile_models strict_env zoned_engine [ready_repo]" _ before_run]
    by (auto simp: split_beta)
qed

section \<open>The repository\<close>

lemma revision_ready_assign:
  "revision_ready n (assign_revision mr name DownloadPhaseReady) \<Longrightarrow> revision_ready n mr \<or> n = name"
proof -
  have "find (\<lambda>rs. rs_Name rs = n) (assign_status xs name st) = find (\<lambda>rs. rs_Name rs = n) xs" if "n \<noteq> name" for xs st
    using that by (induction xs) auto
  then show "revision_ready n (assign_revision mr name DownloadPhaseReady) \<Longrightarrow> revision_ready n mr \<or> n = name"
    by (auto simp: revision_ready_def findRevisionStatus_def assign_revision_def)
qed

text \<open>What a revision with nothing left to do says of the repository in memory and of the answers.\<close>

definition resting :: "ModelRepository \<Rightarrow> string \<Rightarrow> ModelRepository \<Rightarrow> event list \<Rightarrow> bool" where
  "resting mr name mr' evs =
     (let said = (\<lambda>n. list_ex (says_ready (ObjectKeyFromObject (mr_Meta mr)) n) evs) in
      mr_Meta mr' = mr_Meta mr \<and> (\<forall>n. revision_ready n mr' \<longrightarrow> revision_ready n mr \<or> said n) \<and>
      (revision_ready name mr \<or> said name))"

lemma resting_append: "resting mr n mr' evs \<Longrightarrow> resting mr n mr' (pre @ evs)"
  by (auto simp: resting_def Let_def)

lemma resting_Cons: "resting mr n mr' evs \<Longrightarrow> resting mr n mr' (ev # evs)"
  using resting_append [of mr n mr' evs "[ev]"] by simp

lemma resting_refl: "revision_ready n mr \<Longrightarrow> resting mr n mr []"
  by (simp add: resting_def Let_def)

lemma spec_reconcileRevision_rests:
  assumes "retries_conflicts (r_RetryOnConflict r)" "compares_statuses (r_Lib r)"
  shows "spec (reconcileRevision A r mr p ref) (\<lambda>out evs. \<forall>mr'. out = Some (mr', False, None, None) \<longrightarrow> resting mr (rref_Name ref) mr' evs)"
proof -
  have name: "rs_Name rs = rref_Name ref" if "findRevisionStatus mr (rref_Name ref) = Some rs" for rs
    using that by (auto simp: findRevisionStatus_def find_Some_iff)
  have marked: "spec (mark_revision r mr rs DownloadPhaseReady) (\<lambda>m evs. snd m = None \<longrightarrow> resting mr (rs_Name rs) (fst m) evs)" for rs
  proof -
    have "spec (mark_revision r mr rs DownloadPhaseReady) (\<lambda>m evs. fst m = assign_revision mr (rs_Name rs) DownloadPhaseReady)"
      unfolding mark_revision_def by (intro spec_bind [OF spec_status(2) [OF assms(1)]] spec_return) simp
    from spec_conj [OF this spec_mark_ready [OF assms]] show ?thesis
      by (rule spec_conseq)
        (auto simp: resting_def Let_def assign_revision_def list_ex_iff dest: revision_ready_assign [unfolded assign_revision_def] intro: last_in_set)
  qed
  have job: "spec (handleJobStatus r mr ref (findRevisionStatus mr (rref_Name ref)) job) (\<lambda>out evs.
      \<forall>mr'. out = Some (mr', False, None, None) \<longrightarrow> resting mr (rref_Name ref) mr' evs)" for job
    unfolding handleJobStatus_def Let_def
    by (intro spec_if spec_bind [OF marked] spec_bind [OF spec_status(3) [OF assms(1)]] spec_bind [OF spec_status(1) [OF assms(1)]] spec_return)
      (auto dest: name split: option.splits)
  have create: "spec (createDownloadJob A r mr p ref rso) (\<lambda>out evs. \<forall>mr'. out \<noteq> Some (mr', False, None, None))" for rso
    unfolding createDownloadJob_def deleteStaleCleanupJob_def submit_download_job_def Let_def
    by (intro spec_intros spec_bind [OF spec_status(3) [OF assms(1)]] spec_bind [OF spec_status(2) [OF assms(1)]]) auto
  show ?thesis
    unfolding reconcileRevision_def Let_def
    by (intro spec_intros spec_conseq [OF job] spec_conseq [OF create])
      (auto intro: resting_refl resting_Cons simp: revision_ready_def)
qed

lemma spec_reconcileRevision_delay:
  assumes "retries_conflicts (r_RetryOnConflict r)"
  shows "spec (reconcileRevision A r mr p ref) (\<lambda>out evs. \<forall>mr' b res err. out = Some (mr', b, Some res, err) \<longrightarrow> res \<noteq> done_result)"
  unfolding reconcileRevision_def createDownloadJob_def deleteStaleCleanupJob_def submit_download_job_def handleJobStatus_def Let_def
  by (intro spec_intros spec_bind [OF spec_status(1) [OF assms]] spec_bind [OF spec_status(2) [OF assms]]
        spec_bind [OF spec_status(3) [OF assms]]) (auto simp: done_result_def after_seconds_def)

definition said_ready :: "ModelRepository \<Rightarrow> event list \<Rightarrow> RevisionReference \<Rightarrow> bool" where
  "said_ready mr evs ref = (revision_ready (rref_Name ref) mr \<or>
     list_ex (says_ready (ObjectKeyFromObject (mr_Meta mr)) (rref_Name ref)) evs)"

lemma said_ready_later:
  "resting mr n mr' e1 \<Longrightarrow> said_ready mr' e2 ref \<Longrightarrow> said_ready mr (e1 @ e2) ref"
  by (auto simp: resting_def said_ready_def Let_def)

lemma spec_reconcile_each_rests:
  assumes "retries_conflicts (r_RetryOnConflict r)" "compares_statuses (r_Lib r)"
  shows "spec (reconcile_each A r mr p refs b) (\<lambda>out evs.
    (\<forall>mr' b'. out = Some (Inr (mr', b')) \<longrightarrow> \<not> b' \<longrightarrow> \<not> b \<and> list_all (said_ready mr evs) refs) \<and>
    (\<forall>res err. out = Some (Inl (res, err)) \<longrightarrow> res \<noteq> done_result \<or> err \<noteq> None))"
proof (induction refs arbitrary: mr p b)
  case (Cons ref refs)
  note step = spec_conj [OF spec_reconcileRevision_rests [OF assms] spec_reconcileRevision_delay [OF assms(1)]]
  have head: "resting mr (rref_Name ref) mr' e1 \<Longrightarrow> said_ready mr (e1 @ e2) ref" for mr' e1 e2
    by (auto simp: resting_def said_ready_def Let_def)
  show ?case
    unfolding reconcile_each.simps
    by (intro spec_bind [OF step] spec_or_panic spec_prod spec_option spec_return spec_conseq [OF Cons.IH])
      (auto intro: head said_ready_later simp: list_all_iff)
qed (simp add: spec_return)

lemma spec_reconcileRevisions_rests:
  assumes "retries_conflicts (r_RetryOnConflict r)" "compares_statuses (r_Lib r)"
  shows "spec (reconcileRevisions A r mr p) (\<lambda>res evs. res = Some (done_result, None) \<longrightarrow> list_all (said_ready mr evs) (getDesiredRevisions mr))"
proof -
  have overall: "spec (updateOverallPhase r mr' refs b) (\<lambda>_ _. True)" for mr' refs b
    unfolding updateOverallPhase_def by (intro spec_if spec_conseq [OF spec_status(1) [OF assms(1)]] spec_return) simp_all
  have more: "said_ready mr e1 ref \<Longrightarrow> said_ready mr (e1 @ e2) ref" for e1 e2 ref by (auto simp: said_ready_def)
  show ?thesis
    unfolding reconcileRevisions_def Let_def
    by (intro spec_if spec_bind [OF spec_reconcile_each_rests [OF assms]] spec_bind [OF overall] spec_or_panic spec_sum spec_prod spec_return)
      (auto simp: list_all_iff done_result_def after_seconds_def intro: more split: if_splits)
qed

text \<open>The repository was answered by the API server in this run.\<close>

definition answered_repo :: "ModelRepository \<Rightarrow> event list \<Rightarrow> bool" where
  "answered_repo mr evs = ((\<exists>k. OnRepo (Get k (Inr mr)) \<in> set evs) \<or> (\<exists>x. OnRepo (Update x (Inr mr)) \<in> set evs))"

definition finished :: "ModelRepository \<Rightarrow> event list \<Rightarrow> bool" where
  "finished mr evs = (om_DeletionTimestamp (mr_Meta mr) \<noteq> None \<or> \<not> mrs_AutoDownload (mr_Spec mr) \<or>
     list_all (said_ready mr evs) (getDesiredRevisions mr))"

text \<open>Why a run of the repository's reconciler may end without asking for another.\<close>

definition nothing_left :: "event list \<Rightarrow> bool" where
  "nothing_left evs = ((\<exists>k err. evs = [OnRepo (Get k (Inl err))] \<and> IsNotFound err) \<or>
     (\<exists>mr. answered_repo mr evs \<and> finished mr evs))"

text \<open>The same for a part of a run, which was given a repository.\<close>

definition nothing_left_of :: "ModelRepository \<Rightarrow> event list \<Rightarrow> bool" where
  "nothing_left_of mr evs = (\<exists>mr'. (mr' = mr \<or> answered_repo mr' evs) \<and> finished mr' evs)"

lemma answered_repo_here [simp]:
  "answered_repo mr (OnRepo (Get k (Inr mr)) # evs)" "answered_repo mr (OnRepo (Update x (Inr mr)) # evs)"
  unfolding answered_repo_def by (meson list.set_intros(1))+

lemma answered_repo_append [simp]: "answered_repo mr (e1 @ e2) \<longleftrightarrow> answered_repo mr e1 \<or> answered_repo mr e2"
  unfolding answered_repo_def set_append by blast

lemma answered_repo_mono: "answered_repo mr e1 \<Longrightarrow> set e1 \<subseteq> set e2 \<Longrightarrow> answered_repo mr e2"
  unfolding answered_repo_def by blast

lemma said_ready_mono: "said_ready mr e1 ref \<Longrightarrow> set e1 \<subseteq> set e2 \<Longrightarrow> said_ready mr e2 ref"
  unfolding said_ready_def list_ex_iff by blast

lemma finished_mono: "finished mr e1 \<Longrightarrow> set e1 \<subseteq> set e2 \<Longrightarrow> finished mr e2"
  unfolding finished_def list_all_iff using said_ready_mono by blast

lemma nothing_left_of_mono:
  assumes "nothing_left_of mr e1" "set e1 \<subseteq> set e2"
  shows "nothing_left_of mr e2"
proof -
  obtain mr' where "mr' = mr \<or> answered_repo mr' e1" "finished mr' e1" using assms(1) unfolding nothing_left_of_def by blast
  with assms(2) have "mr' = mr \<or> answered_repo mr' e2" "finished mr' e2"
    by (blast intro: answered_repo_mono, blast intro: finished_mono)
  then show ?thesis unfolding nothing_left_of_def by blast
qed

lemma nothing_left_ofI:
  "finished mr evs \<Longrightarrow> nothing_left_of mr evs" "answered_repo mr' evs \<Longrightarrow> nothing_left_of mr' evs \<Longrightarrow> nothing_left_of mr evs"
  unfolding nothing_left_of_def by blast+

lemma nothing_left_of_updated: "nothing_left_of mr1 evs \<Longrightarrow> nothing_left_of mr (OnRepo (Update x (Inr mr1)) # evs)"
  by (rule nothing_left_ofI(2) [OF answered_repo_here(2)]) (rule nothing_left_of_mono, auto)

lemma nothing_left_found:
  assumes "nothing_left_of mr evs"
  shows "nothing_left (OnRepo (Get k (Inr mr)) # evs)" (is "nothing_left ?evs")
proof -
  have "nothing_left_of mr ?evs" by (rule nothing_left_of_mono [OF assms]) auto
  then obtain mr' where "mr' = mr \<or> answered_repo mr' ?evs" "finished mr' ?evs" unfolding nothing_left_of_def by blast
  moreover have "answered_repo mr ?evs" by simp
  ultimately show ?thesis unfolding nothing_left_def by blast
qed

lemma nothing_left_missing: "IsNotFound err \<Longrightarrow> nothing_left [OnRepo (Get k (Inl err))]"
  unfolding nothing_left_def by blast

lemma not_done [simp]: "after_seconds n = done_result \<longleftrightarrow> n = 0" "done_result\<lparr>Requeue := True\<rparr> \<noteq> done_result"
  by (simp_all add: after_seconds_def done_result_def)

lemma spec_reconcileStorage_answered:
  assumes "retries_conflicts (r_RetryOnConflict r)"
  shows "spec (reconcileStorage r mr p) (\<lambda>res evs. case res of
      Some (Inr (mr', p')) \<Rightarrow> mr' = mr \<or> answered_repo mr' evs
    | Some (Inl (out, err)) \<Rightarrow> out \<noteq> done_result \<or> err \<noteq> None
    | None \<Rightarrow> True)"
proof -
  have create: "spec (CreateStorage r p ns) (\<lambda>_ _. True)" for ns
    unfolding CreateStorage_def by (intro spec_intros) simp_all
  have upd: "spec (updateStorageStatus r mr p) (\<lambda>_ _. True)"
    by (rule spec_conseq [OF spec_updateStorageStatus [OF assms]]) simp
  have prov: "spec (CreateProvider r mr') (\<lambda>_ _. True)" for mr'
    unfolding CreateProvider_def SelectBestStorageClass_def DiscoverStorageClasses_def by (intro spec_intros) simp_all
  show ?thesis
    unfolding reconcileStorage_def
    by (intro spec_option spec_sum spec_if spec_return spec_intros spec_bind [OF spec_status(1) [OF assms]]
          spec_bind [OF create] spec_bind [OF upd] spec_bind [OF prov])
      simp_all
qed

lemma spec_downloads_rest:
  assumes "retries_conflicts (r_RetryOnConflict r)" "compares_statuses (r_Lib r)"
  shows "spec (State_Monad.bind (reconcileStorage r mr p) (\<lambda>s. or_panic s (\<lambda>s'. case s' of
      Inl res \<Rightarrow> ret (Some res)
    | Inr (mr2, p2) \<Rightarrow>
        if \<not> mrs_AutoDownload (mr_Spec mr2) then ret (Some (done_result, None))
        else reconcileRevisions A r mr2 p2)))
    (\<lambda>res evs. res = Some (done_result, None) \<longrightarrow> nothing_left_of mr evs)"
proof -
  have revs: "nothing_left_of mr (e1 @ evs)"
    if "mr2 = mr \<or> answered_repo mr2 e1" "finished mr2 evs" for mr2 e1 evs
  proof -
    have "nothing_left_of mr2 (e1 @ evs)" using that(2) by (intro nothing_left_ofI(1) finished_mono [OF that(2)]) simp
    with that(1) show ?thesis using nothing_left_ofI(2) [of mr2 "e1 @ evs" mr] answered_repo_mono [of mr2 e1 "e1 @ evs"] by auto
  qed
  have off: "nothing_left_of mr e1" if "mr2 = mr \<or> answered_repo mr2 e1" "\<not> mrs_AutoDownload (mr_Spec mr2)" for mr2 e1
    using revs [OF that(1), of "[]"] that(2) by (simp add: finished_def)
  show ?thesis
    by (intro spec_bind [OF spec_reconcileStorage_answered [OF assms(1)]] spec_or_panic spec_sum spec_prod spec_if spec_return
          spec_conseq [OF spec_reconcileRevisions_rests [OF assms]])
      (auto intro: off revs simp: finished_def)
qed

text \<open>
  (C13) Downloads are never forgotten: a run of the repository's reconciler that ends with neither an
  error nor a request to be run again found no such repository, or one that is being deleted or
  does not download by itself, or the API server has told it of every desired revision that it
  is Ready.
\<close>

theorem unfinished_repository_revisited:
  assumes "retries_conflicts (r_RetryOnConflict r)" and "compares_statuses (r_Lib r)"
  shows "spec (mr_Reconcile A r req) (\<lambda>res evs. res = Some (done_result, None) \<longrightarrow> nothing_left evs)"
proof -
  have live: "spec (mr_reconcile_live A r mr p) (\<lambda>res evs. res = Some (done_result, None) \<longrightarrow> nothing_left_of mr evs)" for mr p
    unfolding mr_reconcile_live_def
    by (intro spec_intros spec_conseq [OF spec_downloads_rest [OF assms]])
      (auto intro: nothing_left_of_mono nothing_left_of_updated)
  have del: "spec (mr_handleDeletion r mr provider) (\<lambda>_ _. True)" for mr provider
    by (rule spec_conseq [OF all_events_handleDeletion [OF assms(1), unfolded all_events_def]]) simp
  have prov: "spec (CreateProvider r mr) (\<lambda>_ _. True)" for mr
    unfolding CreateProvider_def SelectBestStorageClass_def DiscoverStorageClasses_def by (intro spec_intros) simp_all
  have found: "spec (mr_reconcile_found A r mr) (\<lambda>res evs. res = Some (done_result, None) \<longrightarrow> nothing_left_of mr evs)" for mr
    unfolding mr_reconcile_found_def
    by (intro spec_intros spec_bind [OF prov] spec_bind [OF del] spec_bind [OF spec_status(1) [OF assms(1)]] spec_conseq [OF live])
      (auto intro: nothing_left_of_mono nothing_left_ofI(1) simp: finished_def)
  show ?thesis
    unfolding mr_Reconcile_def
    by (intro spec_intros spec_conseq [OF found])
      (auto intro: nothing_left_missing nothing_left_found simp: IgnoreNotFound_def split: if_splits)
qed

theorem unfinished_repository_revisited_witness:
  "spec (mr_Reconcile all_assets mem_reconciler ([], ''llama'')) (\<lambda>res evs.
     if res = Some (done_result, None) then nothing_left evs else True)"
  by (rule spec_conseq [OF unfinished_repository_revisited]) simp_all

end
