(* ===== verification/Call_Bounds.thy ===== *)
theory Call_Bounds
  imports LLMEngine_Controller ModelRepo_Controller
begin

text \<open>
  How much a run does: every run of the two reconcilers ends after a number of API calls that is
  linear in the number of models or revisions. The only loop that is not structural is the retry
  on conflicts, of client-go; what it documents of its number of steps is \<open>retries_at_most\<close>.
\<close>

section \<open>Counting calls\<close>

definition calls :: "nat \<Rightarrow> ('w, 'e, 'a) io \<Rightarrow> bool" where
  "calls n m = spec m (\<lambda>_ evs. length evs \<le> n)"

lemma calls_spec: "calls n m \<Longrightarrow> spec m (\<lambda>_ evs. length evs \<le> n)"
  by (simp add: calls_def)

lemma calls_mono: "calls n m \<Longrightarrow> n \<le> k \<Longrightarrow> calls k m"
  unfolding calls_def by (erule spec_conseq) simp

text \<open>\<^verbatim>\<open>retry.RetryOnConflict\<close> with a back-off of \<open>Suc N\<close> steps; the default one has five.\<close>

definition retries_at_most :: "nat \<Rightarrow> (('s, go_error option) state \<Rightarrow> ('s, go_error option) state) \<Rightarrow> bool" where
  "retries_at_most N retry = (\<forall>m s. \<exists>n \<le> N. run_state (retry m) s = run_state (attempts n m) s)"

lemma retries_at_most_attempts: "retries_at_most N (attempts N)"
  by (auto simp: retries_at_most_def)

lemma calls_attempts: "calls k m \<Longrightarrow> calls (Suc n * k) (attempts n m)"
proof (induction n)
  case (Suc n)
  have "spec (attempts n m) (\<lambda>_ e2. length (e1 @ e2) \<le> Suc (Suc n) * k)" if "length e1 \<le> k" for e1
    using Suc.IH [OF Suc.prems] unfolding calls_def by (rule spec_conseq) (use that in auto)
  then show ?case
    unfolding calls_def attempts.simps
    by (intro spec_bind [OF calls_spec [OF Suc.prems]] spec_intros) auto
qed simp

lemma calls_retry:
  assumes "retries_at_most N retry" "calls k m"
  shows "calls (Suc N * k) (retry m)"
  unfolding calls_def
proof (rule specI)
  fix s
  from assms(1) obtain n where n: "n \<le> N" "run_state (retry m) s = run_state (attempts n m) s"
    by (auto simp: retries_at_most_def)
  have "calls (Suc N * k) (attempts n m)"
    by (rule calls_mono [OF calls_attempts [OF assms(2)]]) (use n(1) in simp)
  then show "\<exists>evs. trace (snd (run_state (retry m) s)) = trace s @ evs \<and> length evs \<le> Suc N * k"
    unfolding n(2) by (auto simp: calls_def spec_def)
qed

lemma calls_sync_status:
  assumes "retries_at_most N retry"
  shows "calls (Suc N * 2) (sync_status on rc retry equal sof put key f)"
  unfolding sync_status_def Let_def
  by (rule calls_retry [OF assms], unfold calls_def) (intro spec_intros; simp)

section \<open>The engine's reconciler\<close>

lemma calls_own_and_apply: "calls 1 (own_and_apply E ctx a b obj)"
  unfolding calls_def by (rule spec_conseq [OF spec_own_and_apply]) auto

lemma calls_manifest: "calls 1 (reconcileManifest E ctx name a)"
  using calls_own_and_apply unfolding calls_def reconcileManifest_def Let_def
  by (intro spec_intros) auto

lemma calls_manifests: "calls (length ms) (reconcileManifests E ctx ms)"
proof (induction ms)
  case (Cons m ms)
  obtain name a where m: "m = (name, a)" by (cases m)
  have "spec (reconcileManifests E ctx ms) (\<lambda>_ e2. length (e1 @ e2) \<le> Suc (length ms))" if "length e1 \<le> 1" for e1
    using Cons.IH unfolding calls_def by (rule spec_conseq) (use that in auto)
  then show ?case
    unfolding m calls_def reconcileManifests.simps
    by (intro spec_bind [OF calls_spec [OF calls_manifest]] spec_intros) auto
qed (simp add: calls_def spec_return)

lemma calls_deployment_service:
  "calls 1 (reconcileDeployment E w ctx)" "calls 1 (reconcileService E w ctx)"
  unfolding calls_def reconcileDeployment_def reconcileService_def Let_def
  by (intro spec_intros spec_bind [OF calls_spec [OF calls_own_and_apply]]; simp)+

lemma calls_updateResources: "calls (length (wl_manifestAdapters w) + 2) (updateResources E w ctx)"
  unfolding calls_def updateResources_def
  by (intro spec_intros spec_bind [OF calls_spec [OF calls_manifests]] spec_bind [OF calls_spec [OF calls_deployment_service(1)]]
        spec_conseq [OF calls_spec [OF calls_deployment_service(2)]]) auto

lemma calls_wl_Reconcile: "calls (length (wl_manifestAdapters w) + 2) (wl_Reconcile E w ctx)"
  unfolding calls_def wl_Reconcile_def deleteResources_def
  by (intro spec_intros calls_spec [OF calls_updateResources]) simp_all

lemma component_manifests: "NewModelComponent E le mr = Some w \<Longrightarrow> length (wl_manifestAdapters w) \<le> 1"
  by (auto simp: NewModelComponent_def Build_def WithServiceAdapter_def WithDeploymentAdapter_def WithManifestAdapter_def
      NewLLMEngineComponent_def bind_eq_Some_conv map_set_def Let_def)

lemma calls_serve_each: "calls (4 * length mrs) (serve_each E le claims mrs n)"
proof (induction mrs arbitrary: n)
  case (Cons mr mrs)
  have wl: "spec (wl_Reconcile E w ctx) (\<lambda>_ evs. length evs \<le> 3)" if "NewModelComponent E le mr = Some w" for w ctx
    by (rule spec_conseq [OF calls_spec [OF calls_wl_Reconcile]]) (use component_manifests [OF that] in simp)
  show ?case
    unfolding calls_def serve_each.simps
    by (intro spec_intros spec_bind [OF wl] spec_conseq [OF calls_spec [OF Cons.IH]]) simp_all
qed (simp add: calls_def spec_return)

lemma calls_Ensure: "calls 4 (EnsureLLMEngineStorage r le mr)"
  unfolding calls_def EnsureLLMEngineStorage_def ensure_pv_def ensure_pvc_def Let_def
  by (intro spec_intros) simp_all

lemma calls_ensure_each: "calls (4 * length mrs) (ensure_each r le mrs m)"
proof (induction mrs arbitrary: m)
  case (Cons mr mrs)
  show ?case
    unfolding calls_def ensure_each.simps
    by (intro spec_bind [OF calls_spec [OF calls_Ensure]] spec_intros spec_conseq [OF calls_spec [OF Cons.IH]]) simp_all
qed (simp add: calls_def spec_return)

lemma calls_le_sync:
  assumes "retries_at_most N (r_RetryOnConflict r)"
  shows "calls (Suc N * 2) (le_syncStatus r le f)" "calls (Suc N * 2) (setNotReady r le reason msg)"
proof -
  show sync: "calls (Suc N * 2) (le_syncStatus r le f)" for f
    unfolding le_syncStatus_def by (rule calls_sync_status [OF assms])
  show "calls (Suc N * 2) (setNotReady r le reason msg)"
    unfolding setNotReady_def calls_def by (intro spec_bind [OF calls_spec [OF sync]] spec_return) simp
qed

lemma calls_updateReferences:
  assumes "retries_at_most N (r_RetryOnConflict r)"
  shows "calls (1 + length names * (Suc N * 2)) (updateReferencedEngines r names)"
proof -
  have one: "calls (Suc N * 2) (write_references r repo refs)" for repo refs
    unfolding write_references_def
    by (rule calls_retry [OF assms], unfold calls_def) (intro spec_intros; simp)
  have each: "calls (length repos * (Suc N * 2)) (write_each r m repos)" for m repos
  proof (induction repos)
    case (Cons repo repos)
    show ?case
      unfolding calls_def write_each.simps
      by (intro spec_bind [OF calls_spec [OF one]] spec_conseq [OF calls_spec [OF Cons.IH]]) simp
  qed (simp add: calls_def spec_return)
  show ?thesis
    unfolding calls_def updateReferencedEngines_def
    by (intro spec_intros spec_conseq [OF calls_spec [OF each]]) simp_all
qed

lemma calls_validate: "calls 1 (validateGPUAvailability r le name)"
  unfolding calls_def validateGPUAvailability_def by (intro spec_intros) simp_all

lemma calls_serve_models:
  assumes "retries_at_most N (r_RetryOnConflict (ce_Reconciler E))"
  shows "calls (4 * length mrs + (1 + length mrs * (Suc N * 2)) + Suc N * 2) (serve_models E le mrs claims)"
  unfolding calls_def serve_models_def Let_def
  by (intro spec_bind [OF calls_spec [OF calls_serve_each]] spec_intros
        spec_bind [OF calls_spec [OF calls_le_sync(1) [OF assms]]] spec_bind [OF calls_spec [OF calls_le_sync(2) [OF assms]]]
        spec_bind [OF calls_spec [OF calls_updateReferences [OF assms]]]) simp_all

lemma calls_prepare:
  assumes "retries_at_most N (r_RetryOnConflict (ce_Reconciler E))"
  shows "calls (8 * length mrs + (1 + length mrs * (Suc N * 2)) + Suc N * 2) (prepare_and_serve E le mrs)"
  unfolding calls_def prepare_and_serve_def Let_def
  by (intro spec_bind [OF calls_spec [OF calls_ensure_each]] spec_intros
        spec_bind [OF calls_spec [OF calls_le_sync(2) [OF assms]]]
        spec_conseq [OF calls_spec [OF calls_serve_models [OF assms]]]) simp_all

lemma calls_reconcile_models:
  assumes "retries_at_most N (r_RetryOnConflict (ce_Reconciler E))"
  shows "calls (length mrs * (2 * Suc N + 8) + 2 * Suc N + 2) (reconcile_models E le mrs)"
  unfolding reconcile_models_def Let_def calls_def
  by (intro spec_if spec_option spec_return spec_bind [OF calls_spec [OF calls_validate]]
        spec_bind [OF calls_spec [OF calls_le_sync(1) [OF assms]]] spec_bind [OF calls_spec [OF calls_le_sync(2) [OF assms]]]
        spec_conseq [OF calls_spec [OF calls_prepare [OF assms]]]) (simp_all add: algebra_simps)

lemma spec_fetch_each:
  "spec (fetch_each r refs) (\<lambda>res evs. length evs \<le> length refs \<and> (case res of Inr mrs \<Rightarrow> length mrs = length refs | Inl _ \<Rightarrow> True))"
proof (induction refs)
  case (Cons ref refs)
  show ?case
    unfolding fetch_each.simps
    by (intro spec_intros spec_bind [OF Cons.IH]) (auto split: sum.splits)
qed (simp add: spec_return)

lemma calls_Cleanup: "calls 6 (CleanupLLMEngineStorage r le repo)"
  unfolding calls_def CleanupLLMEngineStorage_def release_pvc_def release_pv_def
  by (intro spec_intros) simp_all

lemma calls_cleanup_each: "calls (6 * length refs) (cleanup_each r le refs)"
proof (induction refs)
  case (Cons ref refs)
  show ?case
    unfolding calls_def cleanup_each.simps
    by (intro spec_bind [OF calls_spec [OF calls_Cleanup]] spec_intros spec_conseq [OF calls_spec [OF Cons.IH]]) simp_all
qed (simp add: calls_def spec_return)

lemma calls_le_handleDeletion:
  assumes "retries_at_most N (r_RetryOnConflict r)"
  shows "calls (length (les_ModelRefs (le_Spec le)) * (2 * Suc N + 6) + 2 * Suc N + 1) (le_handleDeletion r le)"
proof -
  have fin: "calls (Suc N * 2) (le_remove_finalizer r le)"
    unfolding le_remove_finalizer_def by (rule calls_retry [OF assms], unfold calls_def) (intro spec_intros; simp)
  show ?thesis
    unfolding calls_def le_handleDeletion_def
    by (intro spec_bind [OF calls_spec [OF calls_cleanup_each]] spec_intros
          spec_bind [OF calls_spec [OF calls_updateReferences [OF assms]]] spec_bind [OF calls_spec [OF fin]])
      (simp_all add: algebra_simps)
qed

text \<open>The engines that the API server answers with have at most \<open>k\<close> model references.\<close>

fun few_references :: "nat \<Rightarrow> event \<Rightarrow> bool" where
  "few_references k (OnEngine (Get _ (Inr le))) = (length (les_ModelRefs (le_Spec le)) \<le> k)"
| "few_references k (OnEngine (Update _ (Inr le))) = (length (les_ModelRefs (le_Spec le)) \<le> k)"
| "few_references k _ = True"

lemma spec_engine_steps:
  assumes "retries_at_most N (r_RetryOnConflict (ce_Reconciler E))"
  shows "spec (State_Monad.bind (fetchModelRepositories (ce_Reconciler E) le) (\<lambda>f. case f of
      Inl err \<Rightarrow> State_Monad.bind (setNotReady (ce_Reconciler E) le reason (err_text err)) (\<lambda>_. ret (Some (done_result, None)))
    | Inr mrs \<Rightarrow> reconcile_models E le mrs))
    (\<lambda>_ evs. length evs \<le> length (les_ModelRefs (le_Spec le)) * (2 * Suc N + 9) + 2 * Suc N + 2)"
  unfolding fetchModelRepositories_def
proof (rule spec_bind [OF spec_fetch_each], goal_cases)
  case (1 res e1)
  show ?case
  proof (cases res)
    case (Inl err)
    with 1 show ?thesis
      by (auto intro!: spec_bind [OF calls_spec [OF calls_le_sync(2) [OF assms]]] spec_return simp: algebra_simps)
  next
    case (Inr mrs)
    with 1 have "length mrs = length (les_ModelRefs (le_Spec le))" "length e1 \<le> length (les_ModelRefs (le_Spec le))" by simp_all
    then show ?thesis
      unfolding Inr sum.case
      by (intro spec_conseq [OF calls_spec [OF calls_reconcile_models [OF assms]]]) (simp add: algebra_simps)
  qed
qed

text \<open>
  (C15) Every run of the engine's reconciler comes to an end: where the engine read has at most
  \<open>k\<close> model references, a run makes at most \<open>k (2 R + 9) + 2 R + 4\<close> API calls, deletion
  included, \<open>R\<close> being the number of steps of the back-off on conflicts - whatever the API
  server answers, conflicts without end included.
\<close>

theorem engine_run_bounded:
  assumes "retries_at_most N (r_RetryOnConflict (ce_Reconciler E))"
  shows "spec (le_Reconcile E req) (\<lambda>_ evs. list_all (few_references k) evs \<longrightarrow>
    length evs \<le> k * (2 * Suc N + 9) + 2 * Suc N + 4)"
proof -
  define M where "M = k * (2 * Suc N + 9) + 2 * Suc N"
  have M: "n * (2 * Suc N + c) + 2 * Suc N \<le> M" if "n \<le> k" "c \<le> 9" for n c
    unfolding M_def using that by (intro add_right_mono mult_le_mono) auto
  have del: "spec (State_Monad.bind (le_handleDeletion (ce_Reconciler E) le) (\<lambda>d. or_panic d (\<lambda>e. ret (Some (done_result, e)))))
      (\<lambda>_ evs. length (les_ModelRefs (le_Spec le)) \<le> k \<longrightarrow> length evs \<le> M + 1)" for le
    by (intro spec_bind [OF calls_spec [OF calls_le_handleDeletion [OF assms]]] spec_intros)
      (use M [of _ 6] in fastforce)+
  have live: "spec (State_Monad.bind (fetchModelRepositories (ce_Reconciler E) le) (\<lambda>f. case f of
      Inl err \<Rightarrow> State_Monad.bind (setNotReady (ce_Reconciler E) le reason (err_text err)) (\<lambda>_. ret (Some (done_result, None)))
    | Inr mrs \<Rightarrow> reconcile_models E le mrs)) (\<lambda>_ evs. length (les_ModelRefs (le_Spec le)) \<le> k \<longrightarrow> length evs \<le> M + 2)" for le reason
    by (rule spec_conseq [OF spec_engine_steps [OF assms]]) (use M [of _ 9] in fastforce)
  show ?thesis
    unfolding le_Reconcile_def Let_def M_def [symmetric]
    by (intro spec_intros spec_conseq [OF del] spec_conseq [OF live]) auto
qed

theorem engine_run_bounded_witness:
  "spec (le_Reconcile sample_env (''team-a'', ''chat'')) (\<lambda>_ evs.
     if list_all (few_references 2) evs then length evs \<le> 52 else True)"
  by (rule spec_conseq [OF engine_run_bounded [of 4 sample_env "(''team-a'', ''chat'')" 2]])
    (simp_all add: sample_env_def mem_reconciler_def retries_at_most_attempts)

section \<open>The repository's reconciler\<close>

lemma calls_mr_steps:
  assumes "retries_at_most N (r_RetryOnConflict r)"
  shows "calls (Suc N * 2) (mr_setCondition r mr t st reason msg)"
    and "calls (Suc N * 2) (updateRevisionStatus r mr rs)"
    and "calls (Suc N * 2) (mark_revision r mr rs' st')"
proof -
  have sync: "calls (Suc N * 2) (mr_syncStatus r mr f)" for f
    unfolding mr_syncStatus_def by (rule calls_sync_status [OF assms])
  show "calls (Suc N * 2) (mr_setCondition r mr t st reason msg)"
    unfolding mr_setCondition_def calls_def by (intro spec_bind [OF calls_spec [OF sync]] spec_return) simp
  show upd: "calls (Suc N * 2) (updateRevisionStatus r mr rs)" for rs
    unfolding updateRevisionStatus_def by (rule sync)
  show "calls (Suc N * 2) (mark_revision r mr rs' st')"
    unfolding mark_revision_def calls_def by (intro spec_bind [OF calls_spec [OF upd]] spec_return) simp
qed

lemma calls_submit:
  assumes "retries_at_most N (r_RetryOnConflict r)"
  shows "calls (1 + Suc N * 2) (submit_download_job A r mr p ref rs)"
  unfolding calls_def submit_download_job_def
  by (intro spec_intros spec_bind [OF calls_spec [OF calls_mr_steps(3) [OF assms]]]) simp_all

lemma calls_createDownloadJob:
  assumes "retries_at_most N (r_RetryOnConflict r)"
  shows "calls (2 + 4 * Suc N) (createDownloadJob A r mr p ref rso)"
  unfolding calls_def createDownloadJob_def deleteStaleCleanupJob_def Let_def
  by (intro spec_intros spec_bind [OF calls_spec [OF calls_mr_steps(2) [OF assms]]]
        spec_conseq [OF calls_spec [OF calls_submit [OF assms]]]) simp_all

lemma calls_handleJobStatus:
  assumes "retries_at_most N (r_RetryOnConflict r)"
  shows "calls (4 * Suc N) (handleJobStatus r mr ref rso job)"
  unfolding calls_def handleJobStatus_def Let_def
  by (intro spec_intros spec_bind [OF calls_spec [OF calls_mr_steps(1) [OF assms]]]
        spec_bind [OF calls_spec [OF calls_mr_steps(3) [OF assms]]]) simp_all

lemma calls_reconcileRevision:
  assumes "retries_at_most N (r_RetryOnConflict r)"
  shows "calls (3 + 4 * Suc N) (reconcileRevision A r mr p ref)"
  unfolding calls_def reconcileRevision_def Let_def
  by (intro spec_intros spec_conseq [OF calls_spec [OF calls_createDownloadJob [OF assms]]]
        spec_conseq [OF calls_spec [OF calls_handleJobStatus [OF assms]]]) simp_all

lemma calls_reconcile_each:
  assumes "retries_at_most N (r_RetryOnConflict r)"
  shows "calls (length refs * (3 + 4 * Suc N)) (reconcile_each A r mr p refs b)"
proof (induction refs arbitrary: mr p b)
  case (Cons ref refs)
  show ?case
    unfolding calls_def reconcile_each.simps
    by (intro spec_bind [OF calls_spec [OF calls_reconcileRevision [OF assms]]] spec_intros
          spec_conseq [OF calls_spec [OF Cons.IH]]) simp_all
qed (simp add: calls_def spec_return)

lemma calls_reconcileRevisions:
  assumes "retries_at_most N (r_RetryOnConflict r)"
  shows "calls (length (getDesiredRevisions mr) * (4 * Suc N + 3) + 2 * Suc N) (reconcileRevisions A r mr p)"
proof -
  have overall: "calls (Suc N * 2) (updateOverallPhase r mr' refs b)" for mr' refs b
    unfolding calls_def updateOverallPhase_def
    by (intro spec_if calls_spec [OF calls_mr_steps(1) [OF assms]] spec_return) simp
  show ?thesis
    unfolding calls_def reconcileRevisions_def Let_def
    by (intro spec_if spec_return spec_bind [OF calls_spec [OF calls_reconcile_each [OF assms]]] spec_intros
          spec_bind [OF calls_spec [OF overall]]) (simp_all add: algebra_simps)
qed

lemma calls_CreateProvider: "calls 1 (CreateProvider r mr)"
  unfolding calls_def CreateProvider_def SelectBestStorageClass_def DiscoverStorageClasses_def
  by (intro spec_intros) simp_all

lemma calls_CreateStorage: "calls 2 (CreateStorage r p ns)"
  unfolding calls_def CreateStorage_def by (intro spec_intros) simp_all

lemma calls_updateStorageStatus:
  assumes "retries_at_most N (r_RetryOnConflict r)"
  shows "calls (2 + 2 * Suc N) (updateStorageStatus r mr p)"
proof -
  have get: "calls 2 (GetStorageStatus r p ns)" for ns
    unfolding calls_def GetStorageStatus_def by (intro spec_intros) simp_all
  have sync: "calls (Suc N * 2) (mr_syncStatus r mr f)" for f
    unfolding mr_syncStatus_def by (rule calls_sync_status [OF assms])
  show ?thesis
    unfolding calls_def updateStorageStatus_def
    by (intro spec_bind [OF calls_spec [OF get]] spec_sum spec_return spec_conseq [OF calls_spec [OF sync]]) simp_all
qed

text \<open>The repositories answered have at most \<open>k\<close> desired revisions, the lists of jobs at most \<open>j\<close> jobs.\<close>

fun few_revisions :: "nat \<Rightarrow> nat \<Rightarrow> event \<Rightarrow> bool" where
  "few_revisions k j (OnRepo (Get _ (Inr mr))) = (length (getDesiredRevisions mr) \<le> k)"
| "few_revisions k j (OnRepo (Update _ (Inr mr))) = (length (getDesiredRevisions mr) \<le> k)"
| "few_revisions k j (OnJob (ListOf _ _ (Inr jobs))) = (length jobs \<le> j)"
| "few_revisions k j _ = True"

text \<open>The repository that the revisions are taken from was answered in this run or is the one given.\<close>

lemma spec_reconcileStorage_calls:
  assumes "retries_at_most N (r_RetryOnConflict r)"
  shows "spec (reconcileStorage r mr p) (\<lambda>res evs. length evs \<le> 6 + 2 * Suc N \<and>
    (\<forall>mr' p'. res = Some (Inr (mr', p')) \<longrightarrow> length (getDesiredRevisions mr) \<le> k \<longrightarrow> list_all (few_revisions k j) evs \<longrightarrow>
       length (getDesiredRevisions mr') \<le> k))"
  unfolding reconcileStorage_def
  by (intro spec_option spec_sum spec_if spec_return spec_intros spec_bind [OF calls_spec [OF calls_mr_steps(1) [OF assms]]]
        spec_bind [OF calls_spec [OF calls_CreateStorage]] spec_bind [OF calls_spec [OF calls_updateStorageStatus [OF assms]]]
        spec_bind [OF calls_spec [OF calls_CreateProvider]]) auto

lemma spec_mr_handleDeletion_calls:
  assumes "retries_at_most N (r_RetryOnConflict r)"
  shows "spec (mr_handleDeletion r mr provider) (\<lambda>_ evs. list_all (few_revisions k j) evs \<longrightarrow> length evs \<le> j + 5 + 2 * Suc N)"
proof -
  have jobs: "calls (length items) (delete_jobs r items)" for items
  proof (induction items)
    case (Cons job items)
    show ?case
      unfolding calls_def delete_jobs.simps by (intro spec_intros spec_conseq [OF calls_spec [OF Cons.IH]]) simp
  qed (simp add: calls_def spec_return)
  have cleanup: "calls 3 (Cleanup r p ns)" for p ns
    unfolding calls_def Cleanup_def delete_claim_def by (intro spec_intros) simp_all
  have fin: "calls (Suc N * 2) (mr_remove_finalizer r mr)"
    unfolding mr_remove_finalizer_def by (rule calls_retry [OF assms], unfold calls_def) (intro spec_intros; simp)
  have clean: "spec (clean_up_repository r mr provider) (\<lambda>_ evs. list_all (few_revisions k j) evs \<longrightarrow> length evs \<le> j + 4)"
    unfolding clean_up_repository_def
    by (intro spec_intros spec_bind [OF calls_spec [OF jobs]] spec_bind [OF calls_spec [OF cleanup]]) auto
  show ?thesis
    unfolding mr_handleDeletion_def Let_def
    by (intro spec_intros spec_bind [OF calls_spec [OF calls_mr_steps(1) [OF assms]]] spec_bind [OF clean]
          spec_conseq [OF calls_spec [OF fin]]) auto
qed

text \<open>
  (C39) Every run of the repository's reconciler comes to an end: where the repository read has at
  most \<open>k\<close> desired revisions and the cluster at most \<open>j\<close> of its jobs, a run makes at most
  \<open>k (4 R + 3) + j + 4 R + 9\<close> API calls, deletion included, whatever the API server answers.
\<close>

theorem repository_run_bounded:
  assumes "retries_at_most N (r_RetryOnConflict r)"
  shows "spec (mr_Reconcile A r req) (\<lambda>_ evs. list_all (few_revisions k j) evs \<longrightarrow>
    length evs \<le> k * (4 * Suc N + 3) + j + 4 * Suc N + 9)"
proof -
  define M where "M = k * (4 * Suc N + 3)"
  have M: "n * (4 * Suc N + 3) \<le> M" if "n \<le> k" for n
    unfolding M_def using that by (rule mult_le_mono1)
  have revs: "spec (reconcileRevisions A r mr p) (\<lambda>_ evs. length (getDesiredRevisions mr) \<le> k \<longrightarrow> length evs \<le> M + 2 * Suc N)" for mr p
    by (rule spec_conseq [OF calls_spec [OF calls_reconcileRevisions [OF assms]]])
      (use M in fastforce)
  have live: "spec (mr_reconcile_live A r mr p) (\<lambda>_ evs. length (getDesiredRevisions mr) \<le> k \<longrightarrow> list_all (few_revisions k j) evs \<longrightarrow>
      length evs \<le> M + 4 * Suc N + 7)" for mr p
    unfolding mr_reconcile_live_def
    by (intro spec_intros spec_bind [OF spec_reconcileStorage_calls [OF assms, of _ _ k j]] spec_conseq [OF revs]) auto
  show ?thesis
    unfolding mr_Reconcile_def mr_reconcile_found_def M_def [symmetric]
    by (intro spec_intros spec_bind [OF calls_spec [OF calls_CreateProvider]]
          spec_bind [OF spec_mr_handleDeletion_calls [OF assms, of _ _ k j]] spec_bind [OF calls_spec [OF calls_mr_steps(1) [OF assms]]]
          spec_conseq [OF live]) auto
qed

theorem repository_run_bounded_witness:
  "spec (mr_Reconcile all_assets mem_reconciler ([], ''llama'')) (\<lambda>_ evs.
     if list_all (few_revisions 1 1) evs then length evs \<le> 53 else True)"
  by (rule spec_conseq [OF repository_run_bounded [of 4 mem_reconciler all_assets "([], ''llama'')" 1 1]])
    (simp_all add: mem_reconciler_def retries_at_most_attempts)

end
