(* ===== verification/Replay.thy ===== *)
theory Replay
  imports LLMEngine_Controller ModelRepo_Controller
begin

text \<open>
  What the log of a run means: it is the sequence of calls that the run made on the cluster, and
  nothing but these calls changes the cluster. \<open>replays C w evs w'\<close> executes the calls of a log on
  a client from cluster \<open>w\<close>, checks that each gets the answer that was logged, and ends in \<open>w'\<close>;
  \<open>logged C m\<close> says that every run of \<open>m\<close> is replayed by its log. With it, what the other
  theories prove of logs becomes a statement about the state of the cluster.
\<close>

section \<open>Replaying a log\<close>

fun call_runs :: "('w, 'o) rclient \<Rightarrow> 'o call \<Rightarrow> 'w \<Rightarrow> 'w \<Rightarrow> bool" where
  "call_runs rc (Get k x) w w' = (run_state (rc_Get rc k) w = (x, w'))"
| "call_runs rc (ListOf ns ls x) w w' = (run_state (rc_List rc ns ls) w = (x, w'))"
| "call_runs rc (Create obj e) w w' = (run_state (rc_Create rc obj) w = (e, w'))"
| "call_runs rc (Update obj x) w w' = (run_state (rc_Update rc obj) w = (x, w'))"
| "call_runs rc (StatusUpdate obj x) w w' = (run_state (rc_StatusUpdate rc obj) w = (x, w'))"
| "call_runs rc (Delete k bg e) w w' = (run_state (rc_Delete rc k bg) w = (e, w'))"
| "call_runs rc (Apply obj e) w w' = (run_state (rc_Apply rc obj) w = (e, w'))"

fun event_runs :: "'w client \<Rightarrow> event \<Rightarrow> 'w \<Rightarrow> 'w \<Rightarrow> bool" where
  "event_runs C (OnRepo c) w w' = call_runs (cl_Repo C) c w w'"
| "event_runs C (OnEngine c) w w' = call_runs (cl_Engine C) c w w'"
| "event_runs C (OnPVC c) w w' = call_runs (cl_PVC C) c w w'"
| "event_runs C (OnPV c) w w' = call_runs (cl_PV C) c w w'"
| "event_runs C (OnJob c) w w' = call_runs (cl_Job C) c w w'"
| "event_runs C (OnDeployment c) w w' = call_runs (cl_Deployment C) c w w'"
| "event_runs C (OnService c) w w' = call_runs (cl_Service C) c w w'"
| "event_runs C (OnConfigMap c) w w' = call_runs (cl_ConfigMap C) c w w'"
| "event_runs C (OnStorageClass c) w w' = call_runs (cl_StorageClass C) c w w'"
| "event_runs C (OnNode c) w w' = call_runs (cl_Node C) c w w'"

inductive replays :: "'w client \<Rightarrow> 'w \<Rightarrow> event list \<Rightarrow> 'w \<Rightarrow> bool" for C where
  stop: "replays C w [] w"
| call: "event_runs C e w w1 \<Longrightarrow> replays C w1 evs w2 \<Longrightarrow> replays C w (e # evs) w2"

inductive_simps replays_simps [simp]: "replays C w [] w'" "replays C w (e # evs) w'"

lemma replays_append: "replays C w (a @ b) w' = (\<exists>w1. replays C w a w1 \<and> replays C w1 b w')"
  by (induction a arbitrary: w) auto

section \<open>Computations that only act through the client\<close>

named_theorems logged_intros

definition logged :: "'w client \<Rightarrow> ('w, 'a) kio \<Rightarrow> bool" where
  "logged C m = (\<forall>s x s'. run_state m s = (x, s') \<longrightarrow>
     (\<exists>evs. trace s' = trace s @ evs \<and> replays C (world s) evs (world s')))"

lemma loggedE:
  assumes "logged C m" and "run_state m s = (x, s')"
  obtains evs where "trace s' = trace s @ evs" and "replays C (world s) evs (world s')"
  using assms unfolding logged_def by blast

lemma logged_return [logged_intros]: "logged C (ret x)"
  by (auto simp: logged_def)

lemma logged_bind [logged_intros]:
  assumes "logged C m" and "\<And>x. logged C (f x)"
  shows "logged C (State_Monad.bind m f)"
  unfolding logged_def
proof (intro allI impI)
  fix s y s2
  assume run: "run_state (State_Monad.bind m f) s = (y, s2)"
  obtain x s1 where m: "run_state m s = (x, s1)" by fastforce
  with run have f: "run_state (f x) s1 = (y, s2)" by simp
  from loggedE [OF assms(1) m] obtain e1 where "trace s1 = trace s @ e1" "replays C (world s) e1 (world s1)" .
  moreover from loggedE [OF assms(2) f] obtain e2 where "trace s2 = trace s1 @ e2" "replays C (world s1) e2 (world s2)" .
  ultimately show "\<exists>evs. trace s2 = trace s @ evs \<and> replays C (world s) evs (world s2)"
    by (intro exI [of _ "e1 @ e2"]) (auto simp: replays_append)
qed

lemma logged_branch [logged_intros]:
  "(b \<Longrightarrow> logged C m) \<Longrightarrow> (\<not> b \<Longrightarrow> logged C n) \<Longrightarrow> logged C (if b then m else n)"
  "(\<And>u. x = Inl u \<Longrightarrow> logged C (f u)) \<Longrightarrow> (\<And>v. x = Inr v \<Longrightarrow> logged C (g v)) \<Longrightarrow>
     logged C (case x of Inl u \<Rightarrow> f u | Inr v \<Rightarrow> g v)"
  "(y = None \<Longrightarrow> logged C m') \<Longrightarrow> (\<And>z. y = Some z \<Longrightarrow> logged C (h z)) \<Longrightarrow>
     logged C (case y of None \<Rightarrow> m' | Some z \<Rightarrow> h z)"
  "(\<And>a c. p = (a, c) \<Longrightarrow> logged C (l a c)) \<Longrightarrow> logged C (case p of (a, c) \<Rightarrow> l a c)"
  "(\<And>v. y' = Some v \<Longrightarrow> logged C (k v)) \<Longrightarrow> logged C (or_panic y' k)"
  by (auto simp: or_panic_def intro: logged_return split: sum.splits option.splits prod.splits)

text \<open>Each kind of object is served by its own client.\<close>

definition serves_kind :: "'w client \<Rightarrow> ('o call \<Rightarrow> event) \<Rightarrow> ('w, 'o) rclient \<Rightarrow> bool" where
  "serves_kind C on rc = (\<forall>c w w'. event_runs C (on c) w w' = call_runs rc c w w')"

lemma serves_kinds [logged_intros]:
  "serves_kind C OnRepo (cl_Repo C)" "serves_kind C OnEngine (cl_Engine C)" "serves_kind C OnPVC (cl_PVC C)"
  "serves_kind C OnPV (cl_PV C)" "serves_kind C OnJob (cl_Job C)" "serves_kind C OnDeployment (cl_Deployment C)"
  "serves_kind C OnService (cl_Service C)" "serves_kind C OnConfigMap (cl_ConfigMap C)"
  "serves_kind C OnStorageClass (cl_StorageClass C)" "serves_kind C OnNode (cl_Node C)"
  by (simp_all add: serves_kind_def)

lemma logged_perform:
  assumes "\<And>w x w'. run_state act w = (x, w') \<Longrightarrow> event_runs C (ev x) w w'"
  shows "logged C (perform ev act)"
  using assms by (auto simp: logged_def run_state_perform split: prod.splits)

lemma logged_api [logged_intros]:
  assumes "serves_kind C on rc"
  shows "logged C (api_Get on rc k)" "logged C (api_List on rc ns ls)" "logged C (api_Create on rc obj)"
    "logged C (api_Update on rc obj)" "logged C (api_StatusUpdate on rc obj)" "logged C (api_Delete on rc k bg)"
    "logged C (api_Apply on rc obj)"
  using assms unfolding api_defs serves_kind_def by (auto intro!: logged_perform)

lemma logged_attempts: "logged C m \<Longrightarrow> logged C (attempts n m)"
proof (induction n)
  case (Suc n)
  show ?case
    unfolding attempts.simps using Suc.prems Suc.IH [OF Suc.prems] by (intro logged_intros)
qed simp

lemma logged_retry:
  assumes "retries_conflicts retry" and "logged C m"
  shows "logged C (retry m)"
  unfolding logged_def
proof (intro allI)
  fix s x s'
  from assms(1) obtain n where n: "run_state (retry m) s = run_state (attempts n m) s"
    by (auto simp: retries_conflicts_def)
  show "run_state (retry m) s = (x, s') \<longrightarrow> (\<exists>evs. trace s' = trace s @ evs \<and> replays C (world s) evs (world s'))"
    unfolding n using logged_attempts [OF assms(2), of n] by (simp add: logged_def)
qed

lemma logged_sync_status:
  "retries_conflicts retry \<Longrightarrow> serves_kind C on rc \<Longrightarrow> logged C (sync_status on rc retry equal sof put key f)"
  unfolding sync_status_def Let_def by (erule logged_retry) (intro logged_intros)

section \<open>The operator only acts through its client\<close>

abbreviation logs :: "'w reconciler \<Rightarrow> ('w, 'a) kio \<Rightarrow> bool" where
  "logs r m \<equiv> logged (r_Client r) m"

text \<open>Storage.\<close>

lemma logged_storage [logged_intros]:
  "logs r (CreateProvider r mr)" "logs r (CreateStorage r p ns)" "logs r (Cleanup r p ns)" "logs r (GetStorageStatus r p ns)"
  unfolding CreateProvider_def SelectBestStorageClass_def DiscoverStorageClasses_def CreateStorage_def Cleanup_def
    delete_claim_def GetStorageStatus_def Let_def
  by (intro logged_intros)+

lemma logged_engine_storage [logged_intros]:
  "logs r (EnsureLLMEngineStorage r le mr)" "logs r (CleanupLLMEngineStorage r le repo)"
  unfolding EnsureLLMEngineStorage_def ensure_pv_def ensure_pvc_def CleanupLLMEngineStorage_def release_pvc_def release_pv_def Let_def
  by (intro logged_intros)+

text \<open>The repository's reconciler.\<close>

lemma logged_mr_steps:
  assumes "retries_conflicts (r_RetryOnConflict r)"
  shows "logs r (mr_setCondition r mr t st reason msg)" "logs r (updateRevisionStatus r mr rs)"
    "logs r (mark_revision r mr rs' st')" "logs r (updateStorageStatus r mr p)" "logs r (mr_remove_finalizer r mr)"
  unfolding mr_setCondition_def mark_revision_def updateRevisionStatus_def updateStorageStatus_def mr_syncStatus_def
    mr_remove_finalizer_def
  by (intro logged_intros logged_sync_status logged_retry [OF assms] assms)+

lemma logged_delete_jobs [logged_intros]: "logs r (delete_jobs r jobs)"
  by (induction jobs) (auto intro!: logged_intros)

lemma logged_revision:
  assumes "retries_conflicts (r_RetryOnConflict r)"
  shows "logs r (reconcileRevision A r mr p ref)"
  unfolding reconcileRevision_def createDownloadJob_def deleteStaleCleanupJob_def submit_download_job_def handleJobStatus_def Let_def
  by (intro logged_intros logged_mr_steps assms)

lemma logged_reconcile_each:
  assumes "retries_conflicts (r_RetryOnConflict r)"
  shows "logs r (reconcile_each A r mr p refs b)"
proof (induction refs arbitrary: mr p b)
  case (Cons ref refs)
  show ?case unfolding reconcile_each.simps by (intro logged_intros logged_revision assms Cons.IH)
qed (simp add: logged_return)

lemma logged_mr_handlers:
  assumes "retries_conflicts (r_RetryOnConflict r)"
  shows "logs r (mr_handleDeletion r mr po)" "logs r (reconcileStorage r mr p)" "logs r (reconcileRevisions A r mr p)"
  unfolding mr_handleDeletion_def clean_up_repository_def reconcileStorage_def reconcileRevisions_def updateOverallPhase_def Let_def
  by (intro logged_intros logged_mr_steps logged_reconcile_each assms)+

lemma logged_mr_Reconcile:
  assumes "retries_conflicts (r_RetryOnConflict r)"
  shows "logs r (mr_reconcile_live A r mr p)" "logs r (mr_reconcile_found A r mr)" "logs r (mr_Reconcile A r req)"
proof -
  show live: "logs r (mr_reconcile_live A r mr p)" for mr p
    unfolding mr_reconcile_live_def by (intro logged_intros logged_mr_handlers assms)
  show "logs r (mr_reconcile_found A r mr)" for mr
    unfolding mr_reconcile_found_def by (intro logged_intros logged_mr_steps logged_mr_handlers live assms)
  then show "logs r (mr_Reconcile A r req)"
    unfolding mr_Reconcile_def by (intro logged_intros)
qed

text \<open>The engine's reconciler.\<close>

lemma logged_le_steps:
  assumes "retries_conflicts (r_RetryOnConflict r)"
  shows "logs r (le_syncStatus r le f)" "logs r (setNotReady r le reason msg)" "logs r (write_references r repo refs)"
    "logs r (le_remove_finalizer r le)"
  unfolding setNotReady_def le_syncStatus_def write_references_def le_remove_finalizer_def
  by (intro logged_intros logged_sync_status logged_retry [OF assms] assms)+

lemma logged_updateReferencedEngines:
  assumes "retries_conflicts (r_RetryOnConflict r)"
  shows "logs r (updateReferencedEngines r names)"
proof -
  have "logs r (write_each r m repos)" for m repos
    by (induction repos) (auto intro!: logged_intros logged_le_steps assms)
  then show ?thesis
    unfolding updateReferencedEngines_def by (intro logged_intros)
qed

lemma logged_loops [logged_intros]:
  "logs r (fetch_each r refs)" "logs r (cleanup_each r le refs)" "logs r (ensure_each r le mrs m)"
proof -
  show "logs r (fetch_each r refs)" "logs r (cleanup_each r le refs)"
    by (induction refs) (auto intro!: logged_intros)
  show "logs r (ensure_each r le mrs m)"
    by (induction mrs arbitrary: m) (auto intro!: logged_intros)
qed

lemma logged_workload_parts:
  "logs (ce_Reconciler E) (reconcileManifests E ctx ms)" "logs (ce_Reconciler E) (reconcileDeployment E w ctx)"
  "logs (ce_Reconciler E) (reconcileService E w ctx)"
proof -
  have own: "logs (ce_Reconciler E) (own_and_apply E ctx a b obj)" for a b obj
    unfolding own_and_apply_def serverSideApply_def api_Apply_object_def Let_def
    by (cases obj) (intro logged_intros | simp)+
  show "logs (ce_Reconciler E) (reconcileManifests E ctx ms)"
    by (induction ms) (auto simp: reconcileManifest_def Let_def intro!: logged_intros own)
  show "logs (ce_Reconciler E) (reconcileDeployment E w ctx)" "logs (ce_Reconciler E) (reconcileService E w ctx)"
    unfolding reconcileDeployment_def reconcileService_def Let_def by (intro logged_intros own)+
qed

lemma logged_workload [logged_intros]: "logs (ce_Reconciler E) (wl_Reconcile E w ctx)"
  unfolding wl_Reconcile_def updateResources_def deleteResources_def by (intro logged_intros logged_workload_parts)

lemma logged_serve_each [logged_intros]: "logs (ce_Reconciler E) (serve_each E le claims mrs n)"
proof (induction mrs arbitrary: n)
  case (Cons mr mrs)
  show ?case unfolding serve_each.simps by (intro logged_intros Cons.IH)
qed (simp add: logged_return)

lemma logged_le_Reconcile:
  assumes "retries_conflicts (r_RetryOnConflict (ce_Reconciler E))"
  shows "logs (ce_Reconciler E) (le_Reconcile E req)"
  unfolding le_Reconcile_def le_handleDeletion_def fetchModelRepositories_def reconcile_models_def prepare_and_serve_def
    serve_models_def validateGPUAvailability_def Let_def
  by (intro logged_intros logged_le_steps logged_updateReferencedEngines assms)

end
