(* ===== verification/Cluster_States.thy ===== *)
theory Cluster_States
  imports Replay
begin

text \<open>
  The operator as a state machine over the cluster. A step is a run of one of the two reconcilers
  for any request, or a change by somebody else; other writers may also act while a run is under
  way, within its calls. \<open>reachable\<close> are the states such steps lead to. What a kind of object
  keeps (\<open>kept\<close>: a call answers what is stored, and afterwards is stored what was, what the call
  wrote, or what others wrote in keeping with the invariant) together with what the reconcilers
  write in answer to good reads (\<open>guarded\<close>) makes a property of objects an invariant of all
  reachable states, by rule induction.
\<close>

section \<open>Reachable states\<close>

definition start_run :: "'w \<Rightarrow> ('w, event) sys" where
  "start_run w = \<lparr>world = w, trace = []\<rparr>"

inductive reachable ::
  "assets \<Rightarrow> 'w component_env \<Rightarrow> ('w \<Rightarrow> bool) \<Rightarrow> ('w \<Rightarrow> 'w \<Rightarrow> bool) \<Rightarrow> 'w \<Rightarrow> bool" for A E init others where
  start: "init w \<Longrightarrow> reachable A E init others w"
| repository: "reachable A E init others w \<Longrightarrow>
     run_state (mr_Reconcile A (ce_Reconciler E) req) (start_run w) = (out, s) \<Longrightarrow> reachable A E init others (world s)"
| engine: "reachable A E init others w \<Longrightarrow>
     run_state (le_Reconcile E req) (start_run w) = (out, s) \<Longrightarrow> reachable A E init others (world s)"
| other: "reachable A E init others w \<Longrightarrow> others w w' \<Longrightarrow> reachable A E init others w'"

section \<open>What a run keeps\<close>

text \<open>The stored values of a kind, those that a call answers, those that it writes.\<close>

definition kept :: "'w client \<Rightarrow> ('w \<Rightarrow> 's set) \<Rightarrow> (event \<Rightarrow> 's list) \<Rightarrow> (event \<Rightarrow> 's list) \<Rightarrow> ('s \<Rightarrow> bool) \<Rightarrow> bool" where
  "kept C stored answered written I = (\<forall>e w w'. event_runs C e w w' \<longrightarrow>
     set (answered e) \<union> stored w' \<subseteq> stored w \<union> set (written e) \<union> Collect I)"

definition good :: "('s \<Rightarrow> bool) \<Rightarrow> (event \<Rightarrow> 's list) \<Rightarrow> event \<Rightarrow> bool" where
  "good I values e = list_all I (values e)"

lemma replay_keeps:
  assumes "replays C w evs w'" and "kept C stored answered written I"
    and "guarded_log (good I answered) (good I written) evs" and "\<forall>x \<in> stored w. I x"
  shows "\<forall>x \<in> stored w'. I x"
  using assms(1,3,4)
proof induction
  case (call e w w1 evs w2)
  from call.prems(1) have "good I written e" by simp
  with assms(2) call.hyps(1) call.prems(2) have "good I answered e" "\<forall>x \<in> stored w1. I x"
    unfolding kept_def good_def list_all_iff by blast+
  with call.prems(1) show ?case by (intro call.IH) simp_all
qed simp

lemma run_keeps:
  assumes "logged C m" and "guarded (good I answered) (good I written) m" and "kept C stored answered written I"
    and "run_state m (start_run w) = (x, s)" and "\<forall>x \<in> stored w. I x"
  shows "\<forall>x \<in> stored (world s). I x"
proof -
  from loggedE [OF assms(1,4)] have "replays C w (trace s) (world s)"
    by (auto simp: start_run_def)
  moreover have "guarded_log (good I answered) (good I written) (trace s)"
    using spec_run [OF assms(2) [unfolded guarded_def] assms(4)] by (simp add: start_run_def)
  ultimately show ?thesis
    by (rule replay_keeps [OF _ assms(3) _ assms(5)])
qed

text \<open>What everybody keeps holds in every reachable state.\<close>

definition everybody_keeps ::
  "'w client \<Rightarrow> ('w \<Rightarrow> bool) \<Rightarrow> ('w \<Rightarrow> 'w \<Rightarrow> bool) \<Rightarrow> ('w \<Rightarrow> 's set) \<Rightarrow> (event \<Rightarrow> 's list) \<Rightarrow> (event \<Rightarrow> 's list) \<Rightarrow> ('s \<Rightarrow> bool) \<Rightarrow> bool" where
  "everybody_keeps C init others stored answered written I =
     (kept C stored answered written I \<and> (\<forall>w. init w \<longrightarrow> (\<forall>x \<in> stored w. I x)) \<and>
      (\<forall>w w'. others w w' \<longrightarrow> stored w' \<subseteq> stored w \<union> Collect I))"

lemma reachable_keeps:
  assumes "retries_conflicts (r_RetryOnConflict (ce_Reconciler E))"
    and "everybody_keeps (r_Client (ce_Reconciler E)) init others stored answered written I"
    and "\<And>req. guarded (good I answered) (good I written) (mr_Reconcile A (ce_Reconciler E) req)"
    and "\<And>req. guarded (good I answered) (good I written) (le_Reconcile E req)"
    and "reachable A E init others w"
  shows "\<forall>x \<in> stored w. I x"
  using assms(5)
proof induction
  case (repository w req out s)
  from logged_mr_Reconcile(3) [OF assms(1)] assms(3) _ repository(2,3) show ?case
    by (rule run_keeps) (use assms(2) in \<open>simp add: everybody_keeps_def\<close>)
next
  case (engine w req out s)
  from logged_le_Reconcile [OF assms(1)] assms(4) _ engine(2,3) show ?case
    by (rule run_keeps) (use assms(2) in \<open>simp add: everybody_keeps_def\<close>)
qed (use assms(2) in \<open>fastforce simp: everybody_keeps_def\<close>)+

section \<open>What the reconcilers write\<close>

fun repo_answers :: "event \<Rightarrow> ModelRepositoryStatus list" where
  "repo_answers (OnRepo (Get k (Inr x))) = [mr_Status x]"
| "repo_answers _ = []"

fun repo_writes :: "event \<Rightarrow> ModelRepositoryStatus list" where
  "repo_writes (OnRepo (StatusUpdate x u)) = [mr_Status x]"
| "repo_writes (OnRepo (Create x e)) = [mr_Status x]"
| "repo_writes (OnRepo (Apply x e)) = [mr_Status x]"
| "repo_writes _ = []"

fun engine_writes :: "event \<Rightarrow> LLMEngineStatus list" where
  "engine_writes (OnEngine (StatusUpdate x u)) = [le_Status x]"
| "engine_writes (OnEngine (Create x e)) = [le_Status x]"
| "engine_writes (OnEngine (Apply x e)) = [le_Status x]"
| "engine_writes _ = []"

fun pv_answers :: "event \<Rightarrow> PersistentVolume list" where
  "pv_answers (OnPV (Get k (Inr x))) = [x]"
| "pv_answers _ = []"

fun pv_writes :: "event \<Rightarrow> PersistentVolume list" where
  "pv_writes (OnPV (Create x e)) = [x]"
| "pv_writes (OnPV (Update x u)) = [x]"
| "pv_writes (OnPV (StatusUpdate x u)) = [x]"
| "pv_writes (OnPV (Apply x e)) = [x]"
| "pv_writes _ = []"

text \<open>A kind whose statuses are all derived anew: what is read does not matter.\<close>

definition no_answers :: "event \<Rightarrow> 's list" where
  "no_answers e = []"

lemma good_repo: "good I repo_answers = repo_read_ok I" "good I repo_writes = repo_write_ok I"
  by (auto simp: fun_eq_iff good_def repo_read_ok_def repo_write_ok_def split: event.splits call.splits sum.splits)

lemma good_engine_writes: "engine_write_ok L e \<Longrightarrow> good (le_status.consistent L) engine_writes e"
  by (auto simp: good_def engine_write_ok_def le_status.consistent_def split: event.splits call.splits)

lemma repo_write_ok_more [simp]:
  "workload_event e \<Longrightarrow> repo_write_ok I e" "volume_event e \<Longrightarrow> repo_write_ok I e" "repo_write_ok I (OnNode c)"
  by (auto simp: repo_write_ok_def workload_event_def volume_event_def split: event.splits)

text \<open>The engine's reconciler writes one field of a repository's status, the references.\<close>

lemma guarded_write_references:
  assumes "retries_conflicts (r_RetryOnConflict r)" and "\<And>s refs. I s \<Longrightarrow> I (s\<lparr>mst_ReferencedEngines := refs\<rparr>)"
  shows "guarded (repo_read_ok I) (repo_write_ok I) (write_references r repo refs)"
  unfolding write_references_def
  by (rule guarded_retry [OF assms(1)], unfold guarded_def, intro spec_intros)
    (simp_all add: repo_read_ok_def repo_write_ok_def assms(2))

lemma guarded_updateReferences:
  assumes "retries_conflicts (r_RetryOnConflict r)" and "\<And>s refs. I s \<Longrightarrow> I (s\<lparr>mst_ReferencedEngines := refs\<rparr>)"
  shows "guarded (repo_read_ok I) (repo_write_ok I) (updateReferencedEngines r names)"
proof -
  have "guarded (repo_read_ok I) (repo_write_ok I) (write_each r m repos)" for m repos
    by (induction repos) (auto intro!: guarded_intros guarded_write_references assms)
  then show ?thesis
    unfolding updateReferencedEngines_def by (intro guarded_intros) simp_all
qed

lemma guarded_le_Reconcile_repos:
  assumes "retries_conflicts (r_RetryOnConflict (ce_Reconciler E))"
    and "\<And>s refs. I s \<Longrightarrow> I (s\<lparr>mst_ReferencedEngines := refs\<rparr>)"
  shows "guarded (repo_read_ok I) (repo_write_ok I) (le_Reconcile E req)"
proof -
  let ?r = "ce_Reconciler E"
  have events: "all_events (repo_write_ok I) (serve_each E le claims mrs n)" "all_events (repo_write_ok I) (ensure_each ?r le mrs m)"
    "all_events (repo_write_ok I) (cleanup_each ?r le refs)" "all_events (repo_write_ok I) (fetch_each ?r refs)"
    "all_events (repo_write_ok I) (validateGPUAvailability ?r le name)" "all_events (repo_write_ok I) (le_remove_finalizer ?r le)"
    "all_events (repo_write_ok I) (setNotReady ?r le reason msg)" "all_events (repo_write_ok I) (le_syncStatus ?r le f)"
    for le claims mrs n m refs name reason msg f
    by (rule all_events_mono [OF all_events_serve_each] all_events_mono [OF all_events_ensure_each]
          all_events_mono [OF all_events_cleanup_each] all_events_fetch all_events_validate
          all_events_le_remove_finalizer [OF assms(1)] all_events_setNotReady [OF assms(1)] all_events_le_sync [OF assms(1)]; simp)+
  show ?thesis
    unfolding le_Reconcile_def le_handleDeletion_def fetchModelRepositories_def reconcile_models_def prepare_and_serve_def
      serve_models_def Let_def
    by (intro guarded_intros guarded_updateReferences assms events [THEN guarded_all_events]; simp)
qed

text \<open>The repository's reconciler writes neither engines nor volumes.\<close>

definition repo_side :: "event \<Rightarrow> bool" where
  "repo_side e = (engine_writes e = [] \<and> pv_writes e = [])"

lemma mr_Reconcile_repo_side:
  assumes "retries_conflicts (r_RetryOnConflict r)"
  shows "all_events repo_side (mr_Reconcile A r req)"
proof -
  have steps: "all_events repo_side (mr_setCondition r mr t st reason msg)"
    "all_events repo_side (updateRevisionStatus r mr rs)" "all_events repo_side (mark_revision r mr rs st)"
    "all_events repo_side (mr_syncStatus r mr f)"
    for mr t st reason msg rs f
    by (intro all_events_status [OF assms] all_events_mr_sync [OF assms]; simp add: repo_side_def)+
  have final: "all_events repo_side (mr_remove_finalizer r mr)" for mr
    unfolding mr_remove_finalizer_def by (rule all_events_retry [OF assms]) (intro event_intros; simp add: repo_side_def)
  have jobs: "all_events repo_side (delete_jobs r js)" for js
    by (induction js) (auto simp: repo_side_def intro!: event_intros)
  have revision: "all_events repo_side (reconcileRevision A r mr p ref)" for mr p ref
    unfolding reconcileRevision_def createDownloadJob_def deleteStaleCleanupJob_def submit_download_job_def handleJobStatus_def Let_def
    by (intro event_intros steps; simp add: repo_side_def assms)
  have each: "all_events repo_side (reconcile_each A r mr p refs b)" for mr p refs b
  proof (induction refs arbitrary: mr p b)
    case (Cons ref refs)
    show ?case unfolding reconcile_each.simps by (intro event_intros revision Cons.IH)
  qed (simp add: all_events_return)
  show ?thesis
    unfolding mr_Reconcile_def mr_reconcile_found_def mr_reconcile_live_def mr_handleDeletion_def clean_up_repository_def
      reconcileStorage_def reconcileRevisions_def updateOverallPhase_def updateStorageStatus_def CreateProvider_def
      SelectBestStorageClass_def DiscoverStorageClasses_def CreateStorage_def Cleanup_def delete_claim_def GetStorageStatus_def Let_def
    by (intro event_intros steps final jobs each; simp add: repo_side_def assms)
qed

lemma repo_side_good:
  "repo_side e \<Longrightarrow> good I engine_writes e" "repo_side e \<Longrightarrow> good J pv_writes e"
  by (simp_all add: repo_side_def good_def)

section \<open>Mirrors of volumes\<close>

text \<open>
  The label that the operator puts on the volumes it makes for engines, and what such a volume
  must be: retained when its claim is deleted, read-only-many, and of one of four kinds: NFS, CSI or
  CephFS with the read-only flag set, or a host path, which has no such flag in Kubernetes and is
  then a directory that exists, never one that is made.
\<close>

definition harmless_source :: "PersistentVolumeSource \<Rightarrow> bool" where
  "harmless_source src =
     ((\<exists>nfs. nfs_ReadOnly nfs \<and> src = noVolumeSource\<lparr>pvs_NFS := Some nfs\<rparr>) \<or>
      (\<exists>csi. csi_ReadOnly csi \<and> src = noVolumeSource\<lparr>pvs_CSI := Some csi\<rparr>) \<or>
      (\<exists>ceph. ceph_ReadOnly ceph \<and> src = noVolumeSource\<lparr>pvs_CephFS := Some ceph\<rparr>) \<or>
      (\<exists>path. src = noVolumeSource\<lparr>pvs_HostPath := Some \<lparr>hp_Path = path, hp_Type = Some ''Directory''\<rparr>\<rparr>))"

definition harmless_mirror :: "PersistentVolume \<Rightarrow> bool" where
  "harmless_mirror pv = (map_of (om_Labels (pv_Meta pv)) ''llmengine.aitrigram.cliver-project.github.io'' = None \<or>
     pv_ReclaimPolicy (pv_Spec pv) = ''Retain'' \<and> pv_AccessModes (pv_Spec pv) = [ReadOnlyMany] \<and>
     harmless_source (pv_Source (pv_Spec pv)))"

lemma harmless_kinds:
  "nfs_ReadOnly nfs \<Longrightarrow> harmless_source (noVolumeSource\<lparr>pvs_NFS := Some nfs\<rparr>)"
  "csi_ReadOnly csi \<Longrightarrow> harmless_source (noVolumeSource\<lparr>pvs_CSI := Some csi\<rparr>)"
  "ceph_ReadOnly ceph \<Longrightarrow> harmless_source (noVolumeSource\<lparr>pvs_CephFS := Some ceph\<rparr>)"
  "harmless_source (noVolumeSource\<lparr>pvs_HostPath := Some \<lparr>hp_Path = path, hp_Type = Some ''Directory''\<rparr>\<rparr>)"
  unfolding harmless_source_def by blast+

lemma mirror_source_harmless: "mirror_source br st = Inr (src, aff) \<Longrightarrow> harmless_source src"
  by (auto simp: mirror_source_def Let_def intro: harmless_kinds split: if_splits)

lemma engine_pv_harmless:
  "buildReadOnlyPVSpec L br st = Some (Inr pvSpec) \<Longrightarrow> harmless_mirror (engine_pv L le repo name name' pvSpec)"
  by (cases "mirror_source br st")
    (auto simp: buildReadOnlyPVSpec_def harmless_mirror_def engine_pv_def bind_eq_Some_conv Let_def dest: mirror_source_harmless)

lemma harmless_finalizers [simp]:
  "harmless_mirror (pv\<lparr>pv_Meta := (pv_Meta pv)\<lparr>om_Finalizers := fs\<rparr>\<rparr>) = harmless_mirror pv"
  by (simp add: harmless_mirror_def)

lemma good_pv_simps [simp]:
  "workload_event e \<Longrightarrow> good I pv_writes e" "reference_event e \<Longrightarrow> good I pv_writes e"
  "good I pv_writes (OnEngine c1)" "good I pv_writes (OnRepo c2)" "good I pv_writes (OnNode c3)" "good I pv_writes (OnPVC c4)"
  by (auto simp: good_def workload_event_def reference_event_def split: event.splits)

lemma guarded_volumes:
  "guarded (good harmless_mirror pv_answers) (good harmless_mirror pv_writes) (EnsureLLMEngineStorage r le mr)"
  "guarded (good harmless_mirror pv_answers) (good harmless_mirror pv_writes) (CleanupLLMEngineStorage r le repo)"
proof -
  show "guarded (good harmless_mirror pv_answers) (good harmless_mirror pv_writes) (EnsureLLMEngineStorage r le mr)"
    unfolding EnsureLLMEngineStorage_def ensure_pv_def ensure_pvc_def Let_def
    by (intro guarded_intros) (simp_all add: good_def engine_pv_harmless)
  show "guarded (good harmless_mirror pv_answers) (good harmless_mirror pv_writes) (CleanupLLMEngineStorage r le repo)"
    unfolding CleanupLLMEngineStorage_def release_pvc_def release_pv_def guarded_def
    by (intro spec_intros) (simp_all add: good_def)
qed

lemma guarded_le_Reconcile_volumes:
  assumes "retries_conflicts (r_RetryOnConflict (ce_Reconciler E))"
  shows "guarded (good harmless_mirror pv_answers) (good harmless_mirror pv_writes) (le_Reconcile E req)"
proof -
  let ?r = "ce_Reconciler E" and ?ok = "good harmless_mirror pv_writes"
  have events: "all_events ?ok (serve_each E le claims mrs n)" "all_events ?ok (fetch_each ?r refs)"
    "all_events ?ok (validateGPUAvailability ?r le name)" "all_events ?ok (le_remove_finalizer ?r le)"
    "all_events ?ok (setNotReady ?r le reason msg)" "all_events ?ok (le_syncStatus ?r le f)"
    "all_events ?ok (updateReferencedEngines ?r names)"
    for le claims mrs n refs name reason msg f names
    by (rule all_events_mono [OF all_events_serve_each] all_events_mono [OF all_events_updateReferences [OF assms]]
          all_events_fetch all_events_validate all_events_le_remove_finalizer [OF assms] all_events_setNotReady [OF assms]
          all_events_le_sync [OF assms]; simp)+
  have loops: "guarded (good harmless_mirror pv_answers) ?ok (cleanup_each ?r le refs)"
    "guarded (good harmless_mirror pv_answers) ?ok (ensure_each ?r le mrs m)" for le refs mrs m
  proof -
    show "guarded (good harmless_mirror pv_answers) ?ok (cleanup_each ?r le refs)"
      by (induction refs) (auto intro!: guarded_intros guarded_volumes)
    show "guarded (good harmless_mirror pv_answers) ?ok (ensure_each ?r le mrs m)"
      by (induction mrs arbitrary: m) (auto intro!: guarded_intros guarded_volumes)
  qed
  show ?thesis
    unfolding le_Reconcile_def le_handleDeletion_def fetchModelRepositories_def reconcile_models_def prepare_and_serve_def
      serve_models_def Let_def
    by (intro guarded_intros loops events [THEN guarded_all_events]; simp)
qed

section \<open>Invariants of all reachable states\<close>

lemma reachable_repo_statuses:
  assumes "retries_conflicts (r_RetryOnConflict (ce_Reconciler E))" and "status_invariant (r_Lib (ce_Reconciler E)) I"
    and "\<And>s refs. I s \<Longrightarrow> I (s\<lparr>mst_ReferencedEngines := refs\<rparr>)"
    and "everybody_keeps (r_Client (ce_Reconciler E)) init others stored repo_answers repo_writes I"
    and "reachable A E init others w"
  shows "\<forall>s \<in> stored w. I s"
  using guarded_mr_Reconcile [OF assms(1,2)] guarded_le_Reconcile_repos [where I = I, OF assms(1,3)]
  by (intro reachable_keeps [OF assms(1,4) _ _ assms(5)]) (simp_all add: good_repo)

lemma consistent_references: "mr_status.consistent L s \<Longrightarrow> mr_status.consistent L (s\<lparr>mst_ReferencedEngines := refs\<rparr>)"
  by (simp add: mr_status.consistent_def)

lemma reachable_engine_statuses:
  assumes "retries_conflicts (r_RetryOnConflict (ce_Reconciler E))"
    and "everybody_keeps (r_Client (ce_Reconciler E)) init others stored no_answers engine_writes
      (le_status.consistent (r_Lib (ce_Reconciler E)))"
    and "reachable A E init others w"
  shows "\<forall>s \<in> stored w. le_status.consistent (r_Lib (ce_Reconciler E)) s"
  by (rule reachable_keeps [OF assms(1,2) _ _ assms(3)]; rule guarded_all_events)
    (rule all_events_mono [OF mr_Reconcile_repo_side [OF assms(1)]] all_events_mono [OF all_events_le_Reconcile [OF assms(1)]];
     simp add: repo_side_good good_engine_writes)+

lemma reachable_volumes:
  assumes "retries_conflicts (r_RetryOnConflict (ce_Reconciler E))"
    and "everybody_keeps (r_Client (ce_Reconciler E)) init others stored pv_answers pv_writes harmless_mirror"
    and "reachable A E init others w"
  shows "\<forall>pv \<in> stored w. harmless_mirror pv"
  by (rule reachable_keeps [OF assms(1,2) _ guarded_le_Reconcile_volumes [OF assms(1)] assms(3)], rule guarded_all_events)
    (rule all_events_mono [OF mr_Reconcile_repo_side [OF assms(1)]], simp add: repo_side_good)

section \<open>The sample cluster\<close>

lemma set_alist_update: "set (AList.update k x xs) \<subseteq> insert (k, x) (set xs)"
  by (induction xs) auto

lemma set_alist_delete: "set (AList.delete k xs) \<subseteq> set xs"
  by (auto simp: AList.delete_eq)

text \<open>A call on one kind changes what is stored of that kind by what it writes, and of no other kind.\<close>

definition mem_stored :: "('w \<Rightarrow> (okey \<times> 'o) list) \<Rightarrow> 'w \<Rightarrow> 'o set" where
  "mem_stored get w = snd ` set (get w)"

lemma mem_call:
  assumes "call_runs (mem_rclient get put meta upd) c w w'" and "\<And>xs w. get (put xs w) = xs"
  shows "mem_stored get w' \<subseteq> mem_stored get w \<union> (case c of Create x e \<Rightarrow> {x} | StatusUpdate x u \<Rightarrow> {x}
    | Apply x e \<Rightarrow> insert x ((\<lambda>old. upd old x) ` mem_stored get w) | Update x u \<Rightarrow> (\<lambda>old. upd old x) ` mem_stored get w | _ \<Rightarrow> {})"
    and "c = Get k (Inr x) \<Longrightarrow> x \<in> mem_stored get w"
proof -
  have update: "mem_stored get (put (AList.update k x (get w)) w) \<subseteq> insert x (mem_stored get w)"
    and delete: "mem_stored get (put (AList.delete k (get w)) w) \<subseteq> mem_stored get w" for k x
    using set_alist_update [of k x "get w"] set_alist_delete [of k "get w"] by (force simp: mem_stored_def assms(2))+
  have found: "map_of (get w) k = Some x \<Longrightarrow> x \<in> mem_stored get w" for k x w
    unfolding mem_stored_def by (force dest: map_of_SomeD)
  show "mem_stored get w' \<subseteq> mem_stored get w \<union> (case c of Create x e \<Rightarrow> {x} | StatusUpdate x u \<Rightarrow> {x}
    | Apply x e \<Rightarrow> insert x ((\<lambda>old. upd old x) ` mem_stored get w) | Update x u \<Rightarrow> (\<lambda>old. upd old x) ` mem_stored get w | _ \<Rightarrow> {})"
    using assms(1)
    by (cases c) (auto simp: mem_rclient_def Let_def split: option.splits if_splits dest!: update [THEN subsetD] delete [THEN subsetD] found)
  show "x \<in> mem_stored get w" if "c = Get k (Inr x)"
    using assms(1) that by (auto simp: mem_rclient_def split: option.splits intro: found)
qed

lemma mem_call_other: "call_runs (mem_rclient get put meta upd) c w w' \<Longrightarrow> w' = w \<or> (\<exists>xs. w' = put xs w)"
  by (cases c) (auto simp: mem_rclient_def Let_def split: option.splits if_splits)

lemma mem_client_kinds [simp]:
  "cl_Repo mem_client = mem_rclient k_Repo (\<lambda>x. k_Repo_update (\<lambda>_. x)) mr_Meta (\<lambda>old x. x\<lparr>mr_Status := mr_Status old\<rparr>)"
  "cl_Engine mem_client = mem_rclient k_Engine (\<lambda>x. k_Engine_update (\<lambda>_. x)) le_Meta (\<lambda>old x. x\<lparr>le_Status := le_Status old\<rparr>)"
  "cl_PV mem_client = mem_rclient k_PV (\<lambda>x. k_PV_update (\<lambda>_. x)) pv_Meta (\<lambda>_ x. x)"
  by (simp_all add: mem_client_def)

lemma mem_other_kinds:
  assumes "event_runs mem_client e w w'"
  shows "(\<forall>c. e \<noteq> OnRepo c) \<longrightarrow> k_Repo w' = k_Repo w" "(\<forall>c. e \<noteq> OnEngine c) \<longrightarrow> k_Engine w' = k_Engine w"
    "(\<forall>c. e \<noteq> OnPV c) \<longrightarrow> k_PV w' = k_PV w"
  using assms by (cases e; fastforce simp: mem_client_def dest: mem_call_other)+

text \<open>So each kind keeps what is stored of it, looked at through \<open>f\<close>.\<close>

lemma mem_kind_kept:
  assumes kind: "\<And>c w w'. event_runs C (on c) w w' = call_runs (mem_rclient get put meta upd) c w w'"
    and get_put: "\<And>xs w. get (put xs w) = xs"
    and other: "\<And>e w w'. event_runs C e w w' \<Longrightarrow> \<forall>c. e \<noteq> on c \<Longrightarrow> get w' = get w"
    and answers: "\<And>e x. x \<in> set (answered e) \<Longrightarrow> \<exists>k y. e = on (Get k (Inr y)) \<and> x = f y"
    and writes: "\<And>x e. f x \<in> set (written (on (Create x e)))" "\<And>x u. f x \<in> set (written (on (StatusUpdate x u)))"
      "\<And>x e. f x \<in> set (written (on (Apply x e)))"
    and update: "\<And>x u old. f (upd old x) = f old \<or> f (upd old x) \<in> set (written (on (Update x u)))"
      "\<And>x e old. f (upd old x) = f old \<or> f (upd old x) \<in> set (written (on (Apply x e)))"
  shows "kept C (\<lambda>w. f ` mem_stored get w) answered written I"
  unfolding kept_def
proof (intro allI impI Un_least)
  fix e w w'
  assume run: "event_runs C e w w'"
  show "set (answered e) \<subseteq> f ` mem_stored get w \<union> set (written e) \<union> Collect I"
  proof
    fix x
    assume "x \<in> set (answered e)"
    with answers obtain k y where "e = on (Get k (Inr y))" "x = f y" by blast
    with run mem_call(2) [where get = get and put = put and meta = meta and upd = upd, OF _ get_put] show "x \<in> f ` mem_stored get w \<union> set (written e) \<union> Collect I"
      by (auto simp: kind)
  qed
  show "f ` mem_stored get w' \<subseteq> f ` mem_stored get w \<union> set (written e) \<union> Collect I"
  proof (cases "\<exists>c. e = on c")
    case True
    then obtain c where e: "e = on c" ..
    let ?new = "case c of Create x e \<Rightarrow> {x} | StatusUpdate x u \<Rightarrow> {x} | Apply x e \<Rightarrow> insert x ((\<lambda>old. upd old x) ` mem_stored get w)
        | Update x u \<Rightarrow> (\<lambda>old. upd old x) ` mem_stored get w | _ \<Rightarrow> {}"
    from run e have "mem_stored get w' \<subseteq> mem_stored get w \<union> ?new"
      by (intro mem_call(1) [where get = get and put = put and meta = meta and upd = upd, OF _ get_put]) (simp add: kind)
    moreover have "f ` ?new \<subseteq> f ` mem_stored get w \<union> set (written (on c))"
    proof (cases c)
      case (Update x u)
      show ?thesis using update(1) [of _ x u] by (auto simp: Update)
    next
      case (Apply x e)
      show ?thesis using update(2) [of _ x e] writes(3) by (auto simp: Apply)
    qed (use writes in auto)
    ultimately show ?thesis
      unfolding e by blast
  next
    case False
    with other [OF run] show ?thesis by (auto simp: mem_stored_def)
  qed
qed

lemma mem_kept:
  "kept mem_client (\<lambda>w. mr_Status ` mem_stored k_Repo w) repo_answers repo_writes I"
  "kept mem_client (\<lambda>w. le_Status ` mem_stored k_Engine w) no_answers engine_writes J"
  "kept mem_client (mem_stored k_PV) pv_answers pv_writes K"
proof -
  have answers: "x \<in> set (repo_answers e) \<Longrightarrow> \<exists>k y. e = OnRepo (Get k (Inr y)) \<and> x = mr_Status y" for x e
    by (induction e rule: repo_answers.induct) auto
  have pv_answers: "x \<in> set (pv_answers e) \<Longrightarrow> \<exists>k. e = OnPV (Get k (Inr x))" for x e
    by (induction e rule: pv_answers.induct) auto
  show "kept mem_client (\<lambda>w. mr_Status ` mem_stored k_Repo w) repo_answers repo_writes I"
    by (rule mem_kind_kept [where on = OnRepo and put = "\<lambda>x. k_Repo_update (\<lambda>_. x)" and upd = "\<lambda>old x. x\<lparr>mr_Status := mr_Status old\<rparr>"]) (simp_all add: mem_other_kinds answers del: split_paired_Ex)
  show "kept mem_client (\<lambda>w. le_Status ` mem_stored k_Engine w) no_answers engine_writes J"
    by (rule mem_kind_kept [where on = OnEngine and put = "\<lambda>x. k_Engine_update (\<lambda>_. x)" and upd = "\<lambda>old x. x\<lparr>le_Status := le_Status old\<rparr>"]) (simp_all add: mem_other_kinds no_answers_def)
  have "kept mem_client (\<lambda>w. (\<lambda>x. x) ` mem_stored k_PV w) pv_answers pv_writes K"
    by (rule mem_kind_kept [where on = OnPV and put = "\<lambda>x. k_PV_update (\<lambda>_. x)" and upd = "\<lambda>_ x. x"]) (simp_all add: mem_other_kinds pv_answers del: split_paired_Ex)
  then show "kept mem_client (mem_stored k_PV) pv_answers pv_writes K" by simp
qed

text \<open>A cluster with the sample repository and engine, where users edit repositories but not their status.\<close>

definition sample_cluster :: cluster where
  "sample_cluster = empty_cluster\<lparr>k_Repo := [(([], ''llama''), sample_repo)],
     k_Engine := [((''team-a'', ''chat''), sample_engine)]\<rparr>"

definition user_edits :: "cluster \<Rightarrow> cluster \<Rightarrow> bool" where
  "user_edits w w' = (\<exists>k mr spec. map_of (k_Repo w) k = Some mr \<and>
     w' = w\<lparr>k_Repo := AList.update k (mr\<lparr>mr_Spec := spec\<rparr>) (k_Repo w)\<rparr>)"

lemma sample_init:
  "mr_Status ` mem_stored k_Repo sample_cluster = {mr_Status sample_repo}"
  "le_Status ` mem_stored k_Engine sample_cluster = {le_Status sample_engine}"
  "mem_stored k_PV sample_cluster = {}"
  by (simp_all add: sample_cluster_def empty_cluster_def mem_stored_def)

lemma user_edits_keep:
  assumes "user_edits w w'"
  shows "mr_Status ` mem_stored k_Repo w' \<subseteq> mr_Status ` mem_stored k_Repo w" "mem_stored k_Engine w' = mem_stored k_Engine w"
    "mem_stored k_PV w' = mem_stored k_PV w"
proof -
  from assms obtain k mr spec' where edit: "map_of (k_Repo w) k = Some mr"
    "w' = w\<lparr>k_Repo := AList.update k (mr\<lparr>mr_Spec := spec'\<rparr>) (k_Repo w)\<rparr>"
    by (auto simp: user_edits_def)
  have "snd ` set (AList.update k (mr\<lparr>mr_Spec := spec'\<rparr>) (k_Repo w)) \<subseteq> snd ` insert (k, mr\<lparr>mr_Spec := spec'\<rparr>) (set (k_Repo w))"
    by (rule image_mono [OF set_alist_update])
  then have "mem_stored k_Repo w' \<subseteq> insert (mr\<lparr>mr_Spec := spec'\<rparr>) (mem_stored k_Repo w)"
    by (simp add: edit(2) mem_stored_def)
  moreover have "mr \<in> mem_stored k_Repo w"
    unfolding mem_stored_def using map_of_SomeD [OF edit(1)] by force
  then have "mr_Status (mr\<lparr>mr_Spec := spec'\<rparr>) \<in> mr_Status ` mem_stored k_Repo w" by simp
  ultimately show "mr_Status ` mem_stored k_Repo w' \<subseteq> mr_Status ` mem_stored k_Repo w" by blast
  show "mem_stored k_Engine w' = mem_stored k_Engine w" "mem_stored k_PV w' = mem_stored k_PV w"
    by (simp_all add: edit(2) mem_stored_def)
qed

lemma sample_keeps:
  "everybody_keeps mem_client (\<lambda>w. w = sample_cluster) user_edits (\<lambda>w. mr_Status ` mem_stored k_Repo w)
     repo_answers repo_writes (\<lambda>s. mr_status.consistent mem_lib s \<and> schema_status s)"
  "everybody_keeps mem_client (\<lambda>w. w = sample_cluster) user_edits (\<lambda>w. le_Status ` mem_stored k_Engine w)
     no_answers engine_writes (le_status.consistent mem_lib)"
proof -
  have "mr_status.consistent mem_lib (mr_Status sample_repo) \<and> schema_status (mr_Status sample_repo)"
    "le_status.consistent mem_lib (le_Status sample_engine)"
    by (simp_all add: sample_repo_def sample_engine_def mr_status.consistent_def le_status.consistent_def schema_status_def
        mem_lib_def find_condition_def)
  then show "everybody_keeps mem_client (\<lambda>w. w = sample_cluster) user_edits (\<lambda>w. mr_Status ` mem_stored k_Repo w)
     repo_answers repo_writes (\<lambda>s. mr_status.consistent mem_lib s \<and> schema_status s)"
    "everybody_keeps mem_client (\<lambda>w. w = sample_cluster) user_edits (\<lambda>w. le_Status ` mem_stored k_Engine w)
     no_answers engine_writes (le_status.consistent mem_lib)"
    unfolding everybody_keeps_def using user_edits_keep
    by (intro conjI mem_kept allI impI; (simp add: sample_init; fail)?; blast)+
qed

section \<open>Properties\<close>

text \<open>
  (C6) The reconcilers never break the statuses. Suppose that at the start every stored status of a
  repository is valid in the schema and has the phase that its Ready condition says (or neither
  was ever set), that every stored status of an engine has the phase that its conditions say, and
  that whatever others write to the statuses, between the runs or while one is under way, is again
  like that; and that the server answers reads with what is stored. Then in every state reachable
  by any number of runs of both reconcilers, for any requests, whichever calls fail, and by such
  changes of others, all stored statuses are still like that.
\<close>

theorem reachable_phases:
  assumes "retries_conflicts (r_RetryOnConflict (ce_Reconciler E))" and "r_Lib (ce_Reconciler E) = L" and "sets_conditions L"
    and "everybody_keeps (r_Client (ce_Reconciler E)) init others repos repo_answers repo_writes
      (\<lambda>s. mr_status.consistent L s \<and> schema_status s)"
    and "everybody_keeps (r_Client (ce_Reconciler E)) init others engines no_answers engine_writes (le_status.consistent L)"
    and "reachable A E init others w"
  shows "(\<forall>s \<in> repos w. mr_status.consistent L s \<and> schema_status s) \<and> (\<forall>s \<in> engines w. le_status.consistent L s)"
proof
  have "status_invariant L (\<lambda>s. mr_status.consistent L s \<and> schema_status s)"
    using consistent_invariant [OF assms(3)] schema_invariant [of L] by (simp add: status_invariant_def)
  then show "\<forall>s \<in> repos w. mr_status.consistent L s \<and> schema_status s"
    using assms(4,6) unfolding assms(2) [symmetric]
    by (intro reachable_repo_statuses [OF assms(1)]) (simp_all add: consistent_references schema_status_def)
  show "\<forall>s \<in> engines w. le_status.consistent L s"
    using assms(5,6) unfolding assms(2) [symmetric] by (intro reachable_engine_statuses [OF assms(1)])
qed

theorem reachable_phases_witness:
  "mr_Status ` mem_stored k_Repo (world (snd (run_state (mr_Reconcile all_assets mem_reconciler ([], ''llama'')) (start_run sample_cluster))))
     \<subseteq> {s. mr_status.consistent mem_lib s \<and> schema_status s}"
proof -
  let ?run = "run_state (mr_Reconcile all_assets mem_reconciler ([], ''llama'')) (start_run sample_cluster)"
  have reach: "reachable all_assets sample_env (\<lambda>w. w = sample_cluster) user_edits (world (snd ?run))"
    by (rule reachable.repository [where req = "([], ''llama'')" and out = "fst ?run" and w = sample_cluster])
      (simp_all add: sample_env_def reachable.start)
  have "\<forall>s \<in> mr_Status ` mem_stored k_Repo w. mr_status.consistent mem_lib s \<and> schema_status s"
    if "reachable all_assets sample_env (\<lambda>w. w = sample_cluster) user_edits w" for w
    by (rule reachable_phases [where E = sample_env and L = mem_lib and repos = "\<lambda>w. mr_Status ` mem_stored k_Repo w"
          and engines = "\<lambda>w. le_Status ` mem_stored k_Engine w", OF _ _ mem_sets_conditions _ _ that, THEN conjunct1])
      (simp_all add: sample_env_def mem_reconciler_def retries_conflicts_attempts sample_keeps)
  from this [OF reach] show ?thesis by blast
qed

text \<open>
  (C7) The volumes that the operator makes of the storage of repositories are retained, read-only-many
  and read-only at their source, host paths apart. Suppose that every volume with the operator's label that is there at the start or
  that others write is retained when its claim goes, is read-only-many, and either is NFS, CSI or
  CephFS marked read-only or an existing directory of a host (a host path has no read-only mark),
  and that the server answers reads with what is stored. Then the same holds of every such volume
  in every state reachable by runs of both reconcilers and such changes of others.
\<close>

theorem reachable_mirrors_harmless:
  assumes "retries_conflicts (r_RetryOnConflict (ce_Reconciler E))"
    and "everybody_keeps (r_Client (ce_Reconciler E)) init others volumes pv_answers pv_writes harmless_mirror"
    and "reachable A E init others w"
  shows "\<forall>pv \<in> volumes w. harmless_mirror pv"
  by (rule reachable_volumes [OF assms])

text \<open>The first run for the sample engine makes the volume of its model, step by step.\<close>

definition mirror_cluster :: cluster where
  "mirror_cluster = empty_cluster\<lparr>k_Repo := [(([], ''llama''), ready_repo)], k_Engine := [((''team-a'', ''chat''), sample_engine)]\<rparr>"

definition owned_engine :: LLMEngine where
  "owned_engine = sample_engine\<lparr>le_Meta := (le_Meta sample_engine)\<lparr>om_Finalizers := [LLMEngineFinalizer]\<rparr>\<rparr>"

definition mirror_run1 :: "(cluster, event) sys" where
  "mirror_run1 = snd (run_state (api_Get OnEngine (cl_Engine mem_client) (''team-a'', ''chat'')) (start_run mirror_cluster))"

definition mirror_run2 :: "(cluster, event) sys" where
  "mirror_run2 = snd (run_state (api_Update OnEngine (cl_Engine mem_client) owned_engine) mirror_run1)"

definition mirror_run3 :: "(cluster, event) sys" where
  "mirror_run3 = snd (run_state (fetchModelRepositories mem_reconciler owned_engine) mirror_run2)"

definition mirror_run4 :: "(cluster, event) sys" where
  "mirror_run4 = snd (run_state (EnsureLLMEngineStorage mem_reconciler owned_engine ready_repo) mirror_run3)"

definition mirror_run5 :: "(cluster, event) sys" where
  "mirror_run5 = snd (run_state (setNotReady mem_reconciler owned_engine LLMEngineReasonStoragePending
     ''Preparing storage for model llama: PVC team-a/le-chat-llama created, waiting for binding'') mirror_run4)"

lemma mirror_steps:
  "run_state (api_Get OnEngine (cl_Engine mem_client) (''team-a'', ''chat'')) (start_run mirror_cluster) = (Inr sample_engine, mirror_run1)"
  "run_state (api_Update OnEngine (cl_Engine mem_client) owned_engine) mirror_run1 = (Inr owned_engine, mirror_run2)"
  "run_state (fetchModelRepositories mem_reconciler owned_engine) mirror_run2 = (Inr [ready_repo], mirror_run3)"
  "run_state (EnsureLLMEngineStorage mem_reconciler owned_engine ready_repo) mirror_run3 =
     (Some (Inl (new_error ''PVC team-a/le-chat-llama created, waiting for binding'')), mirror_run4)"
  by (rule runI, code_simp, simp only: mirror_run1_def mirror_run2_def mirror_run3_def mirror_run4_def)+

lemma mirror_made: "length (k_PV (world mirror_run5)) = 1"
  by code_simp

lemma mirror_run: "world (snd (run_state (le_Reconcile sample_env (''team-a'', ''chat'')) (start_run mirror_cluster))) = world mirror_run5"
proof -
  have env: "ce_Reconciler sample_env = mem_reconciler" "r_Client mem_reconciler = mem_client" "r_Lib mem_reconciler = mem_lib"
    by (simp_all add: sample_env_def mem_reconciler_def)
  have engine: "om_DeletionTimestamp (le_Meta sample_engine) = None" "\<not> lib_ContainsFinalizer mem_lib (om_Finalizers (le_Meta sample_engine)) LLMEngineFinalizer"
    "sample_engine\<lparr>le_Meta := (le_Meta sample_engine)\<lparr>om_Finalizers :=
       lib_AddFinalizer mem_lib (om_Finalizers (le_Meta sample_engine)) LLMEngineFinalizer\<rparr>\<rparr> = owned_engine" "\<not> DetectGPURequest owned_engine"
    by code_simp+
  have "run_state (prepare_and_serve sample_env owned_engine [ready_repo]) mirror_run3 = (Some (after_seconds 30, None), mirror_run5)"
    by (simp add: prepare_and_serve_def env mirror_steps(4) zoned_facts mirror_run5_def new_error_def split_beta Let_def)
  then show ?thesis
    by (simp add: le_Reconcile_def reconcile_models_def env engine mirror_steps(1-3) zoned_facts Let_def del: find.simps mem_client_kinds)
qed

lemma mirror_keeps: "everybody_keeps mem_client (\<lambda>w. w = mirror_cluster) user_edits (mem_stored k_PV) pv_answers pv_writes harmless_mirror"
  unfolding everybody_keeps_def using user_edits_keep(3)
  by (intro conjI mem_kept allI impI; (simp add: mirror_cluster_def empty_cluster_def mem_stored_def; fail)?; blast)

theorem reachable_mirrors_harmless_witness:
  "\<exists>pv. mem_stored k_PV (world (snd (run_state (le_Reconcile sample_env (''team-a'', ''chat'')) (start_run mirror_cluster)))) = {pv} \<and>
     harmless_mirror pv"
proof -
  let ?run = "run_state (le_Reconcile sample_env (''team-a'', ''chat'')) (start_run mirror_cluster)"
  have reach: "reachable all_assets sample_env (\<lambda>w. w = mirror_cluster) user_edits (world (snd ?run))"
    by (rule reachable.engine [where req = "(''team-a'', ''chat'')" and out = "fst ?run" and w = mirror_cluster]) (simp_all add: reachable.start)
  have harmless: "\<forall>pv \<in> mem_stored k_PV w. harmless_mirror pv"
    if "reachable all_assets sample_env (\<lambda>w. w = mirror_cluster) user_edits w" for w
    by (rule reachable_mirrors_harmless [where E = sample_env, OF _ _ that])
      (simp_all add: sample_env_def mem_reconciler_def retries_conflicts_attempts mirror_keeps)
  from mirror_made obtain k pv where "k_PV (world mirror_run5) = [(k, pv)]" by (auto simp: length_Suc_conv)
  then have "mem_stored k_PV (world (snd ?run)) = {pv}" by (simp add: mirror_run mem_stored_def)
  with harmless [OF reach] show ?thesis by blast
qed

end
