(* ===== verification/Convergence.thy ===== *)
theory Convergence
  imports Replay
begin

text \<open>
  The repository's reconciler comes to rest: what it writes is what it wants to find, and where it
  finds that, it writes nothing. \<open>quiet\<close> describes computations that, given certain answers, only
  read and return a given result; \<open>settled\<close> describes a repository whose storage is bound and
  recorded and whose revisions are downloaded and recorded.
\<close>

section \<open>Computations that only read\<close>

fun read_call :: "'o call \<Rightarrow> bool" where
  "read_call (Get _ _) = True"
| "read_call (ListOf _ _ _) = True"
| "read_call _ = False"

fun is_read :: "event \<Rightarrow> bool" where
  "is_read (OnRepo c) = read_call c"
| "is_read (OnEngine c) = read_call c"
| "is_read (OnPVC c) = read_call c"
| "is_read (OnPV c) = read_call c"
| "is_read (OnJob c) = read_call c"
| "is_read (OnDeployment c) = read_call c"
| "is_read (OnService c) = read_call c"
| "is_read (OnConfigMap c) = read_call c"
| "is_read (OnStorageClass c) = read_call c"
| "is_read (OnNode c) = read_call c"

text \<open>
  \<open>calm P C A m x\<close>: if all answers satisfy \<open>A\<close>, a run of \<open>m\<close> returns \<open>x\<close> and its calls are of the
  kind \<open>P\<close>. \<open>quiet\<close>: it only reads.
\<close>

definition calm :: "(event \<Rightarrow> bool) \<Rightarrow> 'w client \<Rightarrow> (event \<Rightarrow> bool) \<Rightarrow> ('w, 'a) kio \<Rightarrow> 'a \<Rightarrow> bool" where
  "calm P C A m x = (logged C m \<and> spec m (\<lambda>y evs. list_all A evs \<longrightarrow> y = x \<and> list_all P evs))"

abbreviation quiet :: "'w client \<Rightarrow> (event \<Rightarrow> bool) \<Rightarrow> ('w, 'a) kio \<Rightarrow> 'a \<Rightarrow> bool" where
  "quiet \<equiv> calm is_read"

lemma logged_spec: "logged C m \<Longrightarrow> (\<And>x evs. R x evs) \<Longrightarrow> spec m R"
  unfolding logged_def spec_def by (metis prod.collapse)

lemma calm_return: "calm P C A (ret x) x"
  by (simp add: calm_def logged_return spec_return)

text \<open>What follows a call may depend on its answer, as long as every answer within \<open>A\<close> leads to the same end.\<close>

lemma calm_follow:
  assumes m: "logged C m" "spec m (\<lambda>x evs. list_all A evs \<longrightarrow> S x \<and> list_all P evs)"
    and f: "\<And>x. S x \<Longrightarrow> calm P C A (f x) y" and all: "\<And>x. logged C (f x)"
  shows "calm P C A (State_Monad.bind m f) y"
proof -
  have "spec (State_Monad.bind m f) (\<lambda>y' evs. list_all A evs \<longrightarrow> y' = y \<and> list_all P evs)"
  proof (rule spec_bind [OF m(2)])
    fix x e1
    assume e1: "list_all A e1 \<longrightarrow> S x \<and> list_all P e1"
    show "spec (f x) (\<lambda>y' e2. list_all A (e1 @ e2) \<longrightarrow> y' = y \<and> list_all P (e1 @ e2))"
    proof (cases "list_all A e1")
      case True
      with e1 have "calm P C A (f x) y" "list_all P e1" using f by simp_all
      then show ?thesis by (auto simp: calm_def elim: spec_conseq)
    next
      case False
      then show ?thesis by (intro logged_spec [OF all]) simp
    qed
  qed
  with m(1) all show ?thesis
    by (simp add: calm_def logged_bind)
qed

lemma calm_bind:
  assumes "calm P C A m x" and "calm P C A (f x) y" and "\<And>z. logged C (f z)"
  shows "calm P C A (State_Monad.bind m f) y"
  using assms by (intro calm_follow [where S = "\<lambda>z. z = x"]) (auto simp: calm_def)

lemma calm_read:
  assumes "serves_kind C on rc"
  shows "(\<And>y. A (on (Get k y)) \<Longrightarrow> y = x \<and> P (on (Get k y))) \<Longrightarrow> calm P C A (api_Get on rc k) x"
    and "(\<And>y. A (on (ListOf ns ls y)) \<Longrightarrow> y = xs \<and> P (on (ListOf ns ls y))) \<Longrightarrow> calm P C A (api_List on rc ns ls) xs"
  using logged_api(1,2) [OF assms] by (simp_all add: calm_def api_defs spec_perform)

lemma calm_retry:
  assumes "retries_conflicts retry" and "calm P C A m None"
  shows "calm P C A (retry m) None"
  using assms logged_retry [OF assms(1)] unfolding calm_def
  by (auto intro!: spec_retry [OF assms(1)])

lemma calm_sync_status:
  assumes "retries_conflicts retry" and "serves_kind C on rc"
    and "\<And>y. A (on (Get k y)) \<Longrightarrow> y = Inr x \<and> P (on (Get k y))" and "equal (sof x) (f (sof x))"
  shows "calm P C A (sync_status on rc retry equal sof put k f) None"
  unfolding sync_status_def
proof (rule calm_retry [OF assms(1)], rule calm_bind [OF calm_read(1) [OF assms(2,3)]])
  show "logged C (case z of Inl err \<Rightarrow> ret (Some err) | Inr fresh \<Rightarrow>
      (let st = f (sof fresh) in if equal (sof fresh) st then ret None
       else do { u \<leftarrow> api_StatusUpdate on rc (put st fresh);
                 case u of Inl err \<Rightarrow> ret (Some err) | Inr _ \<Rightarrow> ret None }))" for z
    unfolding Let_def by (intro logged_intros assms(2))
qed (simp_all add: assms(4) calm_return)

section \<open>A settled repository\<close>

text \<open>
  Documented of \<^verbatim>\<open>meta.SetStatusCondition\<close>: setting a condition that is there already changes
  nothing (the time of the last transition is kept while the status stays the same).
\<close>

definition keeps_conditions :: "k8s_lib \<Rightarrow> bool" where
  "keeps_conditions L = (\<forall>cs c. lib_FindStatusCondition L cs (c_Type c) = Some c \<longrightarrow> lib_SetStatusCondition L cs c = cs)"

text \<open>The class that the spec's preference selects among those of the cluster.\<close>

definition chosen_class :: "string \<Rightarrow> StorageClass list \<Rightarrow> StorageClassInfo option" where
  "chosen_class preference scs = (let available = map categorizeStorageClass scs in
     if available = [] then None
     else if preference = ''auto'' \<or> preference = [] then (case selectAuto available of Inr i \<Rightarrow> Some i | Inl _ \<Rightarrow> None)
     else selectByName available preference)"

text \<open>What the repository's status says of its storage, given its claim, volume and backend.\<close>

definition reported_storage ::
  "StorageClassInfo \<Rightarrow> PersistentVolumeClaim \<Rightarrow> PersistentVolume \<Rightarrow> BackendReference \<Rightarrow> StorageStatus" where
  "reported_storage sc pvc pv br =
     \<lparr>ss_StorageClass = sci_Name sc, ss_AccessMode = sci_AccessMode sc, ss_VolumeMode = ''Filesystem'',
      ss_BackendRef = Some br,
      ss_BoundNodeName = (if sci_AccessMode sc = ReadWriteOnce then extractNodeNameFromPV pv else []),
      ss_Capacity = (case pvc_Capacity pvc of Some c \<Rightarrow> c | None \<Rightarrow> [])\<rparr>"

definition has_condition :: "k8s_lib \<Rightarrow> ModelRepository \<Rightarrow> Condition \<Rightarrow> bool" where
  "has_condition L mr c = (lib_FindStatusCondition L (mst_Conditions (mr_Status mr)) (c_Type c) = Some c)"

definition settled ::
  "k8s_lib \<Rightarrow> string \<Rightarrow> ModelRepository \<Rightarrow> StorageClassInfo \<Rightarrow> PersistentVolumeClaim \<Rightarrow> PersistentVolume \<Rightarrow> bool" where
  "settled L ns mr sc pvc pv =
     (mrs_ModelName (mr_Spec mr) \<noteq> [] \<and> om_DeletionTimestamp (mr_Meta mr) = None \<and>
      lib_ContainsFinalizer L (om_Finalizers (mr_Meta mr)) ModelRepositoryFinalizer \<and>
      ValidateConfig L (NewStorageClassProvider mr sc) = None \<and>
      pvc_Phase pvc = ClaimBound \<and> pvc_VolumeName pvc \<noteq> [] \<and>
      (case extractBackendFromPV (NewStorageClassProvider mr sc) pv ns of
         Inl _ \<Rightarrow> False | Inr br \<Rightarrow> mst_Storage (mr_Status mr) = Some (reported_storage sc pvc pv br)) \<and>
      has_condition L mr (condition ModelRepoConditionStorageReady ConditionTrue ModelRepoReasonStorageProvisioned
        (''Storage provisioned with class '' @ sci_Name sc)) \<and>
      (mrs_AutoDownload (mr_Spec mr) \<longrightarrow> all_ready mr (getDesiredRevisions mr) \<and> mst_Phase (mr_Status mr) = DownloadPhaseReady \<and>
        has_condition L mr (condition ModelRepoConditionReady ConditionTrue ModelRepoReasonAllRevisionsReady
          ''All revisions downloaded successfully'')))"

text \<open>The API server answers with this repository, these classes, this claim and volume.\<close>

fun answers_with ::
  "ModelRepository \<Rightarrow> StorageClass list \<Rightarrow> PersistentVolumeClaim \<Rightarrow> PersistentVolume \<Rightarrow> event \<Rightarrow> bool" where
  "answers_with mr scs pvc pv (OnRepo (Get k x)) = (x = Inr mr)"
| "answers_with mr scs pvc pv (OnStorageClass (ListOf ns ls x)) = (x = Inr scs)"
| "answers_with mr scs pvc pv (OnPVC (Get k x)) = (x = Inr pvc)"
| "answers_with mr scs pvc pv (OnPV (Get k x)) = (x = Inr pv)"
| "answers_with mr scs pvc pv _ = True"

section \<open>The steps of a run on a settled repository\<close>

lemma quiet_answers:
  "quiet C (answers_with mr scs pvc pv) (f1 (Inr mr)) y \<Longrightarrow> (\<And>z. logged C (f1 z)) \<Longrightarrow>
     quiet C (answers_with mr scs pvc pv) (State_Monad.bind (api_Get OnRepo (cl_Repo C) k) f1) y"
  "quiet C (answers_with mr scs pvc pv) (f2 (Inr scs)) y \<Longrightarrow> (\<And>z. logged C (f2 z)) \<Longrightarrow>
     quiet C (answers_with mr scs pvc pv) (State_Monad.bind (api_List OnStorageClass (cl_StorageClass C) ns ls) f2) y"
  "quiet C (answers_with mr scs pvc pv) (f3 (Inr pvc)) y \<Longrightarrow> (\<And>z. logged C (f3 z)) \<Longrightarrow>
     quiet C (answers_with mr scs pvc pv) (State_Monad.bind (api_Get OnPVC (cl_PVC C) k) f3) y"
  "quiet C (answers_with mr scs pvc pv) (f4 (Inr pv)) y \<Longrightarrow> (\<And>z. logged C (f4 z)) \<Longrightarrow>
     quiet C (answers_with mr scs pvc pv) (State_Monad.bind (api_Get OnPV (cl_PV C) k) f4) y"
  by (rule calm_bind [OF calm_read(1) [OF serves_kinds(1)]] calm_bind [OF calm_read(2) [OF serves_kinds(9)]]
      calm_bind [OF calm_read(1) [OF serves_kinds(3)]] calm_bind [OF calm_read(1) [OF serves_kinds(4)]]; simp)+

lemma quiet_CreateProvider:
  assumes "ms_Size (mrs_Storage (mr_Spec mr)) \<noteq> []"
    and "chosen_class (ms_StorageClass (mrs_Storage (mr_Spec mr))) scs = Some sc"
  shows "quiet (r_Client r) (answers_with mr' scs pvc pv) (CreateProvider r mr) (Inr (NewStorageClassProvider mr sc))"
proof -
  let ?q = "quiet (r_Client r) (answers_with mr' scs pvc pv)"
  have "?q (DiscoverStorageClasses r) (Inr (map categorizeStorageClass scs))"
    unfolding DiscoverStorageClasses_def by (intro quiet_answers logged_intros) (simp add: calm_return)
  then have "?q (SelectBestStorageClass r (ms_StorageClass (mrs_Storage (mr_Spec mr)))) (Inr sc)"
    unfolding SelectBestStorageClass_def
    by (rule calm_bind; (intro logged_intros)?)
      (use assms(2) in \<open>auto simp: chosen_class_def Let_def calm_return split: if_splits sum.splits option.splits\<close>)
  then show ?thesis
    unfolding CreateProvider_def if_not_P [OF assms(1)]
    by (rule calm_bind; (intro logged_intros)?) (simp add: calm_return)
qed

lemma quiet_mr_sync:
  assumes "retries_conflicts (r_RetryOnConflict r)" and "compares_statuses (r_Lib r)" and "f (mr_Status mr) = mr_Status mr"
  shows "quiet (r_Client r) (answers_with mr scs pvc pv) (mr_syncStatus r mr f) None"
proof -
  have "lib_RepoStatusEqual (r_Lib r) (mr_Status mr) (f (mr_Status mr))"
    using assms(2,3) by (simp add: compares_statuses_def)
  then show ?thesis
    unfolding mr_syncStatus_def
    by (intro calm_sync_status [OF assms(1), where x = mr]) (simp_all add: serves_kinds)
qed

lemma logged_mr_sync: "retries_conflicts (r_RetryOnConflict r) \<Longrightarrow> logs r (mr_syncStatus r mr f)"
  unfolding mr_syncStatus_def by (intro logged_sync_status logged_intros)

lemma settled_provisioned:
  assumes "settled L ns mr sc pvc pv" and "keeps_conditions L"
    and "extractBackendFromPV (NewStorageClassProvider mr sc) pv ns = Inr br"
  shows "provisioned_status L (reported_storage sc pvc pv br) (mr_Status mr) = mr_Status mr"
  using assms by (simp add: settled_def keeps_conditions_def has_condition_def provisioned_status_def reported_storage_def condition_def)

lemma settled_phase:
  assumes "settled L ns mr sc pvc pv" and "keeps_conditions L" and "mrs_AutoDownload (mr_Spec mr)"
  shows "mr_set_conditions L [condition ModelRepoConditionReady ConditionTrue ModelRepoReasonAllRevisionsReady
    ''All revisions downloaded successfully''] (mr_Status mr) = mr_Status mr"
  using assms by (simp add: settled_def keeps_conditions_def has_condition_def mr_set_conditions_def deriveModelRepoPhase_def
      condition_def Let_def)

lemma quiet_reconcileStorage:
  assumes "retries_conflicts (r_RetryOnConflict r)" and "compares_statuses (r_Lib r)" and "keeps_conditions (r_Lib r)"
    and settled: "settled (r_Lib r) (operator_namespace r) mr sc pvc pv"
    and chosen: "chosen_class (ms_StorageClass (mrs_Storage (mr_Spec mr))) scs = Some sc"
  shows "quiet (r_Client r) (answers_with mr scs pvc pv) (reconcileStorage r mr (NewStorageClassProvider mr sc))
    (Some (Inr (mr, NewStorageClassProvider mr sc)))"
proof -
  let ?q = "quiet (r_Client r) (answers_with mr scs pvc pv)" and ?p = "NewStorageClassProvider mr sc" and ?ns = "operator_namespace r"
  from settled obtain br where valid: "ValidateConfig (r_Lib r) ?p = None"
    and br: "extractBackendFromPV ?p pv ?ns = Inr br" and bound: "pvc_Phase pvc = ClaimBound" "pvc_VolumeName pvc \<noteq> []"
    by (auto simp: settled_def split: sum.splits)
  from valid have size: "ms_Size (mrs_Storage (mr_Spec mr)) \<noteq> []"
    by (auto simp: ValidateConfig_def NewStorageClassProvider_def)
  from desired_claim_defined [OF valid] obtain pvc0 where claim: "desired_claim (r_Lib r) ?p ?ns = Some pvc0" by blast
  have create: "?q (CreateStorage r ?p ?ns) (Some None)"
    unfolding CreateStorage_def claim or_panic_simps by (intro quiet_answers logged_intros) (simp add: calm_return)
  have detected: "prov_detectedSCInfo ?p = sc" by (simp add: NewStorageClassProvider_def)
  have "?q (GetStorageStatus r ?p ?ns) (Inr (reported_storage sc pvc pv br))"
    unfolding GetStorageStatus_def detected
    by (intro quiet_answers logged_intros, simp only: sum.case bound simp_thms if_False)
      (intro quiet_answers logged_intros, simp only: sum.case br reported_storage_def calm_return)
  then have status: "?q (updateStorageStatus r mr ?p) None"
    unfolding updateStorageStatus_def
    by (rule calm_bind)
      (auto simp: quiet_mr_sync [OF assms(1,2)] settled_provisioned [OF settled assms(3) br]
         intro!: logged_mr_sync assms(1) logged_intros)
  have "?q (do { g \<leftarrow> api_Get OnRepo (cl_Repo (r_Client r)) (ObjectKeyFromObject (mr_Meta mr));
      case g of
        Inl err \<Rightarrow> ret (Some (Inl (done_result, Some err)))
      | Inr mr' \<Rightarrow> do {
          p' \<leftarrow> CreateProvider r mr';
          case p' of
            Inl err \<Rightarrow> ret (Some (Inl (after_seconds 60, None)))
          | Inr provider \<Rightarrow> ret (Some (Inr (mr', provider))) } }) (Some (Inr (mr, ?p)))"
    by (intro quiet_answers logged_intros, simp only: sum.case)
      (rule calm_bind [OF quiet_CreateProvider [OF size chosen]], simp only: sum.case calm_return, intro logged_intros)
  then have renew: "?q (case None of Some err \<Rightarrow>
          if \<not> IsShared ?p then ret (Some (Inl (after_seconds 10, None))) else ret (Some (Inr (mr, ?p)))
      | None \<Rightarrow> do { g \<leftarrow> api_Get OnRepo (cl_Repo (r_Client r)) (ObjectKeyFromObject (mr_Meta mr));
      case g of
        Inl err \<Rightarrow> ret (Some (Inl (done_result, Some err)))
      | Inr mr' \<Rightarrow> do {
          p' \<leftarrow> CreateProvider r mr';
          case p' of
            Inl err \<Rightarrow> ret (Some (Inl (after_seconds 60, None)))
          | Inr provider \<Rightarrow> ret (Some (Inr (mr', provider))) } }) (Some (Inr (mr, ?p)))" by simp
  show ?thesis
    unfolding reconcileStorage_def valid option.case
    by (rule calm_bind [OF create], simp only: or_panic_simps option.case, rule calm_bind [OF status], rule renew)
      (intro logged_intros logged_mr_steps assms)+
qed

lemma quiet_ready_revisions:
  assumes "all_ready mr refs"
  shows "quiet C A' (reconcile_each A r mr (NewStorageClassProvider mr sc) refs b) (Some (Inr (mr, b)))"
  using assms
proof (induction refs)
  case (Cons ref refs)
  then have "reconcileRevision A r mr (NewStorageClassProvider mr sc) ref = ret (Some (mr, False, None, None))"
    by (auto simp: reconcileRevision_def all_ready_def Let_def)
  moreover have "NewStorageClassProvider mr sc\<lparr>prov_modelRepo := mr\<rparr> = NewStorageClassProvider mr sc"
    by (simp add: NewStorageClassProvider_def)
  ultimately show ?case
    using Cons by (simp add: all_ready_def)
qed (simp add: calm_return)

lemma quiet_reconcileRevisions:
  assumes "retries_conflicts (r_RetryOnConflict r)" and "compares_statuses (r_Lib r)" and "keeps_conditions (r_Lib r)"
    and settled: "settled (r_Lib r) ns mr sc pvc pv" and auto: "mrs_AutoDownload (mr_Spec mr)"
  shows "quiet (r_Client r) (answers_with mr scs pvc pv) (reconcileRevisions A r mr (NewStorageClassProvider mr sc))
    (Some (done_result, None))"
proof -
  let ?q = "quiet (r_Client r) (answers_with mr scs pvc pv)" and ?refs = "getDesiredRevisions mr"
  from settled auto have ready: "all_ready mr ?refs" by (simp add: settled_def)
  have refs: "?refs \<noteq> []" by (simp add: getDesiredRevisions_def Let_def)
  have "?q (mr_setCondition r mr ModelRepoConditionReady ConditionTrue ModelRepoReasonAllRevisionsReady
      ''All revisions downloaded successfully'') ()"
    unfolding mr_setCondition_def
    by (rule calm_bind [OF quiet_mr_sync [where f = "mr_set_conditions (r_Lib r) [condition ModelRepoConditionReady ConditionTrue
          ModelRepoReasonAllRevisionsReady ''All revisions downloaded successfully'']",
          OF assms(1,2) settled_phase [OF settled assms(3) auto]]])
      (simp_all add: calm_return logged_return)
  moreover have "list_all (\<lambda>ref. case findRevisionStatus mr (rref_Name ref) of
      None \<Rightarrow> False | Some rs \<Rightarrow> rs_Status rs = DownloadPhaseReady) ?refs"
    using ready unfolding all_ready_def by (auto elim: list.pred_mono_strong)
  ultimately have phase: "?q (updateOverallPhase r mr ?refs False) ()"
    by (simp add: updateOverallPhase_def)
  have "?q (do { updateOverallPhase r mr ?refs False; ret (Some (if False then after_seconds 30 else done_result, None)) })
      (Some (done_result, None))"
    by (rule calm_bind [OF phase]) (simp_all add: calm_return logged_return)
  then show ?thesis
    unfolding reconcileRevisions_def Let_def if_not_P [OF refs]
    by (intro calm_bind [OF quiet_ready_revisions [OF ready]])
      (auto simp: updateOverallPhase_def intro!: logged_intros logged_mr_steps assms(1))
qed

section \<open>Properties\<close>

text \<open>
  (C10) A settled repository is left alone: if the API server answers with a repository whose storage
  is bound and recorded and whose desired revisions are downloaded and recorded, a run of the
  reconciler ends with nothing to do and has written nothing, so it does not wake itself up again.
\<close>

theorem settled_repository_left_alone:
  assumes "retries_conflicts (r_RetryOnConflict r)" and "compares_statuses (r_Lib r)" and "keeps_conditions (r_Lib r)"
    and "settled (r_Lib r) (operator_namespace r) mr sc pvc pv"
    and "chosen_class (ms_StorageClass (mrs_Storage (mr_Spec mr))) scs = Some sc"
  shows "spec (mr_Reconcile A r req) (\<lambda>res evs.
    list_all (answers_with mr scs pvc pv) evs \<longrightarrow> res = Some (done_result, None) \<and> list_all is_read evs)"
proof -
  let ?q = "quiet (r_Client r) (answers_with mr scs pvc pv)" and ?p = "NewStorageClassProvider mr sc"
  have parts: "mrs_ModelName (mr_Spec mr) \<noteq> []" "om_DeletionTimestamp (mr_Meta mr) = None"
    "lib_ContainsFinalizer (r_Lib r) (om_Finalizers (mr_Meta mr)) ModelRepositoryFinalizer"
    "ms_Size (mrs_Storage (mr_Spec mr)) \<noteq> []"
    using assms(4) by (auto simp: settled_def ValidateConfig_def NewStorageClassProvider_def)
  have same: "?p\<lparr>prov_modelRepo := mr\<rparr> = ?p"
    by (simp add: NewStorageClassProvider_def)
  have go: "?q (if \<not> mrs_AutoDownload (mr_Spec mr) then ret (Some (done_result, None)) else reconcileRevisions A r mr ?p)
      (Some (done_result, None))"
    by (simp add: calm_return quiet_reconcileRevisions [OF assms(1-4)])
  have "?q (mr_reconcile_live A r mr ?p) (Some (done_result, None))"
    unfolding mr_reconcile_live_def if_P [OF parts(3)]
    by (rule calm_bind [OF calm_return], simp only: sum.case same, rule calm_bind [OF quiet_reconcileStorage [OF assms]],
        simp only: or_panic_simps sum.case prod.case go) (intro logged_intros logged_mr_handlers assms(1))+
  then have "?q (mr_reconcile_found A r mr) (Some (done_result, None))"
    unfolding mr_reconcile_found_def if_not_P [OF parts(1)]
    by (intro calm_bind [OF quiet_CreateProvider [OF parts(4) assms(5)]])
      (simp add: parts(2), intro logged_intros logged_mr_steps logged_mr_handlers logged_mr_Reconcile(1) assms(1))
  then have "?q (mr_Reconcile A r req) (Some (done_result, None))"
    unfolding mr_Reconcile_def by (intro quiet_answers) (simp, intro logged_intros logged_mr_Reconcile(2) assms(1))
  then show ?thesis
    by (simp add: calm_def)
qed

text \<open>The sample repository at the end of its way: a local volume, its one revision downloaded.\<close>

definition settled_class :: StorageClass where
  "settled_class = \<lparr>sc_Meta = emptyMeta\<lparr>om_Name := ''local''\<rparr>, sc_Provisioner = ''rancher.io/local-path''\<rparr>"

definition settled_claim :: PersistentVolumeClaim where
  "settled_claim = \<lparr>pvc_Meta = emptyMeta\<lparr>om_Name := ''llama-storage'', om_Namespace := ''aitrigram-system''\<rparr>,
     pvc_AccessModes = [ReadWriteOnce], pvc_StorageClassName = Some ''local'', pvc_VolumeName = ''pv-1'',
     pvc_StorageRequest = ''10Gi'', pvc_Phase = ClaimBound, pvc_Capacity = Some ''10Gi''\<rparr>"

definition settled_volume :: PersistentVolume where
  "settled_volume = \<lparr>pv_Meta = emptyMeta\<lparr>om_Name := ''pv-1''\<rparr>,
     pv_Spec = \<lparr>pv_Capacity = ''10Gi'', pv_AccessModes = [ReadWriteOnce], pv_VolumeMode = None,
       pv_Source = noVolumeSource\<lparr>pvs_HostPath := Some \<lparr>hp_Path = ''/opt/local/pv-1'', hp_Type = None\<rparr>\<rparr>,
       pv_ClaimRef = None, pv_ReclaimPolicy = ''Delete'', pv_NodeAffinity = None\<rparr>\<rparr>"

definition settled_repo :: ModelRepository where
  "settled_repo = sample_repo\<lparr>mr_Meta := (mr_Meta sample_repo)\<lparr>om_Finalizers := [ModelRepositoryFinalizer]\<rparr>,
     mr_Status := \<lparr>mst_Phase = DownloadPhaseReady,
       mst_Conditions =
         [condition ModelRepoConditionStorageReady ConditionTrue ModelRepoReasonStorageProvisioned ''Storage provisioned with class local'',
          condition ModelRepoConditionReady ConditionTrue ModelRepoReasonAllRevisionsReady ''All revisions downloaded successfully''],
       mst_Storage = Some (reported_storage (categorizeStorageClass settled_class) settled_claim settled_volume
         \<lparr>br_Type = BackendTypeHostPath, br_Details = [(''path'', ''/opt/local/pv-1''), (''pvcName'', ''llama-storage''),
            (''pvcNamespace'', ''aitrigram-system'')]\<rparr>),
       mst_AvailableRevisions = [\<lparr>rs_Name = ''main'', rs_CommitHash = ''main'', rs_Status = DownloadPhaseReady\<rparr>],
       mst_ReferencedEngines = []\<rparr>\<rparr>"

lemma mem_keeps_conditions: "keeps_conditions mem_lib"
proof -
  have "find_condition cs (c_Type c) = Some c \<Longrightarrow> put_condition cs c = cs" for cs c
    by (induction cs) (auto simp: find_condition_def split: if_splits)
  then show ?thesis by (simp add: keeps_conditions_def mem_lib_def)
qed

lemma settled_sample:
  "settled mem_lib ''aitrigram-system'' settled_repo (categorizeStorageClass settled_class) settled_claim settled_volume"
proof -
  let ?sc = "categorizeStorageClass settled_class" and ?p = "NewStorageClassProvider settled_repo (categorizeStorageClass settled_class)"
  have "extractBackendFromPV ?p settled_volume ''aitrigram-system'' = Inr \<lparr>br_Type = BackendTypeHostPath, br_Details =
      [(''path'', ''/opt/local/pv-1''), (''pvcName'', ''llama-storage''), (''pvcNamespace'', ''aitrigram-system'')]\<rparr>"
    by (simp add: extractBackendFromPV_def settled_volume_def noVolumeSource_def NewStorageClassProvider_def settled_repo_def
        sample_repo_def emptyMeta_def Let_def)
  moreover have "ValidateConfig mem_lib ?p = None"
    by (simp add: ValidateConfig_def NewStorageClassProvider_def settled_repo_def sample_repo_def mem_lib_def)
  moreover have "has_condition mem_lib settled_repo (condition ModelRepoConditionStorageReady ConditionTrue
      ModelRepoReasonStorageProvisioned (''Storage provisioned with class '' @ sci_Name ?sc))"
    "has_condition mem_lib settled_repo (condition ModelRepoConditionReady ConditionTrue ModelRepoReasonAllRevisionsReady
      ''All revisions downloaded successfully'')"
    by (simp_all add: has_condition_def settled_class_def settled_repo_def mem_lib_def find_condition_def condition_def)
  moreover have "all_ready settled_repo (getDesiredRevisions settled_repo)"
    by (simp add: all_ready_def settled_repo_def sample_repo_def getDesiredRevisions_def getCurrentRevision_def
        findRevisionStatus_def Let_def)
  ultimately show ?thesis
    by (simp add: settled_def del: append.simps)
      (simp_all add: settled_repo_def sample_repo_def settled_claim_def settled_class_def mem_lib_def emptyMeta_def)
qed

theorem settled_repository_left_alone_witness:
  "spec (mr_Reconcile all_assets mem_reconciler ([], ''llama'')) (\<lambda>res evs.
     if list_all (answers_with settled_repo [settled_class] settled_claim settled_volume) evs
     then res = Some (done_result, None) \<and> list_all is_read evs else True)"
proof -
  have "operator_namespace mem_reconciler = ''aitrigram-system''"
    by (simp add: operator_namespace_def mem_reconciler_def)
  moreover have "chosen_class (ms_StorageClass (mrs_Storage (mr_Spec settled_repo))) [settled_class] = Some (categorizeStorageClass settled_class)"
    by (simp add: chosen_class_def settled_repo_def sample_repo_def selectAuto_def Let_def settled_class_def categorizeStorageClass_def)
  ultimately show ?thesis
    using settled_sample mem_keeps_conditions
    by (intro spec_conseq [OF settled_repository_left_alone [of mem_reconciler settled_repo "categorizeStorageClass settled_class"
          settled_claim settled_volume "[settled_class]"]]) simp_all
qed

end
