(* ===== verification/Engine_Rest.thy ===== *)
theory Engine_Rest
  imports Convergence
begin

text \<open>
  The engine's reconciler comes to rest: on an engine that serves all its models and says so, a run
  applies the components once more, which changes nothing in the cluster, and writes nothing else:
  no status of the engine or of a repository, no volume, no claim. So a run does not wake itself,
  the repository's reconciler or another engine.
\<close>

section \<open>A serving engine\<close>

fun applies :: "event \<Rightarrow> bool" where
  "applies (OnConfigMap (Apply _ _)) = True"
| "applies (OnDeployment (Apply _ _)) = True"
| "applies (OnService (Apply _ _)) = True"
| "applies _ = False"

definition harmless :: "event \<Rightarrow> bool" where
  "harmless ev = (is_read ev \<or> applies ev)"

text \<open>The GPU check finds what the engine asks for.\<close>

definition gpu_there :: "k8s_lib \<Rightarrow> LLMEngine \<Rightarrow> (GPUConfig \<Rightarrow> bool) \<Rightarrow> bool" where
  "gpu_there L le ok = (case les_GPU (le_Spec le) of None \<Rightarrow> True | Some g \<Rightarrow> ok g)"

text \<open>
  The answers of a cluster at rest: this engine, these repositories and engines, volumes that exist,
  claims that are bound, deployments with ready replicas, nodes with the GPUs asked for, and
  accepted applies.
\<close>

fun serving_answers :: "k8s_lib \<Rightarrow> LLMEngine \<Rightarrow> (string \<Rightarrow> ModelRepository) \<Rightarrow> LLMEngine list \<Rightarrow> event \<Rightarrow> bool" where
  "serving_answers L le repo engines (OnEngine (Get k x)) = (x = Inr le)"
| "serving_answers L le repo engines (OnEngine (ListOf ns ls x)) = (x = Inr engines)"
| "serving_answers L le repo engines (OnRepo (Get k x)) = (x = Inr (repo (snd k)))"
| "serving_answers L le repo engines (OnPV (Get k x)) = (case x of Inl _ \<Rightarrow> False | Inr _ \<Rightarrow> True)"
| "serving_answers L le repo engines (OnPVC (Get k x)) = (case x of Inl _ \<Rightarrow> False | Inr pvc \<Rightarrow> pvc_Phase pvc = ClaimBound)"
| "serving_answers L le repo engines (OnDeployment (Get k x)) = (case x of Inl _ \<Rightarrow> False | Inr d \<Rightarrow> dep_ReadyReplicas d > 0)"
| "serving_answers L le repo engines (OnNode (Get k x)) =
     (case x of Inl _ \<Rightarrow> False | Inr n \<Rightarrow> gpu_there L le (\<lambda>g. suitable_node L g n))"
| "serving_answers L le repo engines (OnNode (ListOf ns ls x)) =
     (case x of Inl _ \<Rightarrow> False | Inr nodes \<Rightarrow> gpu_there L le (\<lambda>g. list_ex (suitable_node L g) nodes))"
| "serving_answers L le repo engines (OnConfigMap (Apply x e)) = (e = None)"
| "serving_answers L le repo engines (OnDeployment (Apply x e)) = (e = None)"
| "serving_answers L le repo engines (OnService (Apply x e)) = (e = None)"
| "serving_answers L le repo engines _ = True"

text \<open>The resources of an engine and a model can be built, owned and converted.\<close>

definition buildable :: "'w component_env \<Rightarrow> LLMEngineContext \<Rightarrow> bool" where
  "buildable E ctx = (let L = r_Lib (ce_Reconciler E); le = ctx_LLMEngine ctx; T = les_EngineType (le_Spec le) in
     (T = LLMEngineTypeVLLM \<longrightarrow> \<not> isl (ce_Marshal E (vllm_config le (ctx_ModelRepo ctx)))) \<and>
     (case LoadLLMEngineDeploymentManifest (ce_Assets E) T of
        Inl _ \<Rightarrow> False
      | Inr d \<Rightarrow> (case AdaptDeployment L ctx (d\<lparr>dep_Meta := (dep_Meta d)\<lparr>om_Namespace := ctx_Namespace ctx\<rparr>\<rparr>) of
          Some (Inr _) \<Rightarrow> True | _ \<Rightarrow> False)) \<and>
     (case LoadLLMEngineServiceManifest (ce_Assets E) T of
        Inl _ \<Rightarrow> False
      | Inr s \<Rightarrow> (case AdaptService ctx (s\<lparr>svc_Meta := (svc_Meta s)\<lparr>om_Namespace := ctx_Namespace ctx\<rparr>\<rparr>) of
          Some (Inr _) \<Rightarrow> True | _ \<Rightarrow> False)) \<and>
     (\<forall>m. \<not> isl (lib_SetControllerReference L (le_Meta le) m)) \<and> (\<forall>T. toUnstructured E T = None))"

text \<open>The volume and the claim of an engine for a model can be described.\<close>

definition mirrorable :: "k8s_lib \<Rightarrow> LLMEngine \<Rightarrow> ModelRepository \<Rightarrow> bool" where
  "mirrorable L le mr =
     (llmEnginePVName (le_Name le) (mr_Name mr) \<noteq> None \<and> llmEnginePVCName (le_Name le) (mr_Name mr) \<noteq> None \<and>
      (case mst_Storage (mr_Status mr) of None \<Rightarrow> False | Some st \<Rightarrow> (case ss_BackendRef st of None \<Rightarrow> False | Some br \<Rightarrow>
         (case buildReadOnlyPVSpec L br st of Some (Inr _) \<Rightarrow> True | _ \<Rightarrow> False) \<and> MustParse L (ss_Capacity st) \<noteq> None)))"

definition engine_context :: "LLMEngine \<Rightarrow> ModelRepository \<Rightarrow> string \<Rightarrow> LLMEngineContext" where
  "engine_context le mr claim = \<lparr>ctx_LLMEngine = le, ctx_ModelRepo = mr, ctx_Namespace = le_Namespace le, ctx_ModelPVCName = claim\<rparr>"

definition servable :: "'w component_env \<Rightarrow> LLMEngine \<Rightarrow> ModelRepository \<Rightarrow> bool" where
  "servable E le mr = (mst_Phase (mr_Status mr) = DownloadPhaseReady \<and> mirrorable (r_Lib (ce_Reconciler E)) le mr \<and>
     NewModelComponent E le mr \<noteq> None \<and> (\<forall>claim. buildable E (engine_context le mr claim)))"

text \<open>The status of an engine that serves these models.\<close>

definition says_serving :: "k8s_lib \<Rightarrow> string list \<Rightarrow> LLMEngineStatus \<Rightarrow> bool" where
  "says_serving L names s =
     (lst_ModelRepositories s = names \<and> lst_Phase s = ''Running'' \<and>
      lib_FindStatusCondition L (lst_Conditions s) LLMEngineConditionModelsAvailable =
        Some (condition LLMEngineConditionModelsAvailable ConditionTrue LLMEngineReasonModelsReady ''All referenced models are available'') \<and>
      lib_FindStatusCondition L (lst_Conditions s) LLMEngineConditionReady =
        Some (condition LLMEngineConditionReady ConditionTrue LLMEngineReasonDeploymentsReady
          (''All '' @ show_nat (length names) @ '' model deployments ready'')))"

definition serving_engine :: "'w component_env \<Rightarrow> LLMEngine \<Rightarrow> (string \<Rightarrow> ModelRepository) \<Rightarrow> LLMEngine list \<Rightarrow> bool" where
  "serving_engine E le repo engines =
     (let L = r_Lib (ce_Reconciler E); names = map mref_Name (les_ModelRefs (le_Spec le)) in
      om_DeletionTimestamp (le_Meta le) = None \<and> lib_ContainsFinalizer L (om_Finalizers (le_Meta le)) LLMEngineFinalizer \<and>
      names \<noteq> [] \<and> says_serving L names (le_Status le) \<and>
      list_all (\<lambda>n. mr_Name (repo n) = n \<and> servable E le (repo n) \<and>
        mst_ReferencedEngines (mr_Status (repo n)) = referenced_by (reference_map names engines) n) names)"

section \<open>The steps of a run\<close>

lemma calm_reading:
  assumes "serves_kind C on rc" and "\<And>y. P (on (Get k y))" and "\<And>y. A (on (Get k y)) \<Longrightarrow> calm P C A (f y) z"
    and "\<And>y. logged C (f y)"
  shows "calm P C A (State_Monad.bind (api_Get on rc k) f) z"
  using assms
  by (intro calm_follow [where S = "\<lambda>y. A (on (Get k y))"] logged_intros) (simp_all add: api_defs spec_perform)

lemma calm_listing:
  assumes "serves_kind C on rc" and "\<And>y. P (on (ListOf ns ls y))" and "\<And>y. A (on (ListOf ns ls y)) \<Longrightarrow> calm P C A (f y) z"
    and "\<And>y. logged C (f y)"
  shows "calm P C A (State_Monad.bind (api_List on rc ns ls) f) z"
  using assms
  by (intro calm_follow [where S = "\<lambda>y. A (on (ListOf ns ls y))"] logged_intros) (simp_all add: api_defs spec_perform)

lemma harmless_reads [simp]:
  "harmless (OnEngine (Get k y1))" "harmless (OnEngine (ListOf ns ls y2))" "harmless (OnRepo (Get k y3))"
  "harmless (OnPV (Get k y4))" "harmless (OnPVC (Get k y5))" "harmless (OnDeployment (Get k y6))"
  "harmless (OnNode (Get k y7))" "harmless (OnNode (ListOf ns ls y8))"
  by (simp_all add: harmless_def)

lemma calm_fetch:
  "calm harmless (r_Client r) (serving_answers L le repo engines) (fetch_each r refs) (Inr (map (\<lambda>ref. repo (mref_Name ref)) refs))"
proof (induction refs)
  case (Cons ref refs)
  show ?case
    unfolding fetch_each.simps
    by (rule calm_reading [OF serves_kinds(1)], simp, simp)
      (intro calm_bind [OF Cons.IH] logged_intros, simp add: calm_return, intro logged_intros)
qed (simp add: calm_return)

lemma calm_validate:
  "calm harmless (r_Client r) (serving_answers (r_Lib r) le repo engines) (validateGPUAvailability r le node) None"
  unfolding validateGPUAvailability_def
  by (auto intro!: calm_reading calm_listing logged_intros
      simp: calm_return gpu_there_def required_node_suitable [THEN iffD2] some_node_suitable [THEN iffD2]
      split: option.splits sum.splits)

lemma calm_Ensure:
  assumes "mirrorable (r_Lib r) le mr"
  shows "\<exists>out. calm harmless (r_Client r) (serving_answers L le repo engines) (EnsureLLMEngineStorage r le mr) (Some (Inr out))"
proof -
  from assms obtain st br pv pvc spec q where parts: "mst_Storage (mr_Status mr) = Some st" "ss_BackendRef st = Some br"
    "llmEnginePVName (le_Name le) (mr_Name mr) = Some pv" "llmEnginePVCName (le_Name le) (mr_Name mr) = Some pvc"
    "buildReadOnlyPVSpec (r_Lib r) br st = Some (Inr spec)" "MustParse (r_Lib r) (ss_Capacity st) = Some q"
    by (auto simp: mirrorable_def split: option.splits sum.splits)
  have pv: "calm harmless (r_Client r) (serving_answers L le repo engines) (ensure_pv r x) None" for x
    unfolding ensure_pv_def
    by (rule calm_reading [OF serves_kinds(4)]) (auto simp: calm_return intro!: logged_intros split: sum.splits)
  have pvc: "calm harmless (r_Client r) (serving_answers L le repo engines) (ensure_pvc r x path)
      (Inr \<lparr>lsr_PVCName = om_Name (pvc_Meta x), lsr_MountPath = path\<rparr>)" for x path
    unfolding ensure_pvc_def Let_def
    by (rule calm_reading [OF serves_kinds(3)]) (auto simp: calm_return intro!: logged_intros split: sum.splits)
  show ?thesis
    unfolding EnsureLLMEngineStorage_def parts option.case or_panic_simps sum.case
    by (intro exI calm_bind [OF pv]) (simp add: parts, rule calm_bind [OF pvc calm_return], auto simp: ensure_pvc_def Let_def intro!: logged_intros)
qed

lemma calm_ensure_each:
  assumes "list_all (mirrorable (r_Lib r) le) mrs"
  shows "\<exists>claims. calm harmless (r_Client r) (serving_answers L le repo engines) (ensure_each r le mrs m) (Some (Inr claims)) \<and>
    dom (map_of m) \<union> mr_Name ` set mrs \<subseteq> dom (map_of claims)"
  using assms
proof (induction mrs arbitrary: m)
  case (Cons mr mrs)
  from calm_Ensure [of r le mr L repo engines] Cons.prems obtain out where
    out: "calm harmless (r_Client r) (serving_answers L le repo engines) (EnsureLLMEngineStorage r le mr) (Some (Inr out))" by auto
  from Cons.prems have "list_all (mirrorable (r_Lib r) le) mrs" by simp
  from Cons.IH [OF this, of "map_set m (mr_Name mr) out"] obtain claims where
    claims: "calm harmless (r_Client r) (serving_answers L le repo engines) (ensure_each r le mrs (map_set m (mr_Name mr) out)) (Some (Inr claims))"
      "dom (map_of (map_set m (mr_Name mr) out)) \<union> mr_Name ` set mrs \<subseteq> dom (map_of claims)" by blast
  have "dom (map_of (map_set m (mr_Name mr) out)) = insert (mr_Name mr) (dom (map_of m))" by (auto simp: dom_def)
  moreover have "calm harmless (r_Client r) (serving_answers L le repo engines) (ensure_each r le (mr # mrs) m) (Some (Inr claims))"
    unfolding ensure_each.simps
    by (rule calm_bind [OF out]) (simp add: claims(1), intro logged_intros)
  ultimately show ?case using claims(2) by auto
qed (auto intro: calm_return)

lemma calm_own_and_apply:
  assumes "buildable E ctx"
  shows "calm harmless (r_Client (ce_Reconciler E)) (serving_answers L le repo engines) (own_and_apply E ctx a b obj) None"
proof -
  let ?calm = "calm harmless (r_Client (ce_Reconciler E)) (serving_answers L le repo engines)"
  from assms obtain m where m: "lib_SetControllerReference (r_Lib (ce_Reconciler E)) (le_Meta (ctx_LLMEngine ctx)) (obj_meta obj) = Inr m"
    unfolding buildable_def Let_def by (metis isl_def sum.exhaust_sel)
  have "toUnstructured E T = None" for T using assms by (simp add: buildable_def Let_def)
  then have "?calm (serverSideApply E obj') None" for obj'
    using logged_api(7) [OF serves_kinds(6)] logged_api(7) [OF serves_kinds(7)] logged_api(7) [OF serves_kinds(8)]
    by (cases obj') (simp_all add: serverSideApply_def api_Apply_object_def calm_def, simp_all add: api_defs spec_perform harmless_def)
  then show ?thesis
    unfolding own_and_apply_def m sum.case by (rule calm_bind) (simp_all add: calm_return logged_return)
qed

lemma calm_wl_Reconcile:
  assumes "NewModelComponent E (ctx_LLMEngine ctx) (ctx_ModelRepo ctx) = Some w" and "buildable E ctx"
  shows "calm harmless (r_Client (ce_Reconciler E)) (serving_answers L le repo engines) (wl_Reconcile E w ctx) (Some None)"
proof -
  let ?calm = "calm harmless (r_Client (ce_Reconciler E)) (serving_answers L le repo engines)"
  note w = component_parts [OF assms(1)] and own = calm_own_and_apply [OF assms(2), of L le repo engines]
  have manifests: "?calm (reconcileManifests E ctx (wl_manifestAdapters w)) None"
  proof (cases "les_EngineType (le_Spec (ctx_LLMEngine ctx)) = LLMEngineTypeVLLM")
    case True
    with assms(2) obtain yaml where "ce_Marshal E (vllm_config (ctx_LLMEngine ctx) (ctx_ModelRepo ctx)) = Inr yaml"
      unfolding buildable_def Let_def by (metis isl_def sum.exhaust_sel)
    with True show ?thesis
      by (auto simp: w reconcileManifest_def NewManifestAdapterWithPredicate_def IsVLLMEngine_def adapt_config_object_def
          AdaptVLLMConfigMap_def MarshalVLLMConfig_def Let_def calm_return intro!: calm_bind [OF own] logged_return split: option.split)
  qed (simp add: w calm_return)
  have dep: "?calm (reconcileDeployment E w ctx) (Some None)"
    using assms(2) calm_bind [OF own calm_return, of "\<lambda>e. Some e"]
    by (auto simp: reconcileDeployment_def w buildable_def Let_def logged_return split: sum.splits option.splits)
  have svc: "?calm (reconcileService E w ctx) (Some None)"
    using assms(2) calm_bind [OF own calm_return, of "\<lambda>e. Some e"]
    by (auto simp: reconcileService_def w buildable_def Let_def logged_return split: sum.splits option.splits)
  note logs = logged_workload_parts
  show ?thesis
    unfolding wl_Reconcile_def w(3) option.case sum.case updateResources_def if_False not_True_eq_False
    by (rule calm_bind [OF manifests], simp only: option.case, rule calm_bind [OF dep], simp only: option.case, rule svc)
      (intro logged_intros logs)+
qed

lemma calm_serve_each:
  assumes "list_all (servable E le) mrs" and "mr_Name ` set mrs \<subseteq> dom (map_of claims)"
  shows "calm harmless (r_Client (ce_Reconciler E)) (serving_answers L le repo engines) (serve_each E le claims mrs n)
    (Some (Inr (n + length mrs)))"
  using assms
proof (induction mrs arbitrary: n)
  case (Cons mr mrs)
  from Cons.prems obtain w claim where w: "NewModelComponent E le mr = Some w" and claim: "map_of claims (mr_Name mr) = Some claim"
    by (auto simp: servable_def)
  let ?ctx = "engine_context le mr (lsr_PVCName claim)"
  have "buildable E ?ctx" using Cons.prems by (simp add: servable_def)
  then have wl: "calm harmless (r_Client (ce_Reconciler E)) (serving_answers L le repo engines) (wl_Reconcile E w ?ctx) (Some None)"
    by (intro calm_wl_Reconcile) (simp_all add: w engine_context_def)
  have "calm harmless (r_Client (ce_Reconciler E)) (serving_answers L le repo engines) (serve_each E le claims mrs (Suc n))
      (Some (Inr (Suc n + length mrs)))"
    using Cons.prems by (intro Cons.IH) simp_all
  then show ?case
    unfolding serve_each.simps w claim or_panic_simps engine_context_def [symmetric]
    by (intro calm_bind [OF wl], simp only: or_panic_simps option.case)
      (intro calm_reading [OF serves_kinds(6)] harmless_reads, auto intro!: logged_intros split: sum.splits)
qed (simp add: calm_return)

lemma calm_updateReferencedEngines:
  assumes "retries_conflicts (r_RetryOnConflict r)"
    and "list_all (\<lambda>n. mst_ReferencedEngines (mr_Status (repo n)) = referenced_by (reference_map names engines) n) names"
  shows "calm harmless (r_Client r) (serving_answers L le repo engines) (updateReferencedEngines r names) ()"
proof -
  have one: "calm harmless (r_Client r) (serving_answers L le repo engines) (write_references r n refs) None"
    if "mst_ReferencedEngines (mr_Status (repo n)) = refs" for n refs
    unfolding write_references_def using that
    by (intro calm_retry [OF assms(1)] calm_reading [OF serves_kinds(1)] harmless_reads)
      (auto simp: calm_return intro!: logged_intros)
  have loop: "calm harmless (r_Client r) (serving_answers L le repo engines) (write_each r m ns) ()"
    if "list_all (\<lambda>n. mst_ReferencedEngines (mr_Status (repo n)) = referenced_by m n) ns" for m ns
    using that
  proof (induction ns)
    case (Cons n ns)
    have "logs r (write_each r m ns)" by (induction ns) (auto intro!: logged_intros logged_le_steps assms(1))
    then show ?case unfolding write_each.simps using Cons by (intro calm_bind [OF one]) simp_all
  qed (simp add: calm_return)
  have "logs r (write_each r m ns)" for m ns by (induction ns) (auto intro!: logged_intros logged_le_steps assms(1))
  then show ?thesis
    unfolding updateReferencedEngines_def
    by (intro calm_listing [OF serves_kinds(2)] harmless_reads) (auto simp: loop [OF assms(2)] intro!: logged_intros)
qed

lemma serving_status_kept:
  assumes "keeps_conditions L" and "says_serving L names s"
  shows "serving_status L names (length names) (length names) s = s"
  using assms
  by (simp add: says_serving_def keeps_conditions_def serving_status_def le_set_conditions_def deriveLLMEnginePhase_def
      condition_def Let_def)

lemma calm_le_sync:
  assumes "retries_conflicts (r_RetryOnConflict r)" and "compares_statuses (r_Lib r)" and "f (le_Status le) = le_Status le"
  shows "calm harmless (r_Client r) (serving_answers L le repo engines) (le_syncStatus r le f) None"
proof -
  have "lib_EngineStatusEqual (r_Lib r) (le_Status le) (f (le_Status le))"
    using assms(2,3) by (simp add: compares_statuses_def)
  then show ?thesis
    unfolding le_syncStatus_def by (intro calm_sync_status [OF assms(1), where x = le]) (simp_all add: serves_kinds)
qed

section \<open>The run\<close>

lemma calm_serve_models:
  assumes "retries_conflicts (r_RetryOnConflict (ce_Reconciler E))" and "compares_statuses (r_Lib (ce_Reconciler E))"
    and "keeps_conditions (r_Lib (ce_Reconciler E))" and "serving_engine E le repo engines"
    and mrs: "mrs = map (\<lambda>ref. repo (mref_Name ref)) (les_ModelRefs (le_Spec le))"
    and "mr_Name ` set mrs \<subseteq> dom (map_of claims)"
  shows "calm harmless (r_Client (ce_Reconciler E)) (serving_answers L le repo engines) (serve_models E le mrs claims)
    (Some (done_result, None))"
proof -
  let ?r = "ce_Reconciler E" and ?names = "map mref_Name (les_ModelRefs (le_Spec le))"
  have names: "map mr_Name mrs = ?names" "list_all (servable E le) mrs" "length mrs = length ?names"
    using assms(4) by (auto simp: mrs serving_engine_def list_all_iff Let_def)
  have refs: "list_all (\<lambda>n. mst_ReferencedEngines (mr_Status (repo n)) = referenced_by (reference_map ?names engines) n) ?names"
    using assms(4) by (auto simp: serving_engine_def list_all_iff Let_def)
  have "says_serving (r_Lib ?r) ?names (le_Status le)" using assms(4) by (simp add: serving_engine_def Let_def)
  from serving_status_kept [OF assms(3) this]
  have kept: "serving_status (r_Lib ?r) (map mr_Name mrs) (0 + length mrs) (length mrs) (le_Status le) = le_Status le"
    by (simp only: names add_0)
  note sync = calm_le_sync [where f = "serving_status (r_Lib ?r) (map mr_Name mrs) (0 + length mrs) (length mrs)", OF assms(1,2) kept]
  show ?thesis
    unfolding serve_models_def Let_def
    by (rule calm_bind [OF calm_serve_each [OF names(2) assms(6)]], simp only: or_panic_simps sum.case,
        rule calm_bind [OF calm_updateReferencedEngines [OF assms(1) refs, folded names(1)]], rule calm_bind [OF sync calm_return])
      (intro logged_intros logged_le_steps logged_updateReferencedEngines assms(1))+
qed

text \<open>
  (C11) An engine that serves is left alone: if the API server answers with an engine whose models are
  Ready and mounted, whose deployments are ready and whose status and references say so, a run of
  the reconciler ends with nothing to do; it has applied the components once more and written
  nothing else, so it wakes neither itself nor a repository.
\<close>

theorem serving_engine_left_alone:
  assumes "retries_conflicts (r_RetryOnConflict (ce_Reconciler E))" and "compares_statuses (r_Lib (ce_Reconciler E))"
    and "keeps_conditions (r_Lib (ce_Reconciler E))" and "serving_engine E le repo engines"
  shows "spec (le_Reconcile E req) (\<lambda>res evs. list_all (serving_answers (r_Lib (ce_Reconciler E)) le repo engines) evs \<longrightarrow>
    res = Some (done_result, None) \<and> list_all harmless evs)"
proof -
  let ?r = "ce_Reconciler E" and ?mrs = "map (\<lambda>ref. repo (mref_Name ref)) (les_ModelRefs (le_Spec le))"
  let ?calm = "calm harmless (r_Client ?r) (serving_answers (r_Lib ?r) le repo engines)"
  have parts: "om_DeletionTimestamp (le_Meta le) = None" "?mrs \<noteq> []"
    "lib_ContainsFinalizer (r_Lib ?r) (om_Finalizers (le_Meta le)) LLMEngineFinalizer"
    "list_all (mirrorable (r_Lib ?r) le) ?mrs" "find (\<lambda>mr. mst_Phase (mr_Status mr) \<noteq> DownloadPhaseReady) ?mrs = None"
    using assms(4) by (auto simp: serving_engine_def servable_def list_all_iff find_None_iff Let_def)
  have logs: "logs ?r (serve_models E le mrs claims)" "logs ?r (prepare_and_serve E le mrs)" "logs ?r (reconcile_models E le mrs)" for le mrs claims
    unfolding reconcile_models_def prepare_and_serve_def serve_models_def validateGPUAvailability_def Let_def
    by (intro logged_intros logged_le_steps logged_updateReferencedEngines assms(1))+
  obtain claims where claims: "?calm (ensure_each ?r le ?mrs []) (Some (Inr claims))" "mr_Name ` set ?mrs \<subseteq> dom (map_of claims)"
    using calm_ensure_each [OF parts(4), of "r_Lib ?r" repo engines "[]"] by auto
  have prep: "?calm (prepare_and_serve E le ?mrs) (Some (done_result, None))"
    unfolding prepare_and_serve_def Let_def
    by (rule calm_bind [OF claims(1)], simp only: or_panic_simps sum.case, rule calm_serve_models [OF assms refl claims(2)])
      (intro logged_intros logged_le_steps logs assms(1))
  have models: "?calm (reconcile_models E le ?mrs) (Some (done_result, None))"
    unfolding reconcile_models_def Let_def if_not_P [OF parts(2)] parts(5) option.case
    by (cases "DetectGPURequest le")
      (simp_all only: if_True if_False prep, rule calm_bind [OF calm_validate], simp only: option.case prep,
        intro logged_intros logged_le_steps logs assms(1))
  have "?calm (le_Reconcile E req) (Some (done_result, None))"
    unfolding le_Reconcile_def Let_def fetchModelRepositories_def
    by (intro calm_reading [OF serves_kinds(2)] harmless_reads)
      (auto simp: parts le_handleDeletion_def intro!: calm_bind [OF calm_return] calm_bind [OF calm_fetch] models logged_intros logged_le_steps
        logged_updateReferencedEngines logs assms(1))
  then show ?thesis by (simp add: calm_def)
qed

text \<open>The sample engine, serving the settled sample repository.\<close>

definition serving_sample :: LLMEngine where
  "serving_sample = sample_engine\<lparr>le_Meta := (le_Meta sample_engine)\<lparr>om_Finalizers := [LLMEngineFinalizer]\<rparr>,
     le_Status := \<lparr>lst_Phase = ''Running'',
       lst_Conditions =
         [condition LLMEngineConditionModelsAvailable ConditionTrue LLMEngineReasonModelsReady ''All referenced models are available'',
          condition LLMEngineConditionReady ConditionTrue LLMEngineReasonDeploymentsReady ''All 1 model deployments ready''],
       lst_ModelRepositories = [''llama'']\<rparr>\<rparr>"

definition served_repo :: ModelRepository where
  "served_repo = settled_repo\<lparr>mr_Status := (mr_Status settled_repo)\<lparr>mst_ReferencedEngines := ''team-a/chat''\<rparr>\<rparr>"

lemma sample_loads:
  "LoadLLMEngineDeploymentManifest (ce_Assets sample_env) LLMEngineTypeVLLM = Inr sample_template"
  "LoadLLMEngineServiceManifest (ce_Assets sample_env) LLMEngineTypeVLLM = Inr sample_service"
  by (simp_all add: LoadLLMEngineDeploymentManifest_def LoadLLMEngineServiceManifest_def loadLLMEngineManifestInto_def
      load_manifest_def ReadFile_def sample_env_def)

lemma sample_buildable: "buildable sample_env (engine_context serving_sample served_repo claim)"
proof -
  let ?ctx = "engine_context serving_sample served_repo claim"
  let ?d = "sample_template\<lparr>dep_Meta := (dep_Meta sample_template)\<lparr>om_Namespace := ctx_Namespace ?ctx\<rparr>\<rparr>"
  let ?s = "sample_service\<lparr>svc_Meta := (svc_Meta sample_service)\<lparr>om_Namespace := ctx_Namespace ?ctx\<rparr>\<rparr>"
  have type: "les_EngineType (le_Spec (ctx_LLMEngine ?ctx)) = LLMEngineTypeVLLM"
    by (simp add: engine_context_def serving_sample_def sample_engine_def)
  have lib: "r_Lib (ce_Reconciler sample_env) = mem_lib" "\<And>o' m. \<not> isl (lib_SetControllerReference mem_lib o' m)"
    "\<And>T. toUnstructured sample_env T = None"
    by (simp_all add: sample_env_def mem_lib_def toUnstructured_def)
  have "\<not> nonfinite (CMap (vllm_config serving_sample served_repo))" by code_simp
  then have config: "\<not> isl (ce_Marshal sample_env (vllm_config (ctx_LLMEngine ?ctx) (ctx_ModelRepo ?ctx)))"
    by (simp add: sample_env_def sample_marshal_def engine_context_def)
  have name: "ComponentName (le_Name (ctx_LLMEngine ?ctx)) (mr_Name (ctx_ModelRepo ?ctx)) = Some ''chat-llama''"
    using sample_ComponentName by (simp add: engine_context_def serving_sample_def served_repo_def settled_repo_def sample_engine_def)
  have "usable_template ?d"
    using sample_usable by (simp add: usable_template_def dep_container_def)
  from AdaptDeployment_total [OF this name, of mem_lib] obtain d' where "AdaptDeployment mem_lib ?ctx ?d = Some (Inr d')" by blast
  moreover from name obtain s' where "AdaptService ?ctx ?s = Some (Inr s')"
    by (auto simp: AdaptService_def sample_service_def Let_def)
  ultimately show ?thesis
    using config unfolding buildable_def Let_def type sample_loads lib by (simp add: lib)
qed

lemma sample_serving: "serving_engine sample_env serving_sample (\<lambda>_. served_repo) [serving_sample]"
proof -
  have "NewModelComponent sample_env serving_sample served_repo \<noteq> None"
    using sample_ComponentName by (simp add: NewModelComponent_def serving_sample_def served_repo_def settled_repo_def sample_engine_def Let_def)
  moreover have "mirrorable mem_lib serving_sample served_repo" by code_simp
  moreover have "says_serving mem_lib [''llama''] (le_Status serving_sample)" by code_simp
  moreover have "referenced_by (reference_map [''llama''] [serving_sample]) ''llama'' = ''team-a/chat''" by code_simp
  ultimately show ?thesis
    using sample_buildable
    by (simp add: serving_engine_def servable_def Let_def sample_env_def)
      (simp add: serving_sample_def served_repo_def settled_repo_def sample_repo_def sample_engine_def mem_lib_def emptyMeta_def)
qed

text \<open>The run on a cluster at rest, step by step.\<close>

definition serving_cluster :: cluster where
  "serving_cluster = ready_cluster\<lparr>k_Repo := [(([], ''llama''), served_repo)], k_Engine := [((''team-a'', ''chat''), serving_sample)]\<rparr>"

definition serving_component :: llmEngineWorkload where
  "serving_component = the (NewModelComponent sample_env serving_sample served_repo)"

definition rest_run0 :: "(cluster, event) sys" where
  "rest_run0 = \<lparr>world = serving_cluster, trace = []\<rparr>"

definition rest_run1 :: "(cluster, event) sys" where
  "rest_run1 = snd (run_state (api_Get OnEngine (cl_Engine mem_client) (''team-a'', ''chat'')) rest_run0)"

definition rest_run2 :: "(cluster, event) sys" where
  "rest_run2 = snd (run_state (fetchModelRepositories mem_reconciler serving_sample) rest_run1)"

definition rest_run3 :: "(cluster, event) sys" where
  "rest_run3 = snd (run_state (EnsureLLMEngineStorage mem_reconciler serving_sample served_repo) rest_run2)"

definition rest_run4 :: "(cluster, event) sys" where
  "rest_run4 = snd (run_state (wl_Reconcile sample_env serving_component (engine_context serving_sample served_repo ''le-chat-llama'')) rest_run3)"

definition rest_run5 :: "(cluster, event) sys" where
  "rest_run5 = snd (run_state (api_Get OnDeployment (cl_Deployment mem_client) (''team-a'', ''chat-llama'')) rest_run4)"

definition rest_run6 :: "(cluster, event) sys" where
  "rest_run6 = snd (run_state (updateReferencedEngines mem_reconciler [''llama'']) rest_run5)"

definition rest_run7 :: "(cluster, event) sys" where
  "rest_run7 = snd (run_state (le_syncStatus mem_reconciler serving_sample (serving_status mem_lib [''llama''] (Suc 0) (Suc 0))) rest_run6)"

lemma rest_steps:
  "run_state (api_Get OnEngine (cl_Engine mem_client) (''team-a'', ''chat'')) rest_run0 = (Inr serving_sample, rest_run1)"
  "run_state (fetchModelRepositories mem_reconciler serving_sample) rest_run1 = (Inr [served_repo], rest_run2)"
  "run_state (EnsureLLMEngineStorage mem_reconciler serving_sample served_repo) rest_run2 = (Some (Inr sample_claim), rest_run3)"
  "run_state (wl_Reconcile sample_env serving_component (engine_context serving_sample served_repo ''le-chat-llama'')) rest_run3 = (Some None, rest_run4)"
  "run_state (updateReferencedEngines mem_reconciler [''llama'']) rest_run5 = ((), rest_run6)"
  "run_state (le_syncStatus mem_reconciler serving_sample (serving_status mem_lib [''llama''] (Suc 0) (Suc 0))) rest_run6 = (None, rest_run7)"
  by (rule runI, code_simp,
      simp only: rest_run1_def rest_run2_def rest_run3_def rest_run4_def rest_run6_def rest_run7_def)+

lemma rest_lookup:
  "\<exists>d. run_state (api_Get OnDeployment (cl_Deployment mem_client) (''team-a'', ''chat-llama'')) rest_run4 = (Inr d, rest_run5) \<and>
     dep_ReadyReplicas d > 0"
proof -
  let ?get = "run_state (api_Get OnDeployment (cl_Deployment mem_client) (''team-a'', ''chat-llama'')) rest_run4"
  have "case fst ?get of Inr d \<Rightarrow> dep_ReadyReplicas d > 0 | _ \<Rightarrow> False" by code_simp
  then obtain d where "fst ?get = Inr d" "dep_ReadyReplicas d > 0" by (auto split: sum.splits)
  with runI [OF this(1) rest_run5_def] show ?thesis by blast
qed

lemma serving_facts:
  "find (\<lambda>mr. mst_Phase (mr_Status mr) \<noteq> DownloadPhaseReady) [served_repo] = None" "\<not> DetectGPURequest serving_sample"
  "mr_Name served_repo = ''llama''" "le_Namespace serving_sample = ''team-a''" "om_DeletionTimestamp (le_Meta serving_sample) = None"
  "deployment_lookup_name serving_sample served_repo = ''chat-llama''" "lsr_PVCName sample_claim = ''le-chat-llama''"
  "lib_ContainsFinalizer mem_lib (om_Finalizers (le_Meta serving_sample)) LLMEngineFinalizer"
  by code_simp+

lemma rest_run: "run_state (le_Reconcile sample_env (''team-a'', ''chat'')) rest_run0 = (Some (done_result, None), rest_run7)"
proof -
  have env: "ce_Reconciler sample_env = mem_reconciler" "r_Client mem_reconciler = mem_client" "r_Lib mem_reconciler = mem_lib"
    by (simp_all add: sample_env_def mem_reconciler_def)
  have "NewModelComponent sample_env serving_sample served_repo = Some serving_component"
    using sample_ComponentName
    by (simp add: serving_component_def NewModelComponent_def serving_sample_def served_repo_def settled_repo_def sample_engine_def Let_def)
  moreover obtain d where "run_state (api_Get OnDeployment (cl_Deployment mem_client) (''team-a'', ''chat-llama'')) rest_run4 = (Inr d, rest_run5)"
    "dep_ReadyReplicas d > 0" using rest_lookup by blast
  ultimately have "run_state (prepare_and_serve sample_env serving_sample [served_repo]) rest_run2 = (Some (done_result, None), rest_run7)"
    using rest_steps
    by (intro prepare_and_serve_run [where claim = sample_claim]) (simp_all add: env serving_facts engine_context_def)
  then show ?thesis
    by (simp add: le_Reconcile_def reconcile_models_def env serving_facts rest_steps(1,2) Let_def del: find.simps)
qed

theorem serving_engine_left_alone_witness:
  "case run_state (le_Reconcile sample_env (''team-a'', ''chat'')) rest_run0 of (res, s) \<Rightarrow>
     list_all (serving_answers mem_lib serving_sample (\<lambda>_. served_repo) [serving_sample]) (trace s) \<and>
     res = Some (done_result, None) \<and> list_all harmless (trace s)"
proof -
  have "list_all (serving_answers mem_lib serving_sample (\<lambda>_. served_repo) [serving_sample]) (trace rest_run7)" by code_simp
  moreover have "spec (le_Reconcile sample_env (''team-a'', ''chat'')) (\<lambda>res evs.
      list_all (serving_answers mem_lib serving_sample (\<lambda>_. served_repo) [serving_sample]) evs \<longrightarrow>
      res = Some (done_result, None) \<and> list_all harmless evs)"
    using serving_engine_left_alone [of sample_env serving_sample "\<lambda>_. served_repo" "[serving_sample]" "(''team-a'', ''chat'')"]
      sample_serving mem_keeps_conditions by (simp add: sample_env_def)
  ultimately show ?thesis using spec_run [OF _ rest_run] by (simp add: rest_run rest_run0_def [symmetric]) (auto simp: rest_run0_def)
qed

end
