(* ===== verification/Go_Heap.thy ===== *)
theory Go_Heap
  imports Prelude
begin

text \<open>
  Go's heap, for the code whose point is aliasing: the generated deep copies. A heap is the list of
  its cells and an address an index into it; allocating appends a cell. A pointer, a slice or a
  map is a reference, nil or to a cell that holds the value, the backing array or the entries.

  The locale \<open>deep_copier\<close> is the contract of a deep copy: what a reference stands for (\<open>view\<close>)
  depends only on the cells that can be reached from it (\<open>reach\<close>), and the copy stands for the
  same value in cells of its own. Its instances compose: values, maps, slices, pointers, pairs and
  structs.
\<close>

section \<open>Heaps\<close>

type_synonym 'c heap = "'c list"

datatype ref = NilRef | Ref nat

definition deref :: "'c heap \<Rightarrow> nat \<Rightarrow> 'c option" where
  "deref h a = (if a < length h then Some (h ! a) else None)"

text \<open>A kind of cell: how its content is put in and taken out.\<close>

record ('c, 'x) kind =
  k_in :: "'x \<Rightarrow> 'c"
  k_out :: "'c \<Rightarrow> 'x option"

definition wf_kind :: "('c, 'x) kind \<Rightarrow> bool" where
  "wf_kind K = (\<forall>c x. k_out K c = Some x \<longleftrightarrow> c = k_in K x)"

definition load :: "('c, 'x) kind \<Rightarrow> 'c heap \<Rightarrow> nat \<Rightarrow> 'x option" where
  "load K h a = Option.bind (deref h a) (k_out K)"

definition new :: "('c, 'x) kind \<Rightarrow> 'c heap \<Rightarrow> 'x \<Rightarrow> ref \<times> 'c heap" where
  "new K h x = (Ref (length h), h @ [k_in K x])"

lemma deref_append [simp]: "a < length h \<Longrightarrow> deref (h @ e) a = deref h a"
  by (simp add: deref_def nth_append)

lemma deref_new [simp]: "deref (h @ [c]) (length h) = Some c"
  by (simp add: deref_def)

lemma load_lt: "load K h a = Some x \<Longrightarrow> a < length h"
  by (simp add: load_def deref_def split: if_splits)

lemma load_cong: "deref h' a = deref h a \<Longrightarrow> load K h' a = load K h a"
  by (simp add: load_def)

lemma load_new [simp]: "wf_kind K \<Longrightarrow> load K (h @ [k_in K x]) (length h) = Some x"
  by (simp add: load_def wf_kind_def)

section \<open>Copying\<close>

text \<open>
  \<^verbatim>\<open>make\<close> and a loop over the entries of a map; \<^verbatim>\<open>make\<close> and a copy of each element of a slice;
  \<^verbatim>\<open>new\<close> and a copy of what a pointer points to. Nil stays nil.
\<close>

definition copy_map :: "('c, 'v gomap) kind \<Rightarrow> 'c heap \<Rightarrow> ref \<Rightarrow> (ref \<times> 'c heap) option" where
  "copy_map K h p = (case p of
     NilRef \<Rightarrow> Some (NilRef, h)
   | Ref a \<Rightarrow> do { m \<leftarrow> load K h a; Some (new K h (map_put_all [] m)) })"

definition copy_slice :: "('c, 'x list) kind \<Rightarrow> ('x \<Rightarrow> 'x) \<Rightarrow> 'c heap \<Rightarrow> ref \<Rightarrow> (ref \<times> 'c heap) option" where
  "copy_slice K f h p = (case p of
     NilRef \<Rightarrow> Some (NilRef, h)
   | Ref a \<Rightarrow> do { xs \<leftarrow> load K h a; Some (new K h (map f xs)) })"

fun copy_each :: "('c heap \<Rightarrow> 'x \<Rightarrow> ('x \<times> 'c heap) option) \<Rightarrow> 'c heap \<Rightarrow> 'x list \<Rightarrow> ('x list \<times> 'c heap) option" where
  "copy_each into h [] = Some ([], h)"
| "copy_each into h (x # xs) = do {
     (y, h1) \<leftarrow> into h x;
     (ys, h2) \<leftarrow> copy_each into h1 xs;
     Some (y # ys, h2) }"

definition copy_items ::
  "('c, 'x list) kind \<Rightarrow> ('c heap \<Rightarrow> 'x \<Rightarrow> ('x \<times> 'c heap) option) \<Rightarrow> 'c heap \<Rightarrow> ref \<Rightarrow> (ref \<times> 'c heap) option" where
  "copy_items K into h p = (case p of
     NilRef \<Rightarrow> Some (NilRef, h)
   | Ref a \<Rightarrow> do { xs \<leftarrow> load K h a; (ys, h1) \<leftarrow> copy_each into h xs; Some (new K h1 ys) })"

definition copy_ptr ::
  "('c, 'x) kind \<Rightarrow> ('c heap \<Rightarrow> 'x \<Rightarrow> ('x \<times> 'c heap) option) \<Rightarrow> 'c heap \<Rightarrow> ref \<Rightarrow> (ref \<times> 'c heap) option" where
  "copy_ptr K into h p = (case p of
     NilRef \<Rightarrow> Some (NilRef, h)
   | Ref a \<Rightarrow> do { x \<leftarrow> load K h a; (y, h1) \<leftarrow> into h x; Some (new K h1 y) })"

section \<open>What a reference stands for\<close>

text \<open>Nil slices and maps stand for the empty ones, as they do for the reader of a Go value.\<close>

definition view_map :: "('c, 'v gomap) kind \<Rightarrow> 'c heap \<Rightarrow> ref \<Rightarrow> 'v gomap option" where
  "view_map K h p = (case p of
     NilRef \<Rightarrow> Some []
   | Ref a \<Rightarrow> do { m \<leftarrow> load K h a; if wf_map m then Some m else None })"

definition view_slice :: "('c, 'x list) kind \<Rightarrow> 'c heap \<Rightarrow> ref \<Rightarrow> 'x list option" where
  "view_slice K h p = (case p of NilRef \<Rightarrow> Some [] | Ref a \<Rightarrow> load K h a)"

fun view_each :: "('c heap \<Rightarrow> 'x \<Rightarrow> 'v option) \<Rightarrow> 'c heap \<Rightarrow> 'x list \<Rightarrow> 'v list option" where
  "view_each view h [] = Some []"
| "view_each view h (x # xs) = do { v \<leftarrow> view h x; vs \<leftarrow> view_each view h xs; Some (v # vs) }"

definition view_items :: "('c, 'x list) kind \<Rightarrow> ('c heap \<Rightarrow> 'x \<Rightarrow> 'v option) \<Rightarrow> 'c heap \<Rightarrow> ref \<Rightarrow> 'v list option" where
  "view_items K view h p = (case p of NilRef \<Rightarrow> Some [] | Ref a \<Rightarrow> do { xs \<leftarrow> load K h a; view_each view h xs })"

definition view_ptr :: "('c, 'x) kind \<Rightarrow> ('c heap \<Rightarrow> 'x \<Rightarrow> 'v option) \<Rightarrow> 'c heap \<Rightarrow> ref \<Rightarrow> 'v option option" where
  "view_ptr K view h p = (case p of NilRef \<Rightarrow> Some None | Ref a \<Rightarrow> do { x \<leftarrow> load K h a; v \<leftarrow> view h x; Some (Some v) })"

fun reach_ref :: "'c heap \<Rightarrow> ref \<Rightarrow> nat set" where
  "reach_ref h NilRef = {}"
| "reach_ref h (Ref a) = {a}"

definition reach_each :: "('c heap \<Rightarrow> 'x \<Rightarrow> nat set) \<Rightarrow> 'c heap \<Rightarrow> 'x list \<Rightarrow> nat set" where
  "reach_each reach h xs = (\<Union>x \<in> set xs. reach h x)"

definition reach_ptr :: "('c, 'x) kind \<Rightarrow> ('c heap \<Rightarrow> 'x \<Rightarrow> nat set) \<Rightarrow> 'c heap \<Rightarrow> ref \<Rightarrow> nat set" where
  "reach_ptr K reach h p = (case p of
     NilRef \<Rightarrow> {}
   | Ref a \<Rightarrow> insert a (case load K h a of None \<Rightarrow> {} | Some x \<Rightarrow> reach h x))"

section \<open>The contract of a deep copy\<close>

text \<open>
  \<open>frame\<close>: what is reached determines the view. \<open>allocated\<close>: what is reached exists. \<open>copied\<close>: a
  copy only allocates, stands for the same value and reaches only what it has allocated.
\<close>

locale deep_copier =
  fixes view :: "'c heap \<Rightarrow> 'x \<Rightarrow> 'v option"
    and reach :: "'c heap \<Rightarrow> 'x \<Rightarrow> nat set"
    and copy :: "'c heap \<Rightarrow> 'x \<Rightarrow> ('x \<times> 'c heap) option"
  assumes frame: "view h x = Some v \<Longrightarrow> \<forall>a \<in> reach h x. deref h' a = deref h a \<Longrightarrow> view h' x = Some v \<and> reach h' x = reach h x"
    and allocated: "view h x = Some v \<Longrightarrow> a \<in> reach h x \<Longrightarrow> a < length h"
    and copied: "view h x = Some v \<Longrightarrow>
      \<exists>y e. copy h x = Some (y, h @ e) \<and> view (h @ e) y = Some v \<and> (\<forall>a \<in> reach (h @ e) y. length h \<le> a)"
begin

lemma extended: "view h x = Some v \<Longrightarrow> view (h @ e) x = Some v \<and> reach (h @ e) x = reach h x"
  using frame allocated by (metis deref_append)

lemma copyE:
  assumes "view h x = Some v"
  obtains y e where "copy h x = Some (y, h @ e)" "view (h @ e) y = Some v" "\<And>a. a \<in> reach (h @ e) y \<Longrightarrow> length h \<le> a"
    "view (h @ e) x = Some v" "reach (h @ e) x = reach h x"
  using copied [OF assms] extended [OF assms] by blast

text \<open>Original and copy do not share a cell.\<close>

lemma copy_disjoint:
  assumes "view h x = Some v" and "copy h x = Some (y, h1)"
  shows "view h1 x = Some v" "view h1 y = Some v" "reach h1 x \<inter> reach h1 y = {}"
proof -
  obtain e where e: "h1 = h @ e" "view h1 y = Some v" "\<And>a. a \<in> reach h1 y \<Longrightarrow> length h \<le> a"
    using copyE [OF assms(1)] assms(2) by (metis option.inject prod.inject)
  from extended [OF assms(1)] show "view h1 x = Some v" unfolding e(1) by blast
  from e show "view h1 y = Some v" by simp
  show "reach h1 x \<inter> reach h1 y = {}"
    using extended [OF assms(1), of e] allocated [OF assms(1)] e by (fastforce simp: not_le)
qed

text \<open>Whatever is written to what the original reaches, or to new cells, the copy stands for what was copied.\<close>

lemma copy_isolated:
  assumes "view h x = Some v" and "copy h x = Some (y, h1)" and "\<forall>a. a \<notin> reach h1 x \<longrightarrow> a < length h1 \<longrightarrow> deref h2 a = deref h1 a"
  shows "view h2 y = Some v"
proof -
  note d = copy_disjoint [OF assms(1,2)]
  have "\<forall>a \<in> reach h1 y. deref h2 a = deref h1 a"
    using assms(3) d(3) allocated [OF d(2)] by blast
  from frame [OF d(2) this] show ?thesis by blast
qed

end
section \<open>Instances\<close>

named_theorems copier_intros

text \<open>A value without references, copied by a function that returns it.\<close>

lemma deep_copier_value [copier_intros]:
  assumes "\<And>x. f x = x"
  shows "deep_copier (\<lambda>h x. Some x) (\<lambda>h x. {}) (\<lambda>h x. Some (f x, h))"
  by unfold_locales (auto simp: assms)

lemma map_put_all_fresh: "wf_map (dst @ src) \<Longrightarrow> map_put_all dst src = dst @ src"
proof (induction src arbitrary: dst)
  case (Cons kv src)
  obtain k v where kv: "kv = (k, v)" by (cases kv)
  with Cons.prems have "map_of dst k = None" by (auto simp: wf_map_def map_of_eq_None_iff)
  with Cons kv show ?case by (simp add: map_set_fresh)
qed simp

lemma deep_copier_map [copier_intros]: "wf_kind K \<Longrightarrow> deep_copier (view_map K) reach_ref (copy_map K)"
proof unfold_locales
  fix h h' :: "'a heap" and p m
  assume "view_map K h p = Some m" "\<forall>a \<in> reach_ref h p. deref h' a = deref h a"
  then show "view_map K h' p = Some m \<and> reach_ref h' p = reach_ref h p"
    by (cases p) (simp_all add: view_map_def load_cong [of h' _ h])
next
  fix h :: "'a heap" and p m a
  assume "view_map K h p = Some m" "a \<in> reach_ref h p"
  then show "a < length h" by (cases p) (auto simp: view_map_def bind_eq_Some_conv dest: load_lt)
next
  fix h :: "'a heap" and p m
  assume "wf_kind K" "view_map K h p = Some m"
  then show "\<exists>y e. copy_map K h p = Some (y, h @ e) \<and> view_map K (h @ e) y = Some m \<and> (\<forall>a \<in> reach_ref (h @ e) y. length h \<le> a)"
    by (cases p) (auto simp: view_map_def copy_map_def new_def bind_eq_Some_conv map_put_all_fresh split: if_splits)
qed

lemma deep_copier_slice [copier_intros]:
  assumes "wf_kind K" and "\<And>x. f x = x"
  shows "deep_copier (view_slice K) reach_ref (copy_slice K f)"
proof unfold_locales
  fix h h' :: "'a heap" and p xs
  assume "view_slice K h p = Some xs" "\<forall>a \<in> reach_ref h p. deref h' a = deref h a"
  then show "view_slice K h' p = Some xs \<and> reach_ref h' p = reach_ref h p"
    by (cases p) (simp_all add: view_slice_def load_cong [of h' _ h])
next
  fix h :: "'a heap" and p xs a
  assume "view_slice K h p = Some xs" "a \<in> reach_ref h p"
  then show "a < length h" by (cases p) (auto simp: view_slice_def dest: load_lt)
next
  fix h :: "'a heap" and p xs
  assume "view_slice K h p = Some xs"
  then show "\<exists>y e. copy_slice K f h p = Some (y, h @ e) \<and> view_slice K (h @ e) y = Some xs \<and> (\<forall>a \<in> reach_ref (h @ e) y. length h \<le> a)"
    using assms by (cases p) (auto simp: view_slice_def copy_slice_def new_def map_idI)
qed

context deep_copier
begin

lemma frame_each:
  "view_each view h xs = Some vs \<Longrightarrow> \<forall>a \<in> reach_each reach h xs. deref h' a = deref h a \<Longrightarrow>
     view_each view h' xs = Some vs \<and> reach_each reach h' xs = reach_each reach h xs"
  by (induction xs arbitrary: vs) (auto simp: reach_each_def bind_eq_Some_conv dest: frame)

lemma allocated_each: "view_each view h xs = Some vs \<Longrightarrow> a \<in> reach_each reach h xs \<Longrightarrow> a < length h"
  by (induction xs arbitrary: vs) (auto simp: reach_each_def bind_eq_Some_conv dest: allocated)

lemma extended_each: "view_each view h xs = Some vs \<Longrightarrow> view_each view (h @ e) xs = Some vs \<and> reach_each reach (h @ e) xs = reach_each reach h xs"
  using frame_each allocated_each by (metis deref_append)

lemma copied_each:
  "view_each view h xs = Some vs \<Longrightarrow>
     \<exists>ys e. copy_each copy h xs = Some (ys, h @ e) \<and> view_each view (h @ e) ys = Some vs \<and>
       (\<forall>a \<in> reach_each reach (h @ e) ys. length h \<le> a)"
proof (induction xs arbitrary: h vs)
  case (Cons x xs)
  then obtain v vs' where v: "view h x = Some v" "view_each view h xs = Some vs'" "vs = v # vs'"
    by (auto simp: bind_eq_Some_conv)
  from copied [OF v(1)] obtain y e1 where y: "copy h x = Some (y, h @ e1)" "view (h @ e1) y = Some v"
    "\<forall>a \<in> reach (h @ e1) y. length h \<le> a" by blast
  from Cons.IH [OF extended_each [OF v(2), THEN conjunct1], of e1] obtain ys e2 where
    ys: "copy_each copy (h @ e1) xs = Some (ys, (h @ e1) @ e2)" "view_each view ((h @ e1) @ e2) ys = Some vs'"
      "\<forall>a \<in> reach_each reach ((h @ e1) @ e2) ys. length (h @ e1) \<le> a" by blast
  from extended [OF y(2), of e2] y ys v(3) show ?case
    by (intro exI [of _ "y # ys"] exI [of _ "e1 @ e2"]) (auto simp: reach_each_def intro: add_leD1)
qed (simp add: reach_each_def)

lemma deep_copier_ptr:
  assumes "wf_kind K"
  shows "deep_copier (view_ptr K view) (reach_ptr K reach) (copy_ptr K copy)"
proof unfold_locales
  fix h h' p v
  assume "view_ptr K view h p = Some v" "\<forall>a \<in> reach_ptr K reach h p. deref h' a = deref h a"
  then show "view_ptr K view h' p = Some v \<and> reach_ptr K reach h' p = reach_ptr K reach h p"
    using frame [of h _ _ h'] by (cases p) (auto simp: view_ptr_def reach_ptr_def bind_eq_Some_conv load_cong [of h' _ h])
next
  fix h p v a
  assume "view_ptr K view h p = Some v" "a \<in> reach_ptr K reach h p"
  then show "a < length h"
    by (cases p) (auto simp: view_ptr_def reach_ptr_def bind_eq_Some_conv dest: load_lt allocated)
next
  fix h p v
  assume v: "view_ptr K view h p = Some v"
  show "\<exists>y e. copy_ptr K copy h p = Some (y, h @ e) \<and> view_ptr K view (h @ e) y = Some v \<and> (\<forall>a \<in> reach_ptr K reach (h @ e) y. length h \<le> a)"
  proof (cases p)
    case (Ref b)
    with v obtain x w where x: "load K h b = Some x" "view h x = Some w" "v = Some w"
      by (auto simp: view_ptr_def bind_eq_Some_conv)
    from copied [OF x(2)] obtain y e where y: "copy h x = Some (y, h @ e)" "view (h @ e) y = Some w"
      "\<forall>a \<in> reach (h @ e) y. length h \<le> a" by blast
    have "load K (h @ e @ [k_in K y]) (length h + length e) = Some y" using load_new [OF assms, of "h @ e" y] by simp
    with extended [OF y(2), of "[k_in K y]"] x y Ref show ?thesis
      by (intro exI [of _ "Ref (length h + length e)"] exI [of _ "e @ [k_in K y]"])
        (auto simp: copy_ptr_def view_ptr_def reach_ptr_def new_def)
  qed (simp add: copy_ptr_def view_ptr_def reach_ptr_def, use v in \<open>simp add: view_ptr_def\<close>)
qed

lemma deep_copier_items:
  assumes "wf_kind K"
  shows "deep_copier (view_items K view) (reach_ptr K (reach_each reach)) (copy_items K copy)"
proof -
  have "deep_copier (view_each view) (reach_each reach) (copy_each copy)"
    by unfold_locales (use frame_each allocated_each copied_each in blast)+
  from deep_copier.deep_copier_ptr [OF this assms] have ptr: "deep_copier (view_ptr K (view_each view)) (reach_ptr K (reach_each reach)) (copy_ptr K (copy_each copy))" .
  have copy: "copy_items K copy = copy_ptr K (copy_each copy)"
    by (intro ext) (simp add: copy_items_def copy_ptr_def)
  have view: "view_items K view h p = Some vs \<longleftrightarrow> (\<exists>w. view_ptr K (view_each view) h p = Some w \<and> vs = (case w of None \<Rightarrow> [] | Some vs \<Rightarrow> vs))" for h p vs
    by (cases p) (auto simp: view_items_def view_ptr_def bind_eq_Some_conv)
  show ?thesis
    unfolding copy
  proof unfold_locales
    fix h h' p vs
    assume "view_items K view h p = Some vs" "\<forall>a \<in> reach_ptr K (reach_each reach) h p. deref h' a = deref h a"
    then show "view_items K view h' p = Some vs \<and> reach_ptr K (reach_each reach) h' p = reach_ptr K (reach_each reach) h p"
      using deep_copier.frame [OF ptr] unfolding view by blast
  next
    fix h p vs a
    assume "view_items K view h p = Some vs" "a \<in> reach_ptr K (reach_each reach) h p"
    then show "a < length h" using deep_copier.allocated [OF ptr] unfolding view by blast
  next
    fix h p vs
    assume "view_items K view h p = Some vs"
    then show "\<exists>y e. copy_ptr K (copy_each copy) h p = Some (y, h @ e) \<and> view_items K view (h @ e) y = Some vs \<and>
        (\<forall>a \<in> reach_ptr K (reach_each reach) (h @ e) y. length h \<le> a)"
      using deep_copier.copied [OF ptr] unfolding view by blast
  qed
qed

end

lemmas deep_copier_nested [copier_intros] = deep_copier.deep_copier_ptr deep_copier.deep_copier_items

text \<open>Two parts of a struct, copied one after the other.\<close>

definition view_pair :: "('c heap \<Rightarrow> 'x \<Rightarrow> 'v option) \<Rightarrow> ('c heap \<Rightarrow> 'y \<Rightarrow> 'w option) \<Rightarrow> 'c heap \<Rightarrow> 'x \<times> 'y \<Rightarrow> ('v \<times> 'w) option" where
  "view_pair f g h p = do { v \<leftarrow> f h (fst p); w \<leftarrow> g h (snd p); Some (v, w) }"

definition reach_pair :: "('c heap \<Rightarrow> 'x \<Rightarrow> nat set) \<Rightarrow> ('c heap \<Rightarrow> 'y \<Rightarrow> nat set) \<Rightarrow> 'c heap \<Rightarrow> 'x \<times> 'y \<Rightarrow> nat set" where
  "reach_pair f g h p = f h (fst p) \<union> g h (snd p)"

definition copy_pair ::
  "('c heap \<Rightarrow> 'x \<Rightarrow> ('x \<times> 'c heap) option) \<Rightarrow> ('c heap \<Rightarrow> 'y \<Rightarrow> ('y \<times> 'c heap) option) \<Rightarrow>
   'c heap \<Rightarrow> 'x \<times> 'y \<Rightarrow> (('x \<times> 'y) \<times> 'c heap) option" where
  "copy_pair f g h p = do { (x, h1) \<leftarrow> f h (fst p); (y, h2) \<leftarrow> g h1 (snd p); Some ((x, y), h2) }"

lemma deep_copier_pair [copier_intros]:
  assumes "deep_copier v1 r1 c1" and "deep_copier v2 r2 c2"
  shows "deep_copier (view_pair v1 v2) (reach_pair r1 r2) (copy_pair c1 c2)"
proof unfold_locales
  fix h h' p v
  assume "view_pair v1 v2 h p = Some v" "\<forall>a \<in> reach_pair r1 r2 h p. deref h' a = deref h a"
  then show "view_pair v1 v2 h' p = Some v \<and> reach_pair r1 r2 h' p = reach_pair r1 r2 h p"
    using deep_copier.frame [OF assms(1), of h "fst p" _ h'] deep_copier.frame [OF assms(2), of h "snd p" _ h']
    by (auto simp: view_pair_def reach_pair_def bind_eq_Some_conv)
next
  fix h p v a
  assume "view_pair v1 v2 h p = Some v" "a \<in> reach_pair r1 r2 h p"
  then show "a < length h"
    by (auto simp: view_pair_def reach_pair_def bind_eq_Some_conv
        dest: deep_copier.allocated [OF assms(1)] deep_copier.allocated [OF assms(2)])
next
  fix h p v
  assume "view_pair v1 v2 h p = Some v"
  then obtain a b where v: "v1 h (fst p) = Some a" "v2 h (snd p) = Some b" "v = (a, b)"
    by (auto simp: view_pair_def bind_eq_Some_conv)
  from deep_copier.copied [OF assms(1) v(1)] obtain x e1 where x: "c1 h (fst p) = Some (x, h @ e1)" "v1 (h @ e1) x = Some a"
    "\<forall>i \<in> r1 (h @ e1) x. length h \<le> i" by blast
  from deep_copier.copied [OF assms(2) deep_copier.extended [OF assms(2) v(2), THEN conjunct1], of e1] obtain y e2 where
    y: "c2 (h @ e1) (snd p) = Some (y, (h @ e1) @ e2)" "v2 ((h @ e1) @ e2) y = Some b"
    "\<forall>i \<in> r2 ((h @ e1) @ e2) y. length (h @ e1) \<le> i" by blast
  from deep_copier.extended [OF assms(1) x(2), of e2] x y v(3)
  show "\<exists>y e. copy_pair c1 c2 h p = Some (y, h @ e) \<and> view_pair v1 v2 (h @ e) y = Some v \<and> (\<forall>a \<in> reach_pair r1 r2 (h @ e) y. length h \<le> a)"
    by (intro exI [of _ "(x, y)"] exI [of _ "e1 @ e2"]) (auto simp: copy_pair_def view_pair_def reach_pair_def)
qed

text \<open>
  A struct whose references are those of its \<open>parts\<close>: the plain fields are copied with the struct,
  the parts are replaced (\<open>put\<close>), and the value it stands for is made of both (\<open>build\<close>).
\<close>

lemma deep_copier_struct:
  assumes parts: "deep_copier v r c" and put: "\<And>s p. get (put s p) = p" "\<And>s p w. build (put s p) w = build s w"
  shows "deep_copier (\<lambda>h s. map_option (build s) (v h (get s))) (\<lambda>h s. r h (get s))
    (\<lambda>h s. do { (p, h1) \<leftarrow> c h (get s); Some (put s p, h1) })"
proof unfold_locales
  fix h h' s w
  assume "map_option (build s) (v h (get s)) = Some w" "\<forall>a \<in> r h (get s). deref h' a = deref h a"
  then show "map_option (build s) (v h' (get s)) = Some w \<and> r h' (get s) = r h (get s)"
    using deep_copier.frame [OF parts, of h "get s" _ h'] by auto
next
  fix h s w a
  assume "map_option (build s) (v h (get s)) = Some w" "a \<in> r h (get s)"
  then show "a < length h" using deep_copier.allocated [OF parts] by auto
next
  fix h s w
  assume "map_option (build s) (v h (get s)) = Some w"
  then obtain u where u: "v h (get s) = Some u" "w = build s u" by auto
  from deep_copier.copied [OF parts u(1)] obtain p e where "c h (get s) = Some (p, h @ e)" "v (h @ e) p = Some u"
    "\<forall>i \<in> r (h @ e) p. length h \<le> i" by blast
  then show "\<exists>y e. (do { (p, h1) \<leftarrow> c h (get s); Some (put s p, h1) }) = Some (y, h @ e) \<and>
      map_option (build y) (v (h @ e) (get y)) = Some w \<and> (\<forall>a \<in> r (h @ e) (get y). length h \<le> a)"
    by (intro exI [of _ "put s p"] exI [of _ e]) (simp add: put u(2))
qed

lemma deep_copier_structI:
  assumes "deep_copier v r c"
    and "\<And>h s. copy h s = do { (p, h1) \<leftarrow> c h (get s); Some (put s p, h1) }"
    and "\<And>h s. view h s = map_option (build s) (v h (get s))" and "\<And>h s. reach h s = r h (get s)"
    and "\<And>s p. get (put s p) = p" and "\<And>s p w. build (put s p) w = build s w"
  shows "deep_copier view reach copy"
proof -
  have "view = (\<lambda>h s. map_option (build s) (v h (get s)))" "reach = (\<lambda>h s. r h (get s))"
    "copy = (\<lambda>h s. do { (p, h1) \<leftarrow> c h (get s); Some (put s p, h1) })"
    using assms(2-4) by blast+
  with deep_copier_struct [where get = get and put = put and build = build, OF assms(1,5,6)] show ?thesis by simp
qed

end
