(* ===== verification/Deep_Copy.thy ===== *)
theory Deep_Copy
  imports Go_Heap Status_Sync
begin

text \<open>
  The generated deep copies of the custom resources (\<^verbatim>\<open>api/v1/zz_generated.deepcopy.go\<close>), on a heap.
  The rest of the development treats an object as a value; here it is a struct in memory, whose
  slices, maps and pointers are references (the records with suffix \<open>_mem\<close>), and the value is what
  the struct stands for (\<open>view\<close>). Shown is that a copy stands for the same value and shares no cell
  with the original, for every type, and what the controllers rely on: \<^verbatim>\<open>syncStatus\<close> mutates the
  fetched object in place and compares it with a copy made before, which is the comparison of the
  values before and after that \<open>sync_status\<close> makes.

  \<open>DeepCopyInto\<close> is the function from the struct to what is written through \<^verbatim>\<open>out\<close>. The structs of
  Kubernetes that are embedded (\<^verbatim>\<open>ObjectMeta\<close>, \<^verbatim>\<open>Condition\<close>, \<^verbatim>\<open>Toleration\<close>, \<^verbatim>\<open>EnvVar\<close>,
  \<^verbatim>\<open>ResourceRequirements\<close>) are values and their copy functions parameters; \<^verbatim>\<open>TypeMeta\<close> and \<^verbatim>\<open>ListMeta\<close>
  are left out as everywhere.
\<close>

section \<open>Model: structs in memory\<close>

text \<open>The lists of resources.\<close>

record ModelRepositoryList =
  mrl_Items :: "ModelRepository list"

record LLMEngineList =
  lel_Items :: "LLMEngine list"

record BackendReference_mem =
  brm_Type :: string
  brm_Details :: ref

record GPUConfig_mem =
  gpm_Enabled :: bool
  gpm_Count :: int
  gpm_Type :: string
  gpm_NodeSelector :: ref
  gpm_Tolerations :: ref

record StorageStatus_mem =
  ssm_StorageClass :: string
  ssm_AccessMode :: string
  ssm_VolumeMode :: string
  ssm_BackendRef :: ref
  ssm_BoundNodeName :: string
  ssm_Capacity :: string

record ModelSource_mem =
  som_Origin :: string
  som_ModelId :: string
  som_Revision :: string
  som_Revisions :: ref
  som_HFTokenSecret :: string
  som_HFTokenSecretKey :: string

record ModelRepositorySpec_mem =
  rpm_ModelName :: string
  rpm_Source :: ModelSource_mem
  rpm_Storage :: ModelStorage
  rpm_AutoDownload :: bool
  rpm_DownloadImage :: string
  rpm_DownloadScripts :: string
  rpm_DeleteScripts :: string
  rpm_NodeSelector :: ref

record ModelRepositoryStatus_mem =
  rsm_Phase :: string
  rsm_Conditions :: ref
  rsm_Storage :: ref
  rsm_AvailableRevisions :: ref
  rsm_ReferencedEngines :: string

record ModelRepository_mem =
  rom_Meta :: ObjectMeta
  rom_Spec :: ModelRepositorySpec_mem
  rom_Status :: ModelRepositoryStatus_mem

record LLMEngineSpec_mem =
  epm_EngineType :: string
  epm_ModelRefs :: ref
  epm_Image :: string
  epm_Args :: ref
  epm_Env :: ref
  epm_Port :: int
  epm_ServicePort :: int
  epm_Replicas :: ref
  epm_NodeSelector :: ref
  epm_Resources :: ref
  epm_GPU :: ref
  epm_HostIPC :: bool

record LLMEngineStatus_mem =
  esm_Phase :: string
  esm_Conditions :: ref
  esm_ModelRepositories :: ref

record LLMEngine_mem =
  eom_Meta :: ObjectMeta
  eom_Spec :: LLMEngineSpec_mem
  eom_Status :: LLMEngineStatus_mem

record ModelRepositoryList_mem =
  rlm_Items :: ref

record LLMEngineList_mem =
  elm_Items :: ref

text \<open>What a cell of the heap holds: a map, a backing array, or the struct behind a pointer.\<close>

datatype cell =
    StrMap smap
  | Strs "string list"
  | Tolerations "Toleration list"
  | EnvVars "EnvVar list"
  | Conditions "Condition list"
  | ModelReferences "ModelReference list"
  | RevisionReferences "RevisionReference list"
  | RevisionStatuses "RevisionStatus list"
  | Int32 int
  | Resources ResourceRequirements
  | OfModelReference ModelReference
  | OfRevisionReference RevisionReference
  | OfRevisionStatus RevisionStatus
  | OfModelStorage ModelStorage
  | OfBackendReference BackendReference_mem
  | OfGPUConfig GPUConfig_mem
  | OfStorageStatus StorageStatus_mem
  | OfModelSource ModelSource_mem
  | OfModelRepositorySpec ModelRepositorySpec_mem
  | OfModelRepositoryStatus ModelRepositoryStatus_mem
  | OfModelRepository ModelRepository_mem
  | OfLLMEngineSpec LLMEngineSpec_mem
  | OfLLMEngineStatus LLMEngineStatus_mem
  | OfLLMEngine LLMEngine_mem
  | Repositories "ModelRepository_mem list"
  | Engines "LLMEngine_mem list"
  | OfModelRepositoryList ModelRepositoryList_mem
  | OfLLMEngineList LLMEngineList_mem

definition kStrMap :: "(cell, smap) kind" where
  "kStrMap = \<lparr>k_in = StrMap, k_out = (\<lambda>c. case c of StrMap x \<Rightarrow> Some x | _ \<Rightarrow> None)\<rparr>"

definition kStrs :: "(cell, string list) kind" where
  "kStrs = \<lparr>k_in = Strs, k_out = (\<lambda>c. case c of Strs x \<Rightarrow> Some x | _ \<Rightarrow> None)\<rparr>"

definition kTolerations :: "(cell, Toleration list) kind" where
  "kTolerations = \<lparr>k_in = Tolerations, k_out = (\<lambda>c. case c of Tolerations x \<Rightarrow> Some x | _ \<Rightarrow> None)\<rparr>"

definition kEnvVars :: "(cell, EnvVar list) kind" where
  "kEnvVars = \<lparr>k_in = EnvVars, k_out = (\<lambda>c. case c of EnvVars x \<Rightarrow> Some x | _ \<Rightarrow> None)\<rparr>"

definition kConditions :: "(cell, Condition list) kind" where
  "kConditions = \<lparr>k_in = Conditions, k_out = (\<lambda>c. case c of Conditions x \<Rightarrow> Some x | _ \<Rightarrow> None)\<rparr>"

definition kModelReferences :: "(cell, ModelReference list) kind" where
  "kModelReferences = \<lparr>k_in = ModelReferences, k_out = (\<lambda>c. case c of ModelReferences x \<Rightarrow> Some x | _ \<Rightarrow> None)\<rparr>"

definition kRevisionReferences :: "(cell, RevisionReference list) kind" where
  "kRevisionReferences = \<lparr>k_in = RevisionReferences, k_out = (\<lambda>c. case c of RevisionReferences x \<Rightarrow> Some x | _ \<Rightarrow> None)\<rparr>"

definition kRevisionStatuses :: "(cell, RevisionStatus list) kind" where
  "kRevisionStatuses = \<lparr>k_in = RevisionStatuses, k_out = (\<lambda>c. case c of RevisionStatuses x \<Rightarrow> Some x | _ \<Rightarrow> None)\<rparr>"

definition kInt32 :: "(cell, int) kind" where
  "kInt32 = \<lparr>k_in = Int32, k_out = (\<lambda>c. case c of Int32 x \<Rightarrow> Some x | _ \<Rightarrow> None)\<rparr>"

definition kResources :: "(cell, ResourceRequirements) kind" where
  "kResources = \<lparr>k_in = Resources, k_out = (\<lambda>c. case c of Resources x \<Rightarrow> Some x | _ \<Rightarrow> None)\<rparr>"

definition kOfModelReference :: "(cell, ModelReference) kind" where
  "kOfModelReference = \<lparr>k_in = OfModelReference, k_out = (\<lambda>c. case c of OfModelReference x \<Rightarrow> Some x | _ \<Rightarrow> None)\<rparr>"

definition kOfRevisionReference :: "(cell, RevisionReference) kind" where
  "kOfRevisionReference = \<lparr>k_in = OfRevisionReference, k_out = (\<lambda>c. case c of OfRevisionReference x \<Rightarrow> Some x | _ \<Rightarrow> None)\<rparr>"

definition kOfRevisionStatus :: "(cell, RevisionStatus) kind" where
  "kOfRevisionStatus = \<lparr>k_in = OfRevisionStatus, k_out = (\<lambda>c. case c of OfRevisionStatus x \<Rightarrow> Some x | _ \<Rightarrow> None)\<rparr>"

definition kOfModelStorage :: "(cell, ModelStorage) kind" where
  "kOfModelStorage = \<lparr>k_in = OfModelStorage, k_out = (\<lambda>c. case c of OfModelStorage x \<Rightarrow> Some x | _ \<Rightarrow> None)\<rparr>"

definition kOfBackendReference :: "(cell, BackendReference_mem) kind" where
  "kOfBackendReference = \<lparr>k_in = OfBackendReference, k_out = (\<lambda>c. case c of OfBackendReference x \<Rightarrow> Some x | _ \<Rightarrow> None)\<rparr>"

definition kOfGPUConfig :: "(cell, GPUConfig_mem) kind" where
  "kOfGPUConfig = \<lparr>k_in = OfGPUConfig, k_out = (\<lambda>c. case c of OfGPUConfig x \<Rightarrow> Some x | _ \<Rightarrow> None)\<rparr>"

definition kOfStorageStatus :: "(cell, StorageStatus_mem) kind" where
  "kOfStorageStatus = \<lparr>k_in = OfStorageStatus, k_out = (\<lambda>c. case c of OfStorageStatus x \<Rightarrow> Some x | _ \<Rightarrow> None)\<rparr>"

definition kOfModelSource :: "(cell, ModelSource_mem) kind" where
  "kOfModelSource = \<lparr>k_in = OfModelSource, k_out = (\<lambda>c. case c of OfModelSource x \<Rightarrow> Some x | _ \<Rightarrow> None)\<rparr>"

definition kOfModelRepositorySpec :: "(cell, ModelRepositorySpec_mem) kind" where
  "kOfModelRepositorySpec = \<lparr>k_in = OfModelRepositorySpec, k_out = (\<lambda>c. case c of OfModelRepositorySpec x \<Rightarrow> Some x | _ \<Rightarrow> None)\<rparr>"

definition kOfModelRepositoryStatus :: "(cell, ModelRepositoryStatus_mem) kind" where
  "kOfModelRepositoryStatus = \<lparr>k_in = OfModelRepositoryStatus, k_out = (\<lambda>c. case c of OfModelRepositoryStatus x \<Rightarrow> Some x | _ \<Rightarrow> None)\<rparr>"

definition kOfModelRepository :: "(cell, ModelRepository_mem) kind" where
  "kOfModelRepository = \<lparr>k_in = OfModelRepository, k_out = (\<lambda>c. case c of OfModelRepository x \<Rightarrow> Some x | _ \<Rightarrow> None)\<rparr>"

definition kOfLLMEngineSpec :: "(cell, LLMEngineSpec_mem) kind" where
  "kOfLLMEngineSpec = \<lparr>k_in = OfLLMEngineSpec, k_out = (\<lambda>c. case c of OfLLMEngineSpec x \<Rightarrow> Some x | _ \<Rightarrow> None)\<rparr>"

definition kOfLLMEngineStatus :: "(cell, LLMEngineStatus_mem) kind" where
  "kOfLLMEngineStatus = \<lparr>k_in = OfLLMEngineStatus, k_out = (\<lambda>c. case c of OfLLMEngineStatus x \<Rightarrow> Some x | _ \<Rightarrow> None)\<rparr>"

definition kOfLLMEngine :: "(cell, LLMEngine_mem) kind" where
  "kOfLLMEngine = \<lparr>k_in = OfLLMEngine, k_out = (\<lambda>c. case c of OfLLMEngine x \<Rightarrow> Some x | _ \<Rightarrow> None)\<rparr>"

definition kRepositories :: "(cell, ModelRepository_mem list) kind" where
  "kRepositories = \<lparr>k_in = Repositories, k_out = (\<lambda>c. case c of Repositories x \<Rightarrow> Some x | _ \<Rightarrow> None)\<rparr>"

definition kEngines :: "(cell, LLMEngine_mem list) kind" where
  "kEngines = \<lparr>k_in = Engines, k_out = (\<lambda>c. case c of Engines x \<Rightarrow> Some x | _ \<Rightarrow> None)\<rparr>"

definition kOfModelRepositoryList :: "(cell, ModelRepositoryList_mem) kind" where
  "kOfModelRepositoryList = \<lparr>k_in = OfModelRepositoryList, k_out = (\<lambda>c. case c of OfModelRepositoryList x \<Rightarrow> Some x | _ \<Rightarrow> None)\<rparr>"

definition kOfLLMEngineList :: "(cell, LLMEngineList_mem) kind" where
  "kOfLLMEngineList = \<lparr>k_in = OfLLMEngineList, k_out = (\<lambda>c. case c of OfLLMEngineList x \<Rightarrow> Some x | _ \<Rightarrow> None)\<rparr>"

text \<open>The copy functions of the embedded Kubernetes structs.\<close>

record k8s_copies =
  dc_ObjectMeta :: "ObjectMeta \<Rightarrow> ObjectMeta"
  dc_Condition :: "Condition \<Rightarrow> Condition"
  dc_Toleration :: "Toleration \<Rightarrow> Toleration"
  dc_EnvVar :: "EnvVar \<Rightarrow> EnvVar"
  dc_ResourceRequirements :: "ResourceRequirements \<Rightarrow> ResourceRequirements"

text \<open>Documented: they copy the receiver.\<close>

definition copies_values :: "k8s_copies \<Rightarrow> bool" where
  "copies_values K = ((\<forall>x. dc_ObjectMeta K x = x) \<and> (\<forall>x. dc_Condition K x = x) \<and> (\<forall>x. dc_Toleration K x = x) \<and>
     (\<forall>x. dc_EnvVar K x = x) \<and> (\<forall>x. dc_ResourceRequirements K x = x))"

section \<open>Model: the copies\<close>

definition ModelReference_DeepCopyInto :: "cell heap \<Rightarrow> ModelReference \<Rightarrow> (ModelReference \<times> cell heap) option" where
  "ModelReference_DeepCopyInto h x = Some (x, h)"

definition ModelReference_DeepCopy :: "cell heap \<Rightarrow> ref \<Rightarrow> (ref \<times> cell heap) option" where
  "ModelReference_DeepCopy = copy_ptr kOfModelReference ModelReference_DeepCopyInto"

definition RevisionReference_DeepCopyInto :: "cell heap \<Rightarrow> RevisionReference \<Rightarrow> (RevisionReference \<times> cell heap) option" where
  "RevisionReference_DeepCopyInto h x = Some (x, h)"

definition RevisionReference_DeepCopy :: "cell heap \<Rightarrow> ref \<Rightarrow> (ref \<times> cell heap) option" where
  "RevisionReference_DeepCopy = copy_ptr kOfRevisionReference RevisionReference_DeepCopyInto"

definition RevisionStatus_DeepCopyInto :: "cell heap \<Rightarrow> RevisionStatus \<Rightarrow> (RevisionStatus \<times> cell heap) option" where
  "RevisionStatus_DeepCopyInto h x = Some (x, h)"

definition RevisionStatus_DeepCopy :: "cell heap \<Rightarrow> ref \<Rightarrow> (ref \<times> cell heap) option" where
  "RevisionStatus_DeepCopy = copy_ptr kOfRevisionStatus RevisionStatus_DeepCopyInto"

definition ModelStorage_DeepCopyInto :: "cell heap \<Rightarrow> ModelStorage \<Rightarrow> (ModelStorage \<times> cell heap) option" where
  "ModelStorage_DeepCopyInto h x = Some (x, h)"

definition ModelStorage_DeepCopy :: "cell heap \<Rightarrow> ref \<Rightarrow> (ref \<times> cell heap) option" where
  "ModelStorage_DeepCopy = copy_ptr kOfModelStorage ModelStorage_DeepCopyInto"

definition BackendReference_DeepCopyInto :: "cell heap \<Rightarrow> BackendReference_mem \<Rightarrow> (BackendReference_mem \<times> cell heap) option" where
  "BackendReference_DeepCopyInto h x = do {
     (details, h1) \<leftarrow> copy_map kStrMap h (brm_Details x);
     Some (x\<lparr>brm_Details := details\<rparr>, h1) }"

definition BackendReference_DeepCopy :: "cell heap \<Rightarrow> ref \<Rightarrow> (ref \<times> cell heap) option" where
  "BackendReference_DeepCopy = copy_ptr kOfBackendReference BackendReference_DeepCopyInto"

definition GPUConfig_DeepCopyInto :: "k8s_copies \<Rightarrow> cell heap \<Rightarrow> GPUConfig_mem \<Rightarrow> (GPUConfig_mem \<times> cell heap) option" where
  "GPUConfig_DeepCopyInto K h x = do {
     (selector, h1) \<leftarrow> copy_map kStrMap h (gpm_NodeSelector x);
     (tolerations, h2) \<leftarrow> copy_slice kTolerations (dc_Toleration K) h1 (gpm_Tolerations x);
     Some (x\<lparr>gpm_NodeSelector := selector, gpm_Tolerations := tolerations\<rparr>, h2) }"

definition GPUConfig_DeepCopy :: "k8s_copies \<Rightarrow> cell heap \<Rightarrow> ref \<Rightarrow> (ref \<times> cell heap) option" where
  "GPUConfig_DeepCopy K = copy_ptr kOfGPUConfig (GPUConfig_DeepCopyInto K)"

definition StorageStatus_DeepCopyInto :: "cell heap \<Rightarrow> StorageStatus_mem \<Rightarrow> (StorageStatus_mem \<times> cell heap) option" where
  "StorageStatus_DeepCopyInto h x = do {
     (backend, h1) \<leftarrow> copy_ptr kOfBackendReference BackendReference_DeepCopyInto h (ssm_BackendRef x);
     Some (x\<lparr>ssm_BackendRef := backend\<rparr>, h1) }"

definition StorageStatus_DeepCopy :: "cell heap \<Rightarrow> ref \<Rightarrow> (ref \<times> cell heap) option" where
  "StorageStatus_DeepCopy = copy_ptr kOfStorageStatus StorageStatus_DeepCopyInto"

definition ModelSource_DeepCopyInto :: "cell heap \<Rightarrow> ModelSource_mem \<Rightarrow> (ModelSource_mem \<times> cell heap) option" where
  "ModelSource_DeepCopyInto h x = do {
     (revisions, h1) \<leftarrow> copy_slice kRevisionReferences (\<lambda>x. x) h (som_Revisions x);
     Some (x\<lparr>som_Revisions := revisions\<rparr>, h1) }"

definition ModelSource_DeepCopy :: "cell heap \<Rightarrow> ref \<Rightarrow> (ref \<times> cell heap) option" where
  "ModelSource_DeepCopy = copy_ptr kOfModelSource ModelSource_DeepCopyInto"

definition ModelRepositorySpec_DeepCopyInto :: "cell heap \<Rightarrow> ModelRepositorySpec_mem \<Rightarrow> (ModelRepositorySpec_mem \<times> cell heap) option" where
  "ModelRepositorySpec_DeepCopyInto h x = do {
     (source, h1) \<leftarrow> ModelSource_DeepCopyInto h (rpm_Source x);
     (selector, h2) \<leftarrow> copy_map kStrMap h1 (rpm_NodeSelector x);
     Some (x\<lparr>rpm_Source := source, rpm_NodeSelector := selector\<rparr>, h2) }"

definition ModelRepositorySpec_DeepCopy :: "cell heap \<Rightarrow> ref \<Rightarrow> (ref \<times> cell heap) option" where
  "ModelRepositorySpec_DeepCopy = copy_ptr kOfModelRepositorySpec ModelRepositorySpec_DeepCopyInto"

definition ModelRepositoryStatus_DeepCopyInto :: "k8s_copies \<Rightarrow> cell heap \<Rightarrow> ModelRepositoryStatus_mem \<Rightarrow> (ModelRepositoryStatus_mem \<times> cell heap) option" where
  "ModelRepositoryStatus_DeepCopyInto K h x = do {
     (conditions, h1) \<leftarrow> copy_slice kConditions (dc_Condition K) h (rsm_Conditions x);
     (storage, h2) \<leftarrow> copy_ptr kOfStorageStatus StorageStatus_DeepCopyInto h1 (rsm_Storage x);
     (revisions, h3) \<leftarrow> copy_slice kRevisionStatuses (\<lambda>x. x) h2 (rsm_AvailableRevisions x);
     Some (x\<lparr>rsm_Conditions := conditions, rsm_Storage := storage, rsm_AvailableRevisions := revisions\<rparr>, h3) }"

definition ModelRepositoryStatus_DeepCopy :: "k8s_copies \<Rightarrow> cell heap \<Rightarrow> ref \<Rightarrow> (ref \<times> cell heap) option" where
  "ModelRepositoryStatus_DeepCopy K = copy_ptr kOfModelRepositoryStatus (ModelRepositoryStatus_DeepCopyInto K)"

definition ModelRepository_DeepCopyInto :: "k8s_copies \<Rightarrow> cell heap \<Rightarrow> ModelRepository_mem \<Rightarrow> (ModelRepository_mem \<times> cell heap) option" where
  "ModelRepository_DeepCopyInto K h x = do {
     let meta = dc_ObjectMeta K (rom_Meta x);
     (desired, h1) \<leftarrow> ModelRepositorySpec_DeepCopyInto h (rom_Spec x);
     (status, h2) \<leftarrow> ModelRepositoryStatus_DeepCopyInto K h1 (rom_Status x);
     Some (x\<lparr>rom_Meta := meta, rom_Spec := desired, rom_Status := status\<rparr>, h2) }"

definition ModelRepository_DeepCopy :: "k8s_copies \<Rightarrow> cell heap \<Rightarrow> ref \<Rightarrow> (ref \<times> cell heap) option" where
  "ModelRepository_DeepCopy K = copy_ptr kOfModelRepository (ModelRepository_DeepCopyInto K)"

definition LLMEngineSpec_DeepCopyInto :: "k8s_copies \<Rightarrow> cell heap \<Rightarrow> LLMEngineSpec_mem \<Rightarrow> (LLMEngineSpec_mem \<times> cell heap) option" where
  "LLMEngineSpec_DeepCopyInto K h x = do {
     (refs, h1) \<leftarrow> copy_slice kModelReferences (\<lambda>x. x) h (epm_ModelRefs x);
     (args, h2) \<leftarrow> copy_slice kStrs (\<lambda>x. x) h1 (epm_Args x);
     (env, h3) \<leftarrow> copy_slice kEnvVars (dc_EnvVar K) h2 (epm_Env x);
     (replicas, h4) \<leftarrow> copy_ptr kInt32 (\<lambda>h x. Some (x, h)) h3 (epm_Replicas x);
     (selector, h5) \<leftarrow> copy_map kStrMap h4 (epm_NodeSelector x);
     (resources, h6) \<leftarrow> copy_ptr kResources (\<lambda>h x. Some (dc_ResourceRequirements K x, h)) h5 (epm_Resources x);
     (gpu, h7) \<leftarrow> copy_ptr kOfGPUConfig (GPUConfig_DeepCopyInto K) h6 (epm_GPU x);
     Some (x\<lparr>epm_ModelRefs := refs, epm_Args := args, epm_Env := env,
       epm_Replicas := replicas, epm_NodeSelector := selector, epm_Resources := resources, epm_GPU := gpu\<rparr>, h7) }"

definition LLMEngineSpec_DeepCopy :: "k8s_copies \<Rightarrow> cell heap \<Rightarrow> ref \<Rightarrow> (ref \<times> cell heap) option" where
  "LLMEngineSpec_DeepCopy K = copy_ptr kOfLLMEngineSpec (LLMEngineSpec_DeepCopyInto K)"

definition LLMEngineStatus_DeepCopyInto :: "k8s_copies \<Rightarrow> cell heap \<Rightarrow> LLMEngineStatus_mem \<Rightarrow> (LLMEngineStatus_mem \<times> cell heap) option" where
  "LLMEngineStatus_DeepCopyInto K h x = do {
     (conditions, h1) \<leftarrow> copy_slice kConditions (dc_Condition K) h (esm_Conditions x);
     (names, h2) \<leftarrow> copy_slice kStrs (\<lambda>x. x) h1 (esm_ModelRepositories x);
     Some (x\<lparr>esm_Conditions := conditions, esm_ModelRepositories := names\<rparr>, h2) }"

definition LLMEngineStatus_DeepCopy :: "k8s_copies \<Rightarrow> cell heap \<Rightarrow> ref \<Rightarrow> (ref \<times> cell heap) option" where
  "LLMEngineStatus_DeepCopy K = copy_ptr kOfLLMEngineStatus (LLMEngineStatus_DeepCopyInto K)"

definition LLMEngine_DeepCopyInto :: "k8s_copies \<Rightarrow> cell heap \<Rightarrow> LLMEngine_mem \<Rightarrow> (LLMEngine_mem \<times> cell heap) option" where
  "LLMEngine_DeepCopyInto K h x = do {
     let meta = dc_ObjectMeta K (eom_Meta x);
     (desired, h1) \<leftarrow> LLMEngineSpec_DeepCopyInto K h (eom_Spec x);
     (status, h2) \<leftarrow> LLMEngineStatus_DeepCopyInto K h1 (eom_Status x);
     Some (x\<lparr>eom_Meta := meta, eom_Spec := desired, eom_Status := status\<rparr>, h2) }"

definition LLMEngine_DeepCopy :: "k8s_copies \<Rightarrow> cell heap \<Rightarrow> ref \<Rightarrow> (ref \<times> cell heap) option" where
  "LLMEngine_DeepCopy K = copy_ptr kOfLLMEngine (LLMEngine_DeepCopyInto K)"

definition ModelRepositoryList_DeepCopyInto :: "k8s_copies \<Rightarrow> cell heap \<Rightarrow> ModelRepositoryList_mem \<Rightarrow> (ModelRepositoryList_mem \<times> cell heap) option" where
  "ModelRepositoryList_DeepCopyInto K h x = do {
     (items, h1) \<leftarrow> copy_items kRepositories (ModelRepository_DeepCopyInto K) h (rlm_Items x);
     Some (x\<lparr>rlm_Items := items\<rparr>, h1) }"

definition ModelRepositoryList_DeepCopy :: "k8s_copies \<Rightarrow> cell heap \<Rightarrow> ref \<Rightarrow> (ref \<times> cell heap) option" where
  "ModelRepositoryList_DeepCopy K = copy_ptr kOfModelRepositoryList (ModelRepositoryList_DeepCopyInto K)"

definition LLMEngineList_DeepCopyInto :: "k8s_copies \<Rightarrow> cell heap \<Rightarrow> LLMEngineList_mem \<Rightarrow> (LLMEngineList_mem \<times> cell heap) option" where
  "LLMEngineList_DeepCopyInto K h x = do {
     (items, h1) \<leftarrow> copy_items kEngines (LLMEngine_DeepCopyInto K) h (elm_Items x);
     Some (x\<lparr>elm_Items := items\<rparr>, h1) }"

definition LLMEngineList_DeepCopy :: "k8s_copies \<Rightarrow> cell heap \<Rightarrow> ref \<Rightarrow> (ref \<times> cell heap) option" where
  "LLMEngineList_DeepCopy K = copy_ptr kOfLLMEngineList (LLMEngineList_DeepCopyInto K)"

text \<open>As a \<^verbatim>\<open>runtime.Object\<close>, an interface: a nil pointer becomes a nil interface.\<close>

datatype runtime_object =
    ModelRepositoryObject nat
  | ModelRepositoryListObject nat
  | LLMEngineObject nat
  | LLMEngineListObject nat

definition ModelRepository_DeepCopyObject :: "k8s_copies \<Rightarrow> cell heap \<Rightarrow> ref \<Rightarrow> (runtime_object option \<times> cell heap) option" where
  "ModelRepository_DeepCopyObject K h x = do {
     (c, h1) \<leftarrow> ModelRepository_DeepCopy K h x;
     Some (case c of Ref a \<Rightarrow> Some (ModelRepositoryObject a) | NilRef \<Rightarrow> None, h1) }"

definition ModelRepositoryList_DeepCopyObject :: "k8s_copies \<Rightarrow> cell heap \<Rightarrow> ref \<Rightarrow> (runtime_object option \<times> cell heap) option" where
  "ModelRepositoryList_DeepCopyObject K h x = do {
     (c, h1) \<leftarrow> ModelRepositoryList_DeepCopy K h x;
     Some (case c of Ref a \<Rightarrow> Some (ModelRepositoryListObject a) | NilRef \<Rightarrow> None, h1) }"

definition LLMEngine_DeepCopyObject :: "k8s_copies \<Rightarrow> cell heap \<Rightarrow> ref \<Rightarrow> (runtime_object option \<times> cell heap) option" where
  "LLMEngine_DeepCopyObject K h x = do {
     (c, h1) \<leftarrow> LLMEngine_DeepCopy K h x;
     Some (case c of Ref a \<Rightarrow> Some (LLMEngineObject a) | NilRef \<Rightarrow> None, h1) }"

definition LLMEngineList_DeepCopyObject :: "k8s_copies \<Rightarrow> cell heap \<Rightarrow> ref \<Rightarrow> (runtime_object option \<times> cell heap) option" where
  "LLMEngineList_DeepCopyObject K h x = do {
     (c, h1) \<leftarrow> LLMEngineList_DeepCopy K h x;
     Some (case c of Ref a \<Rightarrow> Some (LLMEngineListObject a) | NilRef \<Rightarrow> None, h1) }"

section \<open>What the structs stand for\<close>

definition refs_BackendReference :: "BackendReference_mem \<Rightarrow> ref" where
  "refs_BackendReference x = brm_Details x"

fun value_BackendReference :: "BackendReference_mem \<Rightarrow> smap \<Rightarrow> BackendReference" where
  "value_BackendReference x details =
     \<lparr>br_Type = brm_Type x, br_Details = details\<rparr>"

definition view_BackendReference :: "cell heap \<Rightarrow> BackendReference_mem \<Rightarrow> BackendReference option" where
  "view_BackendReference h x = map_option (value_BackendReference x) (view_map kStrMap h (refs_BackendReference x))"

definition reach_BackendReference :: "cell heap \<Rightarrow> BackendReference_mem \<Rightarrow> nat set" where
  "reach_BackendReference h x = reach_ref h (refs_BackendReference x)"

definition refs_GPUConfig :: "GPUConfig_mem \<Rightarrow> ref \<times> ref" where
  "refs_GPUConfig x = (gpm_NodeSelector x, gpm_Tolerations x)"

fun value_GPUConfig :: "GPUConfig_mem \<Rightarrow> smap \<times> Toleration list \<Rightarrow> GPUConfig" where
  "value_GPUConfig x (selector, tolerations) =
     \<lparr>gpu_Enabled = gpm_Enabled x, gpu_Count = gpm_Count x, gpu_Type = gpm_Type x, gpu_NodeSelector = selector,
      gpu_Tolerations = tolerations\<rparr>"

definition view_GPUConfig :: "cell heap \<Rightarrow> GPUConfig_mem \<Rightarrow> GPUConfig option" where
  "view_GPUConfig h x = map_option (value_GPUConfig x) (view_pair (view_map kStrMap) (view_slice kTolerations) h (refs_GPUConfig x))"

definition reach_GPUConfig :: "cell heap \<Rightarrow> GPUConfig_mem \<Rightarrow> nat set" where
  "reach_GPUConfig h x = reach_pair reach_ref reach_ref h (refs_GPUConfig x)"

definition refs_StorageStatus :: "StorageStatus_mem \<Rightarrow> ref" where
  "refs_StorageStatus x = ssm_BackendRef x"

fun value_StorageStatus :: "StorageStatus_mem \<Rightarrow> BackendReference option \<Rightarrow> StorageStatus" where
  "value_StorageStatus x backend =
     \<lparr>ss_StorageClass = ssm_StorageClass x, ss_AccessMode = ssm_AccessMode x, ss_VolumeMode = ssm_VolumeMode x,
      ss_BackendRef = backend, ss_BoundNodeName = ssm_BoundNodeName x, ss_Capacity = ssm_Capacity x\<rparr>"

definition view_StorageStatus :: "cell heap \<Rightarrow> StorageStatus_mem \<Rightarrow> StorageStatus option" where
  "view_StorageStatus h x = map_option (value_StorageStatus x) (view_ptr kOfBackendReference view_BackendReference h (refs_StorageStatus x))"

definition reach_StorageStatus :: "cell heap \<Rightarrow> StorageStatus_mem \<Rightarrow> nat set" where
  "reach_StorageStatus h x = reach_ptr kOfBackendReference reach_BackendReference h (refs_StorageStatus x)"

definition refs_ModelSource :: "ModelSource_mem \<Rightarrow> ref" where
  "refs_ModelSource x = som_Revisions x"

fun value_ModelSource :: "ModelSource_mem \<Rightarrow> RevisionReference list \<Rightarrow> ModelSource" where
  "value_ModelSource x revisions =
     \<lparr>src_Origin = som_Origin x, src_ModelId = som_ModelId x, src_Revision = som_Revision x,
      src_Revisions = revisions, src_HFTokenSecret = som_HFTokenSecret x,
      src_HFTokenSecretKey = som_HFTokenSecretKey x\<rparr>"

definition view_ModelSource :: "cell heap \<Rightarrow> ModelSource_mem \<Rightarrow> ModelSource option" where
  "view_ModelSource h x = map_option (value_ModelSource x) (view_slice kRevisionReferences h (refs_ModelSource x))"

definition reach_ModelSource :: "cell heap \<Rightarrow> ModelSource_mem \<Rightarrow> nat set" where
  "reach_ModelSource h x = reach_ref h (refs_ModelSource x)"

definition refs_ModelRepositorySpec :: "ModelRepositorySpec_mem \<Rightarrow> ModelSource_mem \<times> ref" where
  "refs_ModelRepositorySpec x = (rpm_Source x, rpm_NodeSelector x)"

fun value_ModelRepositorySpec :: "ModelRepositorySpec_mem \<Rightarrow> ModelSource \<times> smap \<Rightarrow> ModelRepositorySpec" where
  "value_ModelRepositorySpec x (source, selector) =
     \<lparr>mrs_ModelName = rpm_ModelName x, mrs_Source = source, mrs_Storage = rpm_Storage x,
      mrs_AutoDownload = rpm_AutoDownload x, mrs_DownloadImage = rpm_DownloadImage x,
      mrs_DownloadScripts = rpm_DownloadScripts x, mrs_DeleteScripts = rpm_DeleteScripts x,
      mrs_NodeSelector = selector\<rparr>"

definition view_ModelRepositorySpec :: "cell heap \<Rightarrow> ModelRepositorySpec_mem \<Rightarrow> ModelRepositorySpec option" where
  "view_ModelRepositorySpec h x = map_option (value_ModelRepositorySpec x) (view_pair view_ModelSource (view_map kStrMap) h (refs_ModelRepositorySpec x))"

definition reach_ModelRepositorySpec :: "cell heap \<Rightarrow> ModelRepositorySpec_mem \<Rightarrow> nat set" where
  "reach_ModelRepositorySpec h x = reach_pair reach_ModelSource reach_ref h (refs_ModelRepositorySpec x)"

definition refs_ModelRepositoryStatus :: "ModelRepositoryStatus_mem \<Rightarrow> ref \<times> ref \<times> ref" where
  "refs_ModelRepositoryStatus x = (rsm_Conditions x, (rsm_Storage x, rsm_AvailableRevisions x))"

fun value_ModelRepositoryStatus :: "ModelRepositoryStatus_mem \<Rightarrow> Condition list \<times> StorageStatus option \<times> RevisionStatus list \<Rightarrow> ModelRepositoryStatus" where
  "value_ModelRepositoryStatus x (conditions, (storage, revisions)) =
     \<lparr>mst_Phase = rsm_Phase x, mst_Conditions = conditions, mst_Storage = storage,
      mst_AvailableRevisions = revisions, mst_ReferencedEngines = rsm_ReferencedEngines x\<rparr>"

definition view_ModelRepositoryStatus :: "cell heap \<Rightarrow> ModelRepositoryStatus_mem \<Rightarrow> ModelRepositoryStatus option" where
  "view_ModelRepositoryStatus h x = map_option (value_ModelRepositoryStatus x) (view_pair (view_slice kConditions) (view_pair (view_ptr kOfStorageStatus view_StorageStatus) (view_slice kRevisionStatuses)) h (refs_ModelRepositoryStatus x))"

definition reach_ModelRepositoryStatus :: "cell heap \<Rightarrow> ModelRepositoryStatus_mem \<Rightarrow> nat set" where
  "reach_ModelRepositoryStatus h x = reach_pair reach_ref (reach_pair (reach_ptr kOfStorageStatus reach_StorageStatus) reach_ref) h (refs_ModelRepositoryStatus x)"

definition refs_ModelRepository :: "ModelRepository_mem \<Rightarrow> ObjectMeta \<times> ModelRepositorySpec_mem \<times> ModelRepositoryStatus_mem" where
  "refs_ModelRepository x = (rom_Meta x, (rom_Spec x, rom_Status x))"

fun value_ModelRepository :: "ModelRepository_mem \<Rightarrow> ObjectMeta \<times> ModelRepositorySpec \<times> ModelRepositoryStatus \<Rightarrow> ModelRepository" where
  "value_ModelRepository x (meta, (desired, status)) =
     \<lparr>mr_Meta = meta, mr_Spec = desired, mr_Status = status\<rparr>"

definition view_ModelRepository :: "cell heap \<Rightarrow> ModelRepository_mem \<Rightarrow> ModelRepository option" where
  "view_ModelRepository h x = map_option (value_ModelRepository x) (view_pair (\<lambda>h x. Some x) (view_pair view_ModelRepositorySpec view_ModelRepositoryStatus) h (refs_ModelRepository x))"

definition reach_ModelRepository :: "cell heap \<Rightarrow> ModelRepository_mem \<Rightarrow> nat set" where
  "reach_ModelRepository h x = reach_pair (\<lambda>h x. {}) (reach_pair reach_ModelRepositorySpec reach_ModelRepositoryStatus) h (refs_ModelRepository x)"

definition refs_LLMEngineSpec :: "LLMEngineSpec_mem \<Rightarrow> ref \<times> ref \<times> ref \<times> ref \<times> ref \<times> ref \<times> ref" where
  "refs_LLMEngineSpec x = (epm_ModelRefs x, (epm_Args x, (epm_Env x, (epm_Replicas x, (epm_NodeSelector x, (epm_Resources x, epm_GPU x))))))"

fun value_LLMEngineSpec :: "LLMEngineSpec_mem \<Rightarrow> ModelReference list \<times> string list \<times> EnvVar list \<times> int option \<times> smap \<times> ResourceRequirements option \<times> GPUConfig option \<Rightarrow> LLMEngineSpec" where
  "value_LLMEngineSpec x (refs, (args, (env, (replicas, (selector, (resources, gpu)))))) =
     \<lparr>les_EngineType = epm_EngineType x, les_ModelRefs = refs, les_Image = epm_Image x, les_Args = args,
      les_Env = env, les_Port = epm_Port x, les_ServicePort = epm_ServicePort x, les_Replicas = replicas,
      les_NodeSelector = selector, les_Resources = resources, les_GPU = gpu, les_HostIPC = epm_HostIPC x\<rparr>"

definition view_LLMEngineSpec :: "cell heap \<Rightarrow> LLMEngineSpec_mem \<Rightarrow> LLMEngineSpec option" where
  "view_LLMEngineSpec h x = map_option (value_LLMEngineSpec x) (view_pair (view_slice kModelReferences) (view_pair (view_slice kStrs) (view_pair (view_slice kEnvVars) (view_pair (view_ptr kInt32 (\<lambda>h x. Some x)) (view_pair (view_map kStrMap) (view_pair (view_ptr kResources (\<lambda>h x. Some x)) (view_ptr kOfGPUConfig view_GPUConfig)))))) h (refs_LLMEngineSpec x))"

definition reach_LLMEngineSpec :: "cell heap \<Rightarrow> LLMEngineSpec_mem \<Rightarrow> nat set" where
  "reach_LLMEngineSpec h x = reach_pair reach_ref (reach_pair reach_ref (reach_pair reach_ref (reach_pair (reach_ptr kInt32 (\<lambda>h x. {})) (reach_pair reach_ref (reach_pair (reach_ptr kResources (\<lambda>h x. {})) (reach_ptr kOfGPUConfig reach_GPUConfig)))))) h (refs_LLMEngineSpec x)"

definition refs_LLMEngineStatus :: "LLMEngineStatus_mem \<Rightarrow> ref \<times> ref" where
  "refs_LLMEngineStatus x = (esm_Conditions x, esm_ModelRepositories x)"

fun value_LLMEngineStatus :: "LLMEngineStatus_mem \<Rightarrow> Condition list \<times> string list \<Rightarrow> LLMEngineStatus" where
  "value_LLMEngineStatus x (conditions, names) =
     \<lparr>lst_Phase = esm_Phase x, lst_Conditions = conditions, lst_ModelRepositories = names\<rparr>"

definition view_LLMEngineStatus :: "cell heap \<Rightarrow> LLMEngineStatus_mem \<Rightarrow> LLMEngineStatus option" where
  "view_LLMEngineStatus h x = map_option (value_LLMEngineStatus x) (view_pair (view_slice kConditions) (view_slice kStrs) h (refs_LLMEngineStatus x))"

definition reach_LLMEngineStatus :: "cell heap \<Rightarrow> LLMEngineStatus_mem \<Rightarrow> nat set" where
  "reach_LLMEngineStatus h x = reach_pair reach_ref reach_ref h (refs_LLMEngineStatus x)"

definition refs_LLMEngine :: "LLMEngine_mem \<Rightarrow> ObjectMeta \<times> LLMEngineSpec_mem \<times> LLMEngineStatus_mem" where
  "refs_LLMEngine x = (eom_Meta x, (eom_Spec x, eom_Status x))"

fun value_LLMEngine :: "LLMEngine_mem \<Rightarrow> ObjectMeta \<times> LLMEngineSpec \<times> LLMEngineStatus \<Rightarrow> LLMEngine" where
  "value_LLMEngine x (meta, (desired, status)) =
     \<lparr>le_Meta = meta, le_Spec = desired, le_Status = status\<rparr>"

definition view_LLMEngine :: "cell heap \<Rightarrow> LLMEngine_mem \<Rightarrow> LLMEngine option" where
  "view_LLMEngine h x = map_option (value_LLMEngine x) (view_pair (\<lambda>h x. Some x) (view_pair view_LLMEngineSpec view_LLMEngineStatus) h (refs_LLMEngine x))"

definition reach_LLMEngine :: "cell heap \<Rightarrow> LLMEngine_mem \<Rightarrow> nat set" where
  "reach_LLMEngine h x = reach_pair (\<lambda>h x. {}) (reach_pair reach_LLMEngineSpec reach_LLMEngineStatus) h (refs_LLMEngine x)"

definition refs_ModelRepositoryList :: "ModelRepositoryList_mem \<Rightarrow> ref" where
  "refs_ModelRepositoryList x = rlm_Items x"

fun value_ModelRepositoryList :: "ModelRepositoryList_mem \<Rightarrow> ModelRepository list \<Rightarrow> ModelRepositoryList" where
  "value_ModelRepositoryList x items =
     \<lparr>mrl_Items = items\<rparr>"

definition view_ModelRepositoryList :: "cell heap \<Rightarrow> ModelRepositoryList_mem \<Rightarrow> ModelRepositoryList option" where
  "view_ModelRepositoryList h x = map_option (value_ModelRepositoryList x) (view_items kRepositories view_ModelRepository h (refs_ModelRepositoryList x))"

definition reach_ModelRepositoryList :: "cell heap \<Rightarrow> ModelRepositoryList_mem \<Rightarrow> nat set" where
  "reach_ModelRepositoryList h x = reach_ptr kRepositories (reach_each reach_ModelRepository) h (refs_ModelRepositoryList x)"

definition refs_LLMEngineList :: "LLMEngineList_mem \<Rightarrow> ref" where
  "refs_LLMEngineList x = elm_Items x"

fun value_LLMEngineList :: "LLMEngineList_mem \<Rightarrow> LLMEngine list \<Rightarrow> LLMEngineList" where
  "value_LLMEngineList x items =
     \<lparr>lel_Items = items\<rparr>"

definition view_LLMEngineList :: "cell heap \<Rightarrow> LLMEngineList_mem \<Rightarrow> LLMEngineList option" where
  "view_LLMEngineList h x = map_option (value_LLMEngineList x) (view_items kEngines view_LLMEngine h (refs_LLMEngineList x))"

definition reach_LLMEngineList :: "cell heap \<Rightarrow> LLMEngineList_mem \<Rightarrow> nat set" where
  "reach_LLMEngineList h x = reach_ptr kEngines (reach_each reach_LLMEngine) h (refs_LLMEngineList x)"

section \<open>Every copy keeps the contract\<close>

lemma wf_kinds [simp, intro]:
  "wf_kind kStrMap" "wf_kind kStrs" "wf_kind kTolerations" "wf_kind kEnvVars"
  "wf_kind kConditions" "wf_kind kModelReferences" "wf_kind kRevisionReferences" "wf_kind kRevisionStatuses"
  "wf_kind kInt32" "wf_kind kResources" "wf_kind kOfModelReference" "wf_kind kOfRevisionReference"
  "wf_kind kOfRevisionStatus" "wf_kind kOfModelStorage" "wf_kind kOfBackendReference" "wf_kind kOfGPUConfig"
  "wf_kind kOfStorageStatus" "wf_kind kOfModelSource" "wf_kind kOfModelRepositorySpec" "wf_kind kOfModelRepositoryStatus"
  "wf_kind kOfModelRepository" "wf_kind kOfLLMEngineSpec" "wf_kind kOfLLMEngineStatus" "wf_kind kOfLLMEngine"
  "wf_kind kRepositories" "wf_kind kEngines" "wf_kind kOfModelRepositoryList" "wf_kind kOfLLMEngineList"
  unfolding kStrMap_def kStrs_def kTolerations_def kEnvVars_def kConditions_def kModelReferences_def kRevisionReferences_def kRevisionStatuses_def kInt32_def kResources_def kOfModelReference_def kOfRevisionReference_def kOfRevisionStatus_def kOfModelStorage_def kOfBackendReference_def kOfGPUConfig_def kOfStorageStatus_def kOfModelSource_def kOfModelRepositorySpec_def kOfModelRepositoryStatus_def kOfModelRepository_def kOfLLMEngineSpec_def kOfLLMEngineStatus_def kOfLLMEngine_def kRepositories_def kEngines_def kOfModelRepositoryList_def kOfLLMEngineList_def
  by (auto simp: wf_kind_def split: cell.splits)

lemma copies_valuesD:
  assumes "copies_values K"
  shows "dc_ObjectMeta K m = m" "dc_Condition K c = c" "dc_Toleration K t = t" "dc_EnvVar K e = e" "dc_ResourceRequirements K r = r"
  using assms by (simp_all add: copies_values_def)

lemmas struct_intros [copier_intros] = wf_kinds copies_valuesD refl

lemma BackendReference_copier [copier_intros]:
  shows "deep_copier view_BackendReference reach_BackendReference BackendReference_DeepCopyInto"
proof -
  have parts: "deep_copier (view_map kStrMap) (reach_ref)
      (copy_map kStrMap)"
    by (intro copier_intros)
  show ?thesis
    by (rule deep_copier_structI [OF parts, where get = refs_BackendReference and build = value_BackendReference
          and put = "\<lambda>x details. x\<lparr>brm_Details := details\<rparr>"])
      (auto simp: BackendReference_DeepCopyInto_def view_BackendReference_def reach_BackendReference_def refs_BackendReference_def copy_pair_def
        intro!: Option.bind_cong)
qed

lemma GPUConfig_copier [copier_intros]:
  assumes "copies_values K"
  shows "deep_copier view_GPUConfig reach_GPUConfig (GPUConfig_DeepCopyInto K)"
proof -
  have parts: "deep_copier (view_pair (view_map kStrMap) (view_slice kTolerations)) (reach_pair reach_ref reach_ref)
      (copy_pair (copy_map kStrMap) (copy_slice kTolerations (dc_Toleration K)))"
    by (intro copier_intros assms)
  show ?thesis
    by (rule deep_copier_structI [OF parts, where get = refs_GPUConfig and build = value_GPUConfig
          and put = "\<lambda>x (selector, tolerations). x\<lparr>gpm_NodeSelector := selector, gpm_Tolerations := tolerations\<rparr>"])
      (auto simp: GPUConfig_DeepCopyInto_def view_GPUConfig_def reach_GPUConfig_def refs_GPUConfig_def copy_pair_def
        intro!: Option.bind_cong)
qed

lemma StorageStatus_copier [copier_intros]:
  shows "deep_copier view_StorageStatus reach_StorageStatus StorageStatus_DeepCopyInto"
proof -
  have parts: "deep_copier (view_ptr kOfBackendReference view_BackendReference) (reach_ptr kOfBackendReference reach_BackendReference)
      (copy_ptr kOfBackendReference BackendReference_DeepCopyInto)"
    by (intro copier_intros)
  show ?thesis
    by (rule deep_copier_structI [OF parts, where get = refs_StorageStatus and build = value_StorageStatus
          and put = "\<lambda>x backend. x\<lparr>ssm_BackendRef := backend\<rparr>"])
      (auto simp: StorageStatus_DeepCopyInto_def view_StorageStatus_def reach_StorageStatus_def refs_StorageStatus_def copy_pair_def
        intro!: Option.bind_cong)
qed

lemma ModelSource_copier [copier_intros]:
  shows "deep_copier view_ModelSource reach_ModelSource ModelSource_DeepCopyInto"
proof -
  have parts: "deep_copier (view_slice kRevisionReferences) (reach_ref)
      (copy_slice kRevisionReferences (\<lambda>x. x))"
    by (intro copier_intros)
  show ?thesis
    by (rule deep_copier_structI [OF parts, where get = refs_ModelSource and build = value_ModelSource
          and put = "\<lambda>x revisions. x\<lparr>som_Revisions := revisions\<rparr>"])
      (auto simp: ModelSource_DeepCopyInto_def view_ModelSource_def reach_ModelSource_def refs_ModelSource_def copy_pair_def
        intro!: Option.bind_cong)
qed

lemma ModelRepositorySpec_copier [copier_intros]:
  shows "deep_copier view_ModelRepositorySpec reach_ModelRepositorySpec ModelRepositorySpec_DeepCopyInto"
proof -
  have parts: "deep_copier (view_pair view_ModelSource (view_map kStrMap)) (reach_pair reach_ModelSource reach_ref)
      (copy_pair ModelSource_DeepCopyInto (copy_map kStrMap))"
    by (intro copier_intros)
  show ?thesis
    by (rule deep_copier_structI [OF parts, where get = refs_ModelRepositorySpec and build = value_ModelRepositorySpec
          and put = "\<lambda>x (source, selector). x\<lparr>rpm_Source := source, rpm_NodeSelector := selector\<rparr>"])
      (auto simp: ModelRepositorySpec_DeepCopyInto_def view_ModelRepositorySpec_def reach_ModelRepositorySpec_def refs_ModelRepositorySpec_def copy_pair_def
        intro!: Option.bind_cong)
qed

lemma ModelRepositoryStatus_copier [copier_intros]:
  assumes "copies_values K"
  shows "deep_copier view_ModelRepositoryStatus reach_ModelRepositoryStatus (ModelRepositoryStatus_DeepCopyInto K)"
proof -
  have parts: "deep_copier (view_pair (view_slice kConditions) (view_pair (view_ptr kOfStorageStatus view_StorageStatus) (view_slice kRevisionStatuses))) (reach_pair reach_ref (reach_pair (reach_ptr kOfStorageStatus reach_StorageStatus) reach_ref))
      (copy_pair (copy_slice kConditions (dc_Condition K)) (copy_pair (copy_ptr kOfStorageStatus StorageStatus_DeepCopyInto) (copy_slice kRevisionStatuses (\<lambda>x. x))))"
    by (intro copier_intros assms)
  show ?thesis
    by (rule deep_copier_structI [OF parts, where get = refs_ModelRepositoryStatus and build = value_ModelRepositoryStatus
          and put = "\<lambda>x (conditions, (storage, revisions)). x\<lparr>rsm_Conditions := conditions, rsm_Storage := storage, rsm_AvailableRevisions := revisions\<rparr>"])
      (auto simp: ModelRepositoryStatus_DeepCopyInto_def view_ModelRepositoryStatus_def reach_ModelRepositoryStatus_def refs_ModelRepositoryStatus_def copy_pair_def
        intro!: Option.bind_cong)
qed

lemma ModelRepository_copier [copier_intros]:
  assumes "copies_values K"
  shows "deep_copier view_ModelRepository reach_ModelRepository (ModelRepository_DeepCopyInto K)"
proof -
  have parts: "deep_copier (view_pair (\<lambda>h x. Some x) (view_pair view_ModelRepositorySpec view_ModelRepositoryStatus)) (reach_pair (\<lambda>h x. {}) (reach_pair reach_ModelRepositorySpec reach_ModelRepositoryStatus))
      (copy_pair (\<lambda>h x. Some (dc_ObjectMeta K x, h)) (copy_pair ModelRepositorySpec_DeepCopyInto (ModelRepositoryStatus_DeepCopyInto K)))"
    by (intro copier_intros assms)
  show ?thesis
    by (rule deep_copier_structI [OF parts, where get = refs_ModelRepository and build = value_ModelRepository
          and put = "\<lambda>x (meta, (desired, status)). x\<lparr>rom_Meta := meta, rom_Spec := desired, rom_Status := status\<rparr>"])
      (auto simp: ModelRepository_DeepCopyInto_def view_ModelRepository_def reach_ModelRepository_def refs_ModelRepository_def copy_pair_def
        intro!: Option.bind_cong)
qed

lemma LLMEngineSpec_copier [copier_intros]:
  assumes "copies_values K"
  shows "deep_copier view_LLMEngineSpec reach_LLMEngineSpec (LLMEngineSpec_DeepCopyInto K)"
proof -
  have parts: "deep_copier (view_pair (view_slice kModelReferences) (view_pair (view_slice kStrs) (view_pair (view_slice kEnvVars) (view_pair (view_ptr kInt32 (\<lambda>h x. Some x)) (view_pair (view_map kStrMap) (view_pair (view_ptr kResources (\<lambda>h x. Some x)) (view_ptr kOfGPUConfig view_GPUConfig))))))) (reach_pair reach_ref (reach_pair reach_ref (reach_pair reach_ref (reach_pair (reach_ptr kInt32 (\<lambda>h x. {})) (reach_pair reach_ref (reach_pair (reach_ptr kResources (\<lambda>h x. {})) (reach_ptr kOfGPUConfig reach_GPUConfig)))))))
      (copy_pair (copy_slice kModelReferences (\<lambda>x. x)) (copy_pair (copy_slice kStrs (\<lambda>x. x)) (copy_pair (copy_slice kEnvVars (dc_EnvVar K)) (copy_pair (copy_ptr kInt32 (\<lambda>h x. Some (x, h))) (copy_pair (copy_map kStrMap) (copy_pair (copy_ptr kResources (\<lambda>h x. Some (dc_ResourceRequirements K x, h))) (copy_ptr kOfGPUConfig (GPUConfig_DeepCopyInto K))))))))"
    by (intro copier_intros assms)
  show ?thesis
    by (rule deep_copier_structI [OF parts, where get = refs_LLMEngineSpec and build = value_LLMEngineSpec
          and put = "\<lambda>x (refs, (args, (env, (replicas, (selector, (resources, gpu)))))). x\<lparr>epm_ModelRefs := refs, epm_Args := args, epm_Env := env, epm_Replicas := replicas, epm_NodeSelector := selector, epm_Resources := resources, epm_GPU := gpu\<rparr>"])
      (auto simp: LLMEngineSpec_DeepCopyInto_def view_LLMEngineSpec_def reach_LLMEngineSpec_def refs_LLMEngineSpec_def copy_pair_def
        intro!: Option.bind_cong)
qed

lemma LLMEngineStatus_copier [copier_intros]:
  assumes "copies_values K"
  shows "deep_copier view_LLMEngineStatus reach_LLMEngineStatus (LLMEngineStatus_DeepCopyInto K)"
proof -
  have parts: "deep_copier (view_pair (view_slice kConditions) (view_slice kStrs)) (reach_pair reach_ref reach_ref)
      (copy_pair (copy_slice kConditions (dc_Condition K)) (copy_slice kStrs (\<lambda>x. x)))"
    by (intro copier_intros assms)
  show ?thesis
    by (rule deep_copier_structI [OF parts, where get = refs_LLMEngineStatus and build = value_LLMEngineStatus
          and put = "\<lambda>x (conditions, names). x\<lparr>esm_Conditions := conditions, esm_ModelRepositories := names\<rparr>"])
      (auto simp: LLMEngineStatus_DeepCopyInto_def view_LLMEngineStatus_def reach_LLMEngineStatus_def refs_LLMEngineStatus_def copy_pair_def
        intro!: Option.bind_cong)
qed

lemma LLMEngine_copier [copier_intros]:
  assumes "copies_values K"
  shows "deep_copier view_LLMEngine reach_LLMEngine (LLMEngine_DeepCopyInto K)"
proof -
  have parts: "deep_copier (view_pair (\<lambda>h x. Some x) (view_pair view_LLMEngineSpec view_LLMEngineStatus)) (reach_pair (\<lambda>h x. {}) (reach_pair reach_LLMEngineSpec reach_LLMEngineStatus))
      (copy_pair (\<lambda>h x. Some (dc_ObjectMeta K x, h)) (copy_pair (LLMEngineSpec_DeepCopyInto K) (LLMEngineStatus_DeepCopyInto K)))"
    by (intro copier_intros assms)
  show ?thesis
    by (rule deep_copier_structI [OF parts, where get = refs_LLMEngine and build = value_LLMEngine
          and put = "\<lambda>x (meta, (desired, status)). x\<lparr>eom_Meta := meta, eom_Spec := desired, eom_Status := status\<rparr>"])
      (auto simp: LLMEngine_DeepCopyInto_def view_LLMEngine_def reach_LLMEngine_def refs_LLMEngine_def copy_pair_def
        intro!: Option.bind_cong)
qed

lemma ModelRepositoryList_copier [copier_intros]:
  assumes "copies_values K"
  shows "deep_copier view_ModelRepositoryList reach_ModelRepositoryList (ModelRepositoryList_DeepCopyInto K)"
proof -
  have parts: "deep_copier (view_items kRepositories view_ModelRepository) (reach_ptr kRepositories (reach_each reach_ModelRepository))
      (copy_items kRepositories (ModelRepository_DeepCopyInto K))"
    by (intro copier_intros assms)
  show ?thesis
    by (rule deep_copier_structI [OF parts, where get = refs_ModelRepositoryList and build = value_ModelRepositoryList
          and put = "\<lambda>x items. x\<lparr>rlm_Items := items\<rparr>"])
      (auto simp: ModelRepositoryList_DeepCopyInto_def view_ModelRepositoryList_def reach_ModelRepositoryList_def refs_ModelRepositoryList_def copy_pair_def
        intro!: Option.bind_cong)
qed

lemma LLMEngineList_copier [copier_intros]:
  assumes "copies_values K"
  shows "deep_copier view_LLMEngineList reach_LLMEngineList (LLMEngineList_DeepCopyInto K)"
proof -
  have parts: "deep_copier (view_items kEngines view_LLMEngine) (reach_ptr kEngines (reach_each reach_LLMEngine))
      (copy_items kEngines (LLMEngine_DeepCopyInto K))"
    by (intro copier_intros assms)
  show ?thesis
    by (rule deep_copier_structI [OF parts, where get = refs_LLMEngineList and build = value_LLMEngineList
          and put = "\<lambda>x items. x\<lparr>elm_Items := items\<rparr>"])
      (auto simp: LLMEngineList_DeepCopyInto_def view_LLMEngineList_def reach_LLMEngineList_def refs_LLMEngineList_def copy_pair_def
        intro!: Option.bind_cong)
qed

text \<open>Some need nothing of the library.\<close>

interpretation backend_copy: deep_copier view_BackendReference reach_BackendReference BackendReference_DeepCopyInto
  by (rule BackendReference_copier)

interpretation storage_copy: deep_copier view_StorageStatus reach_StorageStatus StorageStatus_DeepCopyInto
  by (rule StorageStatus_copier)

interpretation source_copy: deep_copier view_ModelSource reach_ModelSource ModelSource_DeepCopyInto
  by (rule ModelSource_copier)

interpretation repository_spec_copy: deep_copier view_ModelRepositorySpec reach_ModelRepositorySpec ModelRepositorySpec_DeepCopyInto
  by (rule ModelRepositorySpec_copier)

section \<open>The status compared by syncStatus\<close>

text \<open>
  The end of \<^verbatim>\<open>syncStatus\<close> on an object in memory: copy it, let the closure mutate its status in
  place, compare the two statuses. The result says whether a write follows.
\<close>

definition mr_status_changed ::
  "k8s_copies \<Rightarrow> (ModelRepositoryStatus \<Rightarrow> ModelRepositoryStatus \<Rightarrow> bool) \<Rightarrow> (cell heap \<Rightarrow> ref \<Rightarrow> cell heap option) \<Rightarrow>
   cell heap \<Rightarrow> ref \<Rightarrow> bool option" where
  "mr_status_changed K equal mutate h fresh = do {
     (existing, h1) \<leftarrow> ModelRepository_DeepCopy K h fresh;
     h2 \<leftarrow> mutate h1 fresh;
     before \<leftarrow> view_ptr kOfModelRepository view_ModelRepository h2 existing;
     after \<leftarrow> view_ptr kOfModelRepository view_ModelRepository h2 fresh;
     x \<leftarrow> before;
     y \<leftarrow> after;
     Some (\<not> equal (mr_Status x) (mr_Status y)) }"

definition le_status_changed ::
  "k8s_copies \<Rightarrow> (LLMEngineStatus \<Rightarrow> LLMEngineStatus \<Rightarrow> bool) \<Rightarrow> (cell heap \<Rightarrow> ref \<Rightarrow> cell heap option) \<Rightarrow>
   cell heap \<Rightarrow> ref \<Rightarrow> bool option" where
  "le_status_changed K equal mutate h fresh = do {
     (existing, h1) \<leftarrow> LLMEngine_DeepCopy K h fresh;
     h2 \<leftarrow> mutate h1 fresh;
     before \<leftarrow> view_ptr kOfLLMEngine view_LLMEngine h2 existing;
     after \<leftarrow> view_ptr kOfLLMEngine view_LLMEngine h2 fresh;
     x \<leftarrow> before;
     y \<leftarrow> after;
     Some (\<not> equal (le_Status x) (le_Status y)) }"

text \<open>A mutation in place writes to the cells it can reach from the object, and to new ones.\<close>

definition writes_within :: "nat set \<Rightarrow> 'c heap \<Rightarrow> 'c heap \<Rightarrow> bool" where
  "writes_within S h h' = (\<forall>a < length h. a \<in> S \<or> deref h' a = deref h a)"

lemma writes_within_update: "b \<in> S \<Longrightarrow> writes_within S h (h[b := c])"
  unfolding writes_within_def by (metis deref_def length_list_update nth_list_update_neq)

abbreviation repository_value :: "cell heap \<Rightarrow> ref \<Rightarrow> ModelRepository option option" where
  "repository_value \<equiv> view_ptr kOfModelRepository view_ModelRepository"

abbreviation repository_cells :: "cell heap \<Rightarrow> ref \<Rightarrow> nat set" where
  "repository_cells \<equiv> reach_ptr kOfModelRepository reach_ModelRepository"

abbreviation engine_value :: "cell heap \<Rightarrow> ref \<Rightarrow> LLMEngine option option" where
  "engine_value \<equiv> view_ptr kOfLLMEngine view_LLMEngine"

abbreviation engine_cells :: "cell heap \<Rightarrow> ref \<Rightarrow> nat set" where
  "engine_cells \<equiv> reach_ptr kOfLLMEngine reach_LLMEngine"

lemma pointer_copiers [copier_intros]:
  assumes "copies_values K"
  shows "deep_copier repository_value repository_cells (ModelRepository_DeepCopy K)"
    and "deep_copier engine_value engine_cells (LLMEngine_DeepCopy K)"
    and "deep_copier (view_ptr kOfModelRepositoryList view_ModelRepositoryList) (reach_ptr kOfModelRepositoryList reach_ModelRepositoryList)
      (ModelRepositoryList_DeepCopy K)"
    and "deep_copier (view_ptr kOfLLMEngineList view_LLMEngineList) (reach_ptr kOfLLMEngineList reach_LLMEngineList) (LLMEngineList_DeepCopy K)"
  unfolding ModelRepository_DeepCopy_def LLMEngine_DeepCopy_def ModelRepositoryList_DeepCopy_def LLMEngineList_DeepCopy_def
  by (intro copier_intros assms)+

lemma copy_before_mutation:
  assumes copier: "deep_copier view reach copy" and "view h x = Some v" and "copy h x = Some (y, h1)"
    and "writes_within (reach h1 x) h1 h2"
  shows "view h2 y = Some v"
  using deep_copier.copy_isolated [OF copier assms(2,3)] assms(4) by (auto simp: writes_within_def)

section \<open>Properties\<close>

text \<open>
  (C22) \<^verbatim>\<open>syncStatus\<close> compares the status before with the status after: although the closure mutates
  the fetched repository in place, the copy it is compared with stands for the repository as
  fetched, so a write follows exactly if the mutated status differs from the fetched one - which is
  the test of \<open>sync_status\<close> on values.
\<close>

theorem mr_status_change_seen:
  assumes "copies_values K" and "repository_value h fresh = Some (Some mr)"
    and "ModelRepository_DeepCopy K h fresh = Some (existing, h1)" and "mutate h1 fresh = Some h2"
    and "writes_within (repository_cells h1 fresh) h1 h2" and "repository_value h2 fresh = Some (Some (mr\<lparr>mr_Status := f (mr_Status mr)\<rparr>))"
  shows "mr_status_changed K equal mutate h fresh = Some (\<not> equal (mr_Status mr) (f (mr_Status mr)))"
  using copy_before_mutation [OF pointer_copiers(1) [OF assms(1)] assms(2,3,5)] assms(3,4,6)
  by (simp add: mr_status_changed_def)

text \<open>A repository in memory, and a closure that sets a condition in place.\<close>

definition value_copies :: k8s_copies where
  "value_copies = \<lparr>dc_ObjectMeta = (\<lambda>x. x), dc_Condition = (\<lambda>x. x), dc_Toleration = (\<lambda>x. x), dc_EnvVar = (\<lambda>x. x),
     dc_ResourceRequirements = (\<lambda>x. x)\<rparr>"

definition ready_condition :: Condition where
  "ready_condition = \<lparr>c_Type = ''Ready'', c_Status = ''True'', c_Reason = ''AllRevisionsReady'', c_Message = []\<rparr>"

definition repository_memory :: "cell heap" where
  "repository_memory =
     [OfModelRepository \<lparr>rom_Meta = emptyMeta\<lparr>om_Name := ''llama''\<rparr>,
        rom_Spec = \<lparr>rpm_ModelName = ''llama'',
          rpm_Source = \<lparr>som_Origin = ''huggingface'', som_ModelId = ''meta/llama'', som_Revision = [], som_Revisions = NilRef,
            som_HFTokenSecret = [], som_HFTokenSecretKey = []\<rparr>,
          rpm_Storage = \<lparr>ms_Size = ''10Gi'', ms_MountPath = [], ms_StorageClass = ''auto''\<rparr>, rpm_AutoDownload = True,
          rpm_DownloadImage = [], rpm_DownloadScripts = [], rpm_DeleteScripts = [], rpm_NodeSelector = NilRef\<rparr>,
        rom_Status = \<lparr>rsm_Phase = [], rsm_Conditions = Ref 1, rsm_Storage = NilRef, rsm_AvailableRevisions = NilRef,
          rsm_ReferencedEngines = []\<rparr>\<rparr>,
      Conditions [ready_condition\<lparr>c_Status := ''False''\<rparr>]]"

definition waiting_repo :: ModelRepository where
  "waiting_repo = sample_repo\<lparr>mr_Status := (mr_Status sample_repo)\<lparr>mst_Conditions := [ready_condition\<lparr>c_Status := ''False''\<rparr>]\<rparr>\<rparr>"

definition set_ready_in_place :: "cell heap \<Rightarrow> ref \<Rightarrow> cell heap option" where
  "set_ready_in_place h p = (case p of
     NilRef \<Rightarrow> None
   | Ref a \<Rightarrow> do {
       x \<leftarrow> load kOfModelRepository h a;
       case rsm_Conditions (rom_Status x) of
         NilRef \<Rightarrow> None
       | Ref b \<Rightarrow> do { cs \<leftarrow> load kConditions h b; Some (h[b := Conditions (put_condition cs ready_condition)]) } })"

lemma value_copies_copy: "copies_values value_copies"
  by (simp add: copies_values_def value_copies_def)

theorem mr_status_change_seen_witness:
  "mr_status_changed value_copies (\<lambda>x y. x = y) set_ready_in_place repository_memory (Ref 0) = Some True"
proof -
  let ?copied = "the (ModelRepository_DeepCopy value_copies repository_memory (Ref 0))"
  let ?h2 = "\<lambda>h. h[1 := Conditions [ready_condition]]"
  let ?f = "\<lambda>s. s\<lparr>mst_Conditions := put_condition (mst_Conditions s) ready_condition\<rparr>"
  have "repository_value repository_memory (Ref 0) = Some (Some waiting_repo)" by code_simp
  moreover have "ModelRepository_DeepCopy value_copies repository_memory (Ref 0) = Some (fst ?copied, snd ?copied)" by code_simp
  moreover have "set_ready_in_place (snd ?copied) (Ref 0) = Some (?h2 (snd ?copied))" by code_simp
  moreover have "writes_within (repository_cells (snd ?copied) (Ref 0)) (snd ?copied) (?h2 (snd ?copied))"
    by (rule writes_within_update) code_simp
  moreover have "repository_value (?h2 (snd ?copied)) (Ref 0) =
      Some (Some (waiting_repo\<lparr>mr_Status := ?f (mr_Status waiting_repo)\<rparr>))" by code_simp
  ultimately have "mr_status_changed value_copies (\<lambda>x y. x = y) set_ready_in_place repository_memory (Ref 0) =
      Some (mr_Status waiting_repo \<noteq> ?f (mr_Status waiting_repo))"
    by (rule mr_status_change_seen [OF value_copies_copy])
  moreover have "mr_Status waiting_repo \<noteq> ?f (mr_Status waiting_repo)" by code_simp
  ultimately show ?thesis by simp
qed

lemma le_status_change_seen:
  assumes "copies_values K" and "engine_value h fresh = Some (Some le)"
    and "LLMEngine_DeepCopy K h fresh = Some (existing, h1)" and "mutate h1 fresh = Some h2"
    and "writes_within (engine_cells h1 fresh) h1 h2" and "engine_value h2 fresh = Some (Some (le\<lparr>le_Status := f (le_Status le)\<rparr>))"
  shows "le_status_changed K equal mutate h fresh = Some (\<not> equal (le_Status le) (f (le_Status le)))"
  using copy_before_mutation [OF pointer_copiers(2) [OF assms(1)] assms(2,3,5)] assms(3,4,6)
  by (simp add: le_status_changed_def)

text \<open>
  (C23) The deep copy of a list of engines is complete and isolated: it always succeeds, is nil exactly
  for nil, stands for the same engines, leaves the original as it was, and shares no map, backing
  array or struct of the custom resource with it, so that no write through the one is seen through
  the other.
\<close>

theorem LLMEngineList_DeepCopy_isolated:
  assumes "copies_values K" and "view_ptr kOfLLMEngineList view_LLMEngineList h p = Some v"
  shows "\<exists>q h1. LLMEngineList_DeepCopy K h p = Some (q, h1) \<and> (q = NilRef) = (p = NilRef) \<and>
    view_ptr kOfLLMEngineList view_LLMEngineList h1 q = Some v \<and> view_ptr kOfLLMEngineList view_LLMEngineList h1 p = Some v \<and>
    reach_ptr kOfLLMEngineList reach_LLMEngineList h1 p \<inter> reach_ptr kOfLLMEngineList reach_LLMEngineList h1 q = {}"
proof -
  note copier = pointer_copiers(4) [OF assms(1)]
  from deep_copier.copied [OF copier assms(2)] obtain q e where q: "LLMEngineList_DeepCopy K h p = Some (q, h @ e)" by blast
  have "(q = NilRef) = (p = NilRef)"
    using q by (cases p) (auto simp: LLMEngineList_DeepCopy_def copy_ptr_def new_def bind_eq_Some_conv)
  with q deep_copier.copy_disjoint [OF copier assms(2) q] show ?thesis by blast
qed

definition engine_memory :: "cell heap" where
  "engine_memory =
     [OfLLMEngineList \<lparr>elm_Items = Ref 1\<rparr>,
      Engines [\<lparr>eom_Meta = emptyMeta\<lparr>om_Name := ''chat'', om_Namespace := ''team-a''\<rparr>,
        eom_Spec = \<lparr>epm_EngineType = ''vllm'', epm_ModelRefs = Ref 2, epm_Image = [], epm_Args = NilRef, epm_Env = NilRef,
          epm_Port = 80, epm_ServicePort = 0, epm_Replicas = Ref 3, epm_NodeSelector = NilRef, epm_Resources = NilRef,
          epm_GPU = Ref 4, epm_HostIPC = False\<rparr>,
        eom_Status = \<lparr>esm_Phase = [], esm_Conditions = NilRef, esm_ModelRepositories = NilRef\<rparr>\<rparr>],
      ModelReferences [\<lparr>mref_Name = ''llama'', mref_Revision = [], mref_UpdatePolicy = ''Manual''\<rparr>],
      Int32 1,
      OfGPUConfig \<lparr>gpm_Enabled = True, gpm_Count = 2, gpm_Type = [], gpm_NodeSelector = Ref 5, gpm_Tolerations = Ref 6\<rparr>,
      StrMap [(''zone'', ''a'')],
      Tolerations [\<lparr>tol_Key = ''gpu'', tol_Operator = ''Exists'', tol_Effect = ''NoSchedule''\<rparr>]]"

definition engine_in_memory :: LLMEngine where
  "engine_in_memory = sample_engine\<lparr>le_Spec := (le_Spec sample_engine)\<lparr>les_GPU := Some \<lparr>gpu_Enabled = True, gpu_Count = 2,
     gpu_Type = [], gpu_NodeSelector = [(''zone'', ''a'')],
     gpu_Tolerations = [\<lparr>tol_Key = ''gpu'', tol_Operator = ''Exists'', tol_Effect = ''NoSchedule''\<rparr>]\<rparr>\<rparr>\<rparr>"

theorem LLMEngineList_DeepCopy_isolated_witness:
  "\<exists>q h1. LLMEngineList_DeepCopy value_copies engine_memory (Ref 0) = Some (q, h1) \<and> q \<noteq> NilRef \<and>
     view_ptr kOfLLMEngineList view_LLMEngineList h1 q = Some (Some \<lparr>lel_Items = [engine_in_memory]\<rparr>)"
proof -
  have "view_ptr kOfLLMEngineList view_LLMEngineList engine_memory (Ref 0) = Some (Some \<lparr>lel_Items = [engine_in_memory]\<rparr>)"
    by code_simp
  from LLMEngineList_DeepCopy_isolated [OF value_copies_copy this] show ?thesis by blast
qed

text \<open>As an interface the copy of nil is nil, never an interface that holds a nil pointer.\<close>

lemma DeepCopyObject_nil:
  assumes "LLMEngine_DeepCopyObject K h p = Some (c, h1)"
  shows "c = None \<longleftrightarrow> p = NilRef"
  using assms
  by (cases p) (auto simp: LLMEngine_DeepCopyObject_def LLMEngine_DeepCopy_def copy_ptr_def new_def bind_eq_Some_conv)

end
