(* ===== verification/Spec2Isabelle.thy ===== *)
theory Spec2Isabelle
  imports Prelude Effects Names Kube_Types Api_Types Client Discovery Sample_Cluster Go_Float Go_Json Storage_Provider
    Engine_Storage Vllm_Config Assets Engine_Adapters Workload Job_Adapters Status_Sync
    ModelRepo_Controller LLMEngine_Controller Manager Requeue Call_Bounds Replay Cluster_States Convergence Engine_Rest
    Go_Heap Deep_Copy
begin

text \<open>
  A verification development for the AITrigram operator, a Kubernetes operator in Go (package
  \<^verbatim>\<open>internal/controller\<close> and its subpackages). The operator reconciles two custom resources: a
  ModelRepository downloads the revisions of a model into a persistent volume, an LLMEngine serves
  models from such volumes. The theories translate the operator's code function by function, keep
  the names of the source, and prove what makes it correct.

  \<^bold>\<open>Parts and theories.\<close>
  \<^item> \<^verbatim>\<open>Prelude\<close>: Go strings as byte lists with the functions of package \<^verbatim>\<open>strings\<close> that the code
    calls, Go maps as association lists without duplicate keys, errors, 32-bit FNV-1a on
    \<^verbatim>\<open>32 word\<close>, decimal and hexadecimal printing; the locale \<^verbatim>\<open>layered_merge\<close> (a merge whose
    right-hand side wins) and its instance on maps.
  \<^item> \<^verbatim>\<open>Effects\<close>: the state monad of the operator, panics as \<^verbatim>\<open>None\<close>, the retry loop, and three
    judgements on the log of API calls: \<^verbatim>\<open>spec m R\<close> (result and calls are related),
    \<^verbatim>\<open>all_events P m\<close>, and \<^verbatim>\<open>guarded P Q m\<close> (a call satisfies Q as long as all calls before it
    satisfied P), each with a set of introduction rules.
  \<^item> \<^verbatim>\<open>Kube_Types\<close>, \<^verbatim>\<open>Api_Types\<close>: the fields of Kubernetes objects that the code touches; the two
    custom resources of \<^verbatim>\<open>api/v1/*_types.go\<close> field by field, with \<^verbatim>\<open>UnmarshalJSON\<close>.
  \<^item> \<^verbatim>\<open>Client\<close>: the parameters. \<^verbatim>\<open>Sample_Cluster\<close>: a concrete instance of them for the witnesses.
  \<^item> \<^verbatim>\<open>Names\<close>: the deterministic names of volumes, claims, components and jobs
    (\<^verbatim>\<open>llmengine_storage.go\<close>, \<^verbatim>\<open>llmengine_utils.go\<close>, \<^verbatim>\<open>generateJobName\<close>); the locale
    \<^verbatim>\<open>bounded_namer\<close> and its three instances.
  \<^item> \<^verbatim>\<open>Discovery\<close>: the choice of a StorageClass (\<^verbatim>\<open>storage/discovery.go\<close>).
  \<^item> \<^verbatim>\<open>Storage_Provider\<close>: the claim of a repository and what is read back from its volume
    (\<^verbatim>\<open>storage/storage_sc.go\<close>, \<^verbatim>\<open>provider.go\<close>, \<^verbatim>\<open>common.go\<close>, \<^verbatim>\<open>storage_utils.go\<close>).
  \<^item> \<^verbatim>\<open>Engine_Storage\<close>: the read-only volume and claim an engine mounts (\<^verbatim>\<open>llmengine_storage.go\<close>).
  \<^item> \<^verbatim>\<open>Go_Float\<close>, \<^verbatim>\<open>Go_Json\<close>: what the code uses of Go's \<^verbatim>\<open>strconv\<close> and \<^verbatim>\<open>encoding/json\<close>: reading
    integers and 64-bit floats with correct rounding, and decoding JSON into \<^verbatim>\<open>interface{}\<close>.
  \<^item> \<^verbatim>\<open>Vllm_Config\<close>: arguments, defaults and their merge (\<^verbatim>\<open>adapters/llmengine_utils.go\<close>).
  \<^item> \<^verbatim>\<open>Assets\<close>: the loaders of embedded templates and scripts (\<^verbatim>\<open>assets/*.go\<close>).
  \<^item> \<^verbatim>\<open>Engine_Adapters\<close>: deployment, service and ConfigMap of an engine and a model (\<^verbatim>\<open>adapters\<close>);
    two instances of \<^verbatim>\<open>layered_merge\<close>, for environments and for resources.
  \<^item> \<^verbatim>\<open>Workload\<close>: the component builder and its staged reconciliation (\<^verbatim>\<open>component/workload.go\<close>,
    \<^verbatim>\<open>builder.go\<close>, \<^verbatim>\<open>component.go\<close>). \<^verbatim>\<open>Job_Adapters\<close>: download and cleanup jobs (\<^verbatim>\<open>job_*.go\<close>).
  \<^item> \<^verbatim>\<open>Status_Sync\<close>: the way both controllers write a status, as an inductive log, and the locale
    \<^verbatim>\<open>phased_status\<close> (a phase derived from conditions), instantiated by both controllers.
  \<^item> \<^verbatim>\<open>ModelRepo_Controller\<close>, \<^verbatim>\<open>LLMEngine_Controller\<close>: the two reconcilers, every handler and step
    (\<^verbatim>\<open>modelrepository_controller.go\<close>, \<^verbatim>\<open>llmengine_controller.go\<close>).
  \<^item> \<^verbatim>\<open>Manager\<close>: the operator's process (\<^verbatim>\<open>cmd/main.go\<close>) - scheme, commands and flags, the options
    of the manager and its staged start - and both \<^verbatim>\<open>SetupWithManager\<close>.
  \<^item> \<^verbatim>\<open>Requeue\<close>: which runs end without asking for another. \<^verbatim>\<open>Call_Bounds\<close>: how many API calls a run makes. \<^verbatim>\<open>Replay\<close>: a run acts on the cluster by the
    calls of its log and nothing else. \<^verbatim>\<open>Cluster_States\<close>: the cluster states that runs of both
    reconcilers and changes by others lead to, as an inductive step relation, and what holds in
    all of them. \<^verbatim>\<open>Convergence\<close>, \<^verbatim>\<open>Engine_Rest\<close>: where the two reconcilers come to rest.
  \<^item> \<^verbatim>\<open>Go_Heap\<close>, \<^verbatim>\<open>Deep_Copy\<close>: the generated deep copies (\<^verbatim>\<open>api/v1/zz_generated.deepcopy.go\<close>) on a heap
    of maps, backing arrays and structs; the locale \<^verbatim>\<open>deep_copier\<close> (a copy stands for the same value
    in cells of its own), its instances for maps, slices, pointers and structs, and the comparison
    of the status before and after a mutation in place, which the rest of the development makes on
    values. This theory: properties across components.

  \<^bold>\<open>How the parts interact.\<close> The process registers both reconcilers with the manager, which runs
  them on the events of the objects they declare, and again when a run asks for it. The repository's reconciler asks the discovery for a StorageClass,
  builds a provider, creates the claim, waits until it is bound where the storage is node-bound,
  submits one job per revision and derives the status from the jobs. The engine's reconciler
  waits until all its repositories are Ready, checks the GPUs of the node that the storage
  requires, mirrors each repository's volume read-only, applies ConfigMap, deployment and service
  of each model, and writes back which engines use a repository - which is what the deletion of a
  repository asks for.

  \<^bold>\<open>Method.\<close> A function that calls the API server is a computation over an abstract cluster; each
  call is an operation of the client, which may answer anything and change the cluster in any way
  (other writers included), and is logged with its answer. A property of a handler is a relation
  between its result and its log, so it holds whatever the server does. A Go pointer that is
  mutated in place is a value that is returned updated (\<^verbatim>\<open>Deep_Copy\<close> justifies this where the code
  relies on a copy), an error is a value, a panic is \<^verbatim>\<open>None\<close>. Ranging over a Go map follows the list that represents it; where the order matters the
  property says so. Loops are structural recursions but for the retry on conflicts.

  \<^bold>\<open>Assumptions.\<close> What a theorem relies on of library code is a named hypothesis in its statement:
  \<^verbatim>\<open>retries_conflicts\<close> (client-go's retry is finitely many attempts, each but the last ended by a
  conflict), \<^verbatim>\<open>retries_at_most N\<close> (it has N + 1 attempts; five steps in the default back-off, hence
  N = 4 in the witnesses), \<^verbatim>\<open>sets_conditions\<close>, \<^verbatim>\<open>keeps_conditions\<close>, \<^verbatim>\<open>manages_finalizers\<close>,
  \<^verbatim>\<open>compares_statuses\<close>, \<^verbatim>\<open>sets_owner\<close>, \<^verbatim>\<open>copies_values\<close> (the deep copies of embedded Kubernetes
  structs return the value copied), and of the API server and the other writers
  \<^verbatim>\<open>everybody_keeps\<close> (the invariant holds of what is stored at the start; answers are what is stored;
  what is stored later is what was stored, what a run wrote, or what others write in keeping with
  the invariant). \<^verbatim>\<open>Sample_Cluster\<close> proves each of them for its instance; the
  witnesses of the handlers evaluate whole runs on it, and on a variant whose server rejects
  deployments, call by call. Printing YAML,
  quantities, and the bytes of embedded files are parameters without hypotheses but
  \<^verbatim>\<open>embedded\<close> (the files that the loaders ask for exist).

  \<^bold>\<open>What the lemmas show.\<close> Safety of the handlers (deletion is guarded, nothing is provisioned before
  its preconditions were answered, jobs are created once, Running means serving); invariants of
  every written status (its phase is the derived one, its enumerated fields are in the schema) and
  of every reachable cluster state; rest of a settled repository and of an engine that serves, and
  the return to everything that is not settled; the completeness of what the process starts and the
  wake-up of engines;
  refinement of declarative specifications (best StorageClass, users of a repository, suitable
  nodes); round trips (volume to backend reference and back, arguments to configuration and back);
  isolation of deep copies; layering of environments, resources, node selectors and configurations; bounds of names and of
  the number of calls; the exact panics and error paths.

  \<^bold>\<open>Not modelled.\<close> \<^verbatim>\<open>groupversion_info.go\<close> (three registration variables), logging, the work queue of the manager (library code;
  what it is asked for is modelled), the contents of the embedded templates and scripts,
  \<^verbatim>\<open>AddGPUCapabilities\<close> (empty body), the constructors of the provider factory and the discovery,
  and interfaces without an implementation in the repository. Pods in a deployment's template
  always have a selector object; timestamps of conditions are left to the library.
\<close>

section \<open>Properties across components\<close>

text \<open>The variable by which a server finds its models, where job and engine agree on one.\<close>

definition model_variable :: "string \<Rightarrow> string \<Rightarrow> string option" where
  "model_variable engineType origin =
     (if engineType = LLMEngineTypeVLLM \<and> origin = ModelOriginHuggingFace then Some ''HF_HOME''
      else if engineType = LLMEngineTypeOllama \<and> origin = ModelOriginOllama then Some ''OLLAMA_MODELS''
      else None)"

lemma job_variable:
  assumes "model_variable engineType origin = Some var"
  shows "env_lookup (buildJobEnvironment origin params path (Some src)) var = Some (env_var var path)"
  using assms by (auto simp: model_variable_def buildJobEnvironment_def split: if_splits)

lemma engine_variable:
  assumes "AdaptDeployment L ctx d = Some (Inr d')" and "env_lookup (les_Env (le_Spec (ctx_LLMEngine ctx))) var = None"
    and "model_variable (les_EngineType (le_Spec (ctx_LLMEngine ctx))) (src_Origin (mrs_Source (mr_Spec (ctx_ModelRepo ctx)))) = Some var"
  shows "env_lookup (ct_Env (dep_container d')) var =
    Some (env_var var (getOrDefaultMountPath (ms_MountPath (mrs_Storage (mr_Spec (ctx_ModelRepo ctx))))))"
proof -
  from AdaptDeployment_env [OF assms(1)] obtain derived where
    env: "env_lookup (ct_Env (dep_container d')) = env_lookup (ct_Env (dep_container d)) ++
      (env_lookup derived ++ env_lookup (les_Env (le_Spec (ctx_LLMEngine ctx))))"
    and derived: "list_all (\<lambda>(k, v). env_lookup derived k = Some (env_var k v))
      (snd (GetStoragePaths (ctx_LLMEngine ctx) (Some (ctx_ModelRepo ctx))))"
    by blast
  from assms(3) derived have "env_lookup derived var =
      Some (env_var var (getOrDefaultMountPath (ms_MountPath (mrs_Storage (mr_Spec (ctx_ModelRepo ctx))))))"
    by (auto simp: model_variable_def GetStoragePaths_def getOrDefaultMountPath_def Let_def split: if_splits)
  with assms(2) show ?thesis by (simp add: env map_add_def)
qed

text \<open>
  (C9) Models are downloaded to where engines look for them: the download job of a repository and
  the deployment of an engine that serves it mount the model storage at the same path, the job
  writable, the engine read-only, and the variable by which both programs find the models
  (\<^verbatim>\<open>HF_HOME\<close> for a HuggingFace repository served by vLLM, \<^verbatim>\<open>OLLAMA_MODELS\<close> for Ollama)
  names that path in both, unless the user of the engine sets it.
\<close>

theorem downloads_land_where_engines_look:
  assumes "adaptModelRepositoryJob A jctx job jobType = Some (Inr job')"
    and "jc_Provider jctx = NewStorageClassProvider (jc_ModelRepo jctx) sc"
    and "AdaptDeployment L ctx d = Some (Inr d')" and "mr_Spec (ctx_ModelRepo ctx) = mr_Spec (jc_ModelRepo jctx)"
    and "model_variable (les_EngineType (le_Spec (ctx_LLMEngine ctx))) (src_Origin (mrs_Source (mr_Spec (jc_ModelRepo jctx)))) = Some var"
    and "env_lookup (les_Env (le_Spec (ctx_LLMEngine ctx))) var = None"
  shows "\<exists>path. ct_VolumeMounts (job_container job') = [\<lparr>vm_Name = ''model-storage'', vm_MountPath = path, vm_ReadOnly = False\<rparr>] \<and>
    mounts_claim d' (ctx_ModelPVCName ctx) path \<and>
    env_lookup (ct_Env (job_container job')) var = Some (env_var var path) \<and>
    env_lookup (ct_Env (dep_container d')) var = Some (env_var var path)"
proof (intro exI conjI)
  let ?path = "getOrDefaultMountPath (ms_MountPath (mrs_Storage (mr_Spec (jc_ModelRepo jctx))))"
  show "ct_VolumeMounts (job_container job') = [\<lparr>vm_Name = ''model-storage'', vm_MountPath = ?path, vm_ReadOnly = False\<rparr>]"
    using adaptJob_fields(3) [OF assms(1)] assms(2) by (simp add: PrepareDownloadVolume_def NewStorageClassProvider_def)
  show "mounts_claim d' (ctx_ModelPVCName ctx) ?path"
    using AdaptDeployment_mounts_claim [OF assms(3)] assms(4) by simp
  show "env_lookup (ct_Env (job_container job')) var = Some (env_var var ?path)"
    using adaptJob_fields(5) [OF assms(1)] job_variable [OF assms(5)] by simp
  show "env_lookup (ct_Env (dep_container d')) var = Some (env_var var ?path)"
    using engine_variable [OF assms(3,6)] assms(4,5) by simp
qed

theorem downloads_land_where_engines_look_witness:
  "\<exists>job' d' path. adaptModelRepositoryJob all_assets sample_job_context sample_job ''download'' = Some (Inr job') \<and>
     AdaptDeployment mem_lib sample_context sample_template = Some (Inr d') \<and>
     env_lookup (ct_Env (job_container job')) ''HF_HOME'' = Some (env_var ''HF_HOME'' path) \<and>
     env_lookup (ct_Env (dep_container d')) ''HF_HOME'' = Some (env_var ''HF_HOME'' path)"
proof -
  have "ComponentName (le_Name (ctx_LLMEngine sample_context)) (mr_Name (ctx_ModelRepo sample_context)) = Some ''chat-llama''"
    by (simp add: sample_context_def sample_ComponentName)
  from AdaptDeployment_total [OF sample_usable(1) this] obtain d' where
    d': "AdaptDeployment mem_lib sample_context sample_template = Some (Inr d')" by blast
  have "embedded all_assets" "ps_Containers (pt_Spec (job_Template sample_job)) \<noteq> []"
    "src_Origin (mrs_Source (mr_Spec (jc_ModelRepo sample_job_context))) \<in> {''huggingface'', ''ollama''}"
    by (simp_all add: embedded_def all_assets_def sample_job_def sample_job_context_def bound_repo_def sample_repo_def)
  from adaptJob_total [OF this] obtain job' where
    job': "adaptModelRepositoryJob all_assets sample_job_context sample_job ''download'' = Some (Inr job')" by blast
  have "jc_Provider sample_job_context = NewStorageClassProvider (jc_ModelRepo sample_job_context) local_class"
    "mr_Spec (ctx_ModelRepo sample_context) = mr_Spec (jc_ModelRepo sample_job_context)"
    "model_variable (les_EngineType (le_Spec (ctx_LLMEngine sample_context)))
       (src_Origin (mrs_Source (mr_Spec (jc_ModelRepo sample_job_context)))) = Some ''HF_HOME''"
    "env_lookup (les_Env (le_Spec (ctx_LLMEngine sample_context))) ''HF_HOME'' = None"
    by (simp_all add: sample_job_context_def sample_context_def bound_repo_def sample_repo_def sample_engine_def model_variable_def)
  from downloads_land_where_engines_look [OF job' this(1) d' this(2-4)] job' d' show ?thesis by blast
qed

end
